(* ===== verification/WG_Prelude.thy ===== *)
theory WG_Prelude
  imports Complex_Main "HOL-Library.Word" "HOL-Library.Sublist"
begin

text \<open>
  Shared vocabulary of the development.

  \<^item> \<open>QString\<close> values are HOL strings of Latin-1 characters; the operations below are the
    ones the sources call, with the behaviour the Qt reference documents
    (\<open>indexOf\<close> answers \<open>-1\<close> when nothing is found, \<open>split\<close> always answers at
    least one field, \<open>trimmed\<close> removes white space at both ends).  Where the code tells a
    \<^emph>\<open>null\<close> string from an \<^emph>\<open>empty\<close> one (\<open>isNull\<close> against \<open>isEmpty\<close>), the
    type \<open>qstr\<close> carries the difference: \<open>None\<close> is the null string.
  \<^item> \<open>QJsonValue\<close> is the datatype \<open>json\<close>.
  \<^item> bit-list views of machine words, most significant bit first, and the facts that tie the
    shifts and masks of the code to them.
  \<^item> transition systems: reachability and the locale \<open>invariant_system\<close> that turns
    one-step preservation into a property of every reachable state.
\<close>

named_theorems qstring_defs "definitions of the string operations"
named_theorems bits_simps "bit-list views of words and byte arrays"

subsection \<open>Strings\<close>

type_synonym qstr = "string option"

definition qtext :: "qstr \<Rightarrow> string" where
  "qtext s = (case s of None \<Rightarrow> [] | Some x \<Rightarrow> x)"

definition qIsNull :: "qstr \<Rightarrow> bool" where
  "qIsNull s \<longleftrightarrow> s = None"

definition qIsEmpty :: "qstr \<Rightarrow> bool" where
  "qIsEmpty s \<longleftrightarrow> qtext s = []"

text \<open>\<open>QString::operator==\<close> compares the text: a null string equals an empty one.\<close>

definition qEq :: "qstr \<Rightarrow> qstr \<Rightarrow> bool" where
  "qEq a b \<longleftrightarrow> qtext a = qtext b"

lemma qtext_simps [simp]: "qtext None = []" "qtext (Some x) = x"
  by (simp_all add: qtext_def)

lemma qIsNull_simps [simp]: "qIsNull None" "\<not> qIsNull (Some x)"
  by (simp_all add: qIsNull_def)

lemma qIsEmpty_simps [simp]: "qIsEmpty None" "qIsEmpty (Some x) \<longleftrightarrow> x = []"
  by (simp_all add: qIsEmpty_def)

lemma qIsEmpty_imp: "\<not> qIsEmpty s \<Longrightarrow> \<exists>x. s = Some x \<and> x \<noteq> []"
  by (cases s) auto

definition isSpace :: "char \<Rightarrow> bool" where
  [qstring_defs]: "isSpace c \<longleftrightarrow>
     c \<in> {CHR 0x09, CHR 0x0A, CHR 0x0B, CHR 0x0C, CHR 0x0D, CHR 0x20, CHR 0x85, CHR 0xA0}"

definition trimmed :: "string \<Rightarrow> string" where
  [qstring_defs]: "trimmed s = rev (dropWhile isSpace (rev (dropWhile isSpace s)))"

fun indexOf :: "string \<Rightarrow> char \<Rightarrow> int" where
  "indexOf [] c = -1"
| "indexOf (x # xs) c =
     (if x = c then 0 else let i = indexOf xs c in if i < 0 then -1 else i + 1)"

definition lastIndexOf :: "string \<Rightarrow> char \<Rightarrow> int" where
  [qstring_defs]: "lastIndexOf s c =
     (let i = indexOf (rev s) c in if i < 0 then -1 else int (length s) - 1 - i)"

definition left :: "string \<Rightarrow> int \<Rightarrow> string" where
  [qstring_defs]: "left s n = take (nat n) s"

definition mid :: "string \<Rightarrow> int \<Rightarrow> int \<Rightarrow> string" where
  [qstring_defs]: "mid s p n = take (nat n) (drop (nat p) s)"

definition midFrom :: "string \<Rightarrow> int \<Rightarrow> string" where
  [qstring_defs]: "midFrom s p = drop (nat p) s"

definition startsWithChar :: "string \<Rightarrow> char \<Rightarrow> bool" where
  [qstring_defs]: "startsWithChar s c \<longleftrightarrow> (case s of [] \<Rightarrow> False | x # _ \<Rightarrow> x = c)"

definition endsWithChar :: "string \<Rightarrow> char \<Rightarrow> bool" where
  [qstring_defs]: "endsWithChar s c \<longleftrightarrow> startsWithChar (rev s) c"

fun qsplit :: "char \<Rightarrow> string \<Rightarrow> string list" where
  "qsplit c [] = [[]]"
| "qsplit c (x # xs) =
     (if x = c then [] # qsplit c xs
      else case qsplit c xs of [] \<Rightarrow> [[x]] | f # fs \<Rightarrow> (x # f) # fs)"

text \<open>\<open>section(sep, 0, 0)\<close>: the field before the first separator.\<close>

definition firstSection :: "string \<Rightarrow> char \<Rightarrow> string" where
  [qstring_defs]: "firstSection s c = takeWhile (\<lambda>x. x \<noteq> c) s"

fun joinWith :: "string \<Rightarrow> string list \<Rightarrow> string" where
  "joinWith sep [] = []"
| "joinWith sep [x] = x"
| "joinWith sep (x # y # ys) = x @ sep @ joinWith sep (y # ys)"

definition toLowerChar :: "char \<Rightarrow> char" where
  [qstring_defs]: "toLowerChar c =
     (let n = of_char c :: nat in
      if (65 \<le> n \<and> n \<le> 90) \<or> (192 \<le> n \<and> n \<le> 222 \<and> n \<noteq> 215) then char_of (n + 32) else c)"

definition toLower :: "string \<Rightarrow> string" where
  [qstring_defs]: "toLower s = map toLowerChar s"

text \<open>\<open>QList::removeAt\<close>.\<close>

definition removeAt :: "nat \<Rightarrow> 'a list \<Rightarrow> 'a list" where
  "removeAt i xs = take i xs @ drop (Suc i) xs"

lemma set_removeAt: "set (removeAt i xs) \<subseteq> set xs"
  by (auto simp: removeAt_def dest: in_set_takeD in_set_dropD)

lemma length_removeAt: "length (removeAt i xs) \<le> length xs"
  by (simp add: removeAt_def)

lemma indexOf_nonneg_iff: "0 \<le> indexOf s c \<longleftrightarrow> c \<in> set s"
  by (induction s) (auto simp: Let_def)

lemma indexOf_neg: "c \<notin> set s \<Longrightarrow> indexOf s c = -1"
  by (induction s) auto

lemma indexOf_append_notin:
  "c \<notin> set xs \<Longrightarrow> indexOf (xs @ c # ys) c = int (length xs)"
  by (induction xs) (auto simp: Let_def)

lemma indexOf_bound: "indexOf s c < int (length s)"
  by (induction s) (auto simp: Let_def)

lemma take_indexOf: "0 \<le> indexOf s c \<Longrightarrow> take (nat (indexOf s c)) s = takeWhile (\<lambda>x. x \<noteq> c) s"
proof (induction s)
  case Nil
  then show ?case by simp
next
  case (Cons x xs)
  then show ?case
    by (auto simp: Let_def nat_add_distrib split: if_splits)
qed

lemma lastIndexOf_append_notin:
  "c \<notin> set ys \<Longrightarrow> lastIndexOf (xs @ c # ys) c = int (length xs)"
  using indexOf_append_notin [of c "rev ys" "rev xs"]
  by (simp add: lastIndexOf_def Let_def)

lemma qsplit_nonempty [simp]: "qsplit c s \<noteq> []"
  by (induction s) (auto split: list.splits)

lemma qsplit_notin: "c \<notin> set s \<Longrightarrow> qsplit c s = [s]"
  by (induction s) auto

lemma qsplit_append: "c \<notin> set s \<Longrightarrow> qsplit c (s @ c # t) = s # qsplit c t"
  by (induction s) auto

lemma qsplit_no_sep: "f \<in> set (qsplit c s) \<Longrightarrow> c \<notin> set f"
  by (induction s arbitrary: f) (fastforce split: if_splits list.splits)+

text \<open>Splitting is undone by joining: no character of the input is lost.\<close>

lemma joinWith_qsplit: "joinWith [c] (qsplit c s) = s"
proof (induction s)
  case Nil
  then show ?case by simp
next
  case (Cons x xs)
  obtain f fs where "qsplit c xs = f # fs"
    by (cases "qsplit c xs") auto
  with Cons show ?case by (cases fs) auto
qed

lemma trimmed_id: "s \<noteq> [] \<Longrightarrow> \<not> isSpace (hd s) \<Longrightarrow> \<not> isSpace (last s) \<Longrightarrow> trimmed s = s"
  by (cases s rule: rev_cases) (auto simp: trimmed_def neq_Nil_conv hd_append dropWhile_append split: if_splits)

lemma set_trimmed: "set (trimmed s) \<subseteq> set s"
  by (auto simp: trimmed_def dest!: set_dropWhileD)

subsection \<open>JSON values\<close>

datatype json =
    JNull
  | JBool bool
  | JDouble rat
  | JString string
  | JArray "json list"
  | JObject "(string \<times> json) list"

type_synonym json_object = "(string \<times> json) list"

text \<open>
  \<open>QJsonObject\<close>: \<open>insert\<close> replaces the value of a key; \<open>value\<close> of an absent key is
  undefined, whose conversions answer their defaults.
\<close>

definition jInsert :: "string \<Rightarrow> json \<Rightarrow> json_object \<Rightarrow> json_object" where
  "jInsert k v obj = filter (\<lambda>e. fst e \<noteq> k) obj @ [(k, v)]"

definition jContains :: "json_object \<Rightarrow> string \<Rightarrow> bool" where
  "jContains obj k \<longleftrightarrow> map_of obj k \<noteq> None"

definition jValue :: "json_object \<Rightarrow> string \<Rightarrow> json option" where
  "jValue obj k = map_of obj k"

definition jToString :: "json option \<Rightarrow> qstr" where
  "jToString v = (case v of Some (JString s) \<Rightarrow> Some s | _ \<Rightarrow> None)"

definition jToArray :: "json option \<Rightarrow> json list" where
  "jToArray v = (case v of Some (JArray xs) \<Rightarrow> xs | _ \<Rightarrow> [])"

definition jToObject :: "json option \<Rightarrow> json_object" where
  "jToObject v = (case v of Some (JObject xs) \<Rightarrow> xs | _ \<Rightarrow> [])"

definition jToBool :: "json option \<Rightarrow> bool" where
  "jToBool v = (case v of Some (JBool b) \<Rightarrow> b | _ \<Rightarrow> False)"

text \<open>\<open>toInt\<close> answers zero for a number that is not a whole number of the \<open>int\<close> range.\<close>

definition jToInt :: "json option \<Rightarrow> int" where
  "jToInt v = (case v of
       Some (JDouble r) \<Rightarrow> (let n = floor r in if of_int n = r \<and> - (2^31) \<le> n \<and> n < 2^31 then n else 0)
     | _ \<Rightarrow> 0)"

definition jIsString :: "json option \<Rightarrow> bool" where
  "jIsString v \<longleftrightarrow> (case v of Some (JString s) \<Rightarrow> True | _ \<Rightarrow> False)"

definition jIsDouble :: "json option \<Rightarrow> bool" where
  "jIsDouble v \<longleftrightarrow> (case v of Some (JDouble r) \<Rightarrow> True | _ \<Rightarrow> False)"

definition jIsArray :: "json option \<Rightarrow> bool" where
  "jIsArray v \<longleftrightarrow> (case v of Some (JArray xs) \<Rightarrow> True | _ \<Rightarrow> False)"

definition jIsObject :: "json option \<Rightarrow> bool" where
  "jIsObject v \<longleftrightarrow> (case v of Some (JObject xs) \<Rightarrow> True | _ \<Rightarrow> False)"

definition jIsBool :: "json option \<Rightarrow> bool" where
  "jIsBool v \<longleftrightarrow> (case v of Some (JBool xs) \<Rightarrow> True | _ \<Rightarrow> False)"

lemma map_of_filter_key: "map_of (filter (\<lambda>e. fst e \<noteq> k) xs) k' = (if k' = k then None else map_of xs k')"
  by (induction xs) auto

lemma jValue_insert [simp]: "jValue (jInsert k v obj) k' = (if k' = k then Some v else jValue obj k')"
  by (auto simp: jValue_def jInsert_def map_add_def map_of_filter_key split: option.splits)

lemma jValue_Nil [simp]: "jValue [] k = None"
  by (simp add: jValue_def)

lemma jContains_iff [simp]: "jContains obj k \<longleftrightarrow> jValue obj k \<noteq> None"
  by (simp add: jContains_def jValue_def)

lemma jConversions [simp]:
  "jToString (Some (JString s)) = Some s" "jToString None = None"
  "jToArray (Some (JArray xs)) = xs" "jToObject (Some (JObject os)) = os"
  "jToBool (Some (JBool b)) = b" "jToBool None = False"
  by (simp_all add: jToString_def jToArray_def jToObject_def jToBool_def)

lemma jToInt_of_int [simp]:
  "- (2^31) \<le> n \<Longrightarrow> n < 2^31 \<Longrightarrow> jToInt (Some (JDouble (of_int n))) = n"
  by (simp add: jToInt_def)

lemma jKinds [simp]:
  "jIsString (Some (JString s))" "jIsDouble (Some (JDouble r))" "jIsArray (Some (JArray xs))"
  "jIsObject (Some (JObject ob))" "jIsBool (Some (JBool b))"
  "\<not> jIsString None" "\<not> jIsDouble None" "\<not> jIsArray None" "\<not> jIsObject None" "\<not> jIsBool None"
  by (simp_all add: jIsString_def jIsDouble_def jIsArray_def jIsObject_def jIsBool_def)

lemma jIs_cases:
  "jIsString v \<Longrightarrow> \<exists>s. v = Some (JString s)" "jIsArray v \<Longrightarrow> \<exists>xs. v = Some (JArray xs)"
  "jIsObject v \<Longrightarrow> \<exists>ob. v = Some (JObject ob)" "jIsDouble v \<Longrightarrow> \<exists>r. v = Some (JDouble r)"
  by (auto simp: jIsString_def jIsArray_def jIsObject_def jIsDouble_def split: option.splits json.splits)

subsection \<open>Faults\<close>

text \<open>
  Ways a run can end without a value: a failed \<open>Q_ASSERT\<close>, a division by zero, a call through a
  null pointer, a conversion of a floating point number outside the range of \<open>int\<close>, a loop over a
  container that was changed under it, an overflow of \<open>int\<close>.
\<close>

datatype fault =
    Assertion_failed | Division_by_zero | Null_pointer | Undefined_conversion | Iterator_invalidated | Integer_overflow

text \<open>Sequencing of steps that may fail.\<close>

definition fbind :: "'e + 'a \<Rightarrow> ('a \<Rightarrow> 'e + 'b) \<Rightarrow> 'e + 'b" where
  "fbind m f = (case m of Inl e \<Rightarrow> Inl e | Inr a \<Rightarrow> f a)"

definition fassert :: "bool \<Rightarrow> fault + 'b \<Rightarrow> fault + 'b" where
  "fassert b m = (if b then m else Inl Assertion_failed)"

definition fpointer :: "bool \<Rightarrow> fault + 'b \<Rightarrow> fault + 'b" where
  "fpointer b m = (if b then m else Inl Null_pointer)"

definition ffrom :: "'a option \<Rightarrow> fault + 'a" where
  "ffrom x = (case x of None \<Rightarrow> Inl Assertion_failed | Some a \<Rightarrow> Inr a)"

lemma fbind_simps [simp]: "fbind (Inl e) f = Inl e" "fbind (Inr a) f = f a"
  by (simp_all add: fbind_def)

lemma fassert_simps [simp]: "fassert True m = m" "fassert False m = Inl Assertion_failed"
  by (simp_all add: fassert_def)

lemma fpointer_simps [simp]: "fpointer True m = m" "fpointer False m = Inl Null_pointer"
  by (simp_all add: fpointer_def)

lemma ffrom_simps [simp]: "ffrom None = Inl Assertion_failed" "ffrom (Some a) = Inr a"
  by (simp_all add: ffrom_def)

lemma fbind_InrD: "fbind m f = Inr b \<Longrightarrow> \<exists>a. m = Inr a \<and> f a = Inr b"
  by (cases m) auto

lemma fassert_InrD: "fassert c m = Inr b \<Longrightarrow> c \<and> m = Inr b"
  by (cases c) auto

subsection \<open>Words and byte arrays as lists of bits\<close>

unbundle bit_operations_syntax

text \<open>Most significant bit first, so that a network prefix is a list prefix.\<close>

definition wbits :: "'a::len word \<Rightarrow> bool list" where
  "wbits w = map (\<lambda>i. bit w (LENGTH('a) - 1 - i)) [0..<LENGTH('a)]"

lemma length_wbits [bits_simps, simp]: "length (wbits (w::'a::len word)) = LENGTH('a)"
  by (simp add: wbits_def)

lemma nth_wbits: "i < LENGTH('a) \<Longrightarrow> wbits (w::'a::len word) ! i = bit w (LENGTH('a) - 1 - i)"
  by (simp add: wbits_def)

lemma bit_via_wbits: "n < LENGTH('a) \<Longrightarrow> bit (w::'a::len word) n = wbits w ! (LENGTH('a) - 1 - n)"
  by (simp add: nth_wbits)

lemma wbits_inject [simp]: "wbits a = wbits b \<longleftrightarrow> a = b"
proof
  assume eq: "wbits a = wbits b"
  show "a = b"
    by (rule bit_word_eqI) (simp add: bit_via_wbits eq)
qed simp

lemma take_eq_iff_nth:
  "length xs = length ys \<Longrightarrow> p \<le> length xs \<Longrightarrow>
     take p xs = take p ys \<longleftrightarrow> (\<forall>i<p. xs ! i = ys ! i)"
  by (auto simp: list_eq_iff_nth_eq)

text \<open>The test \<open>(a ^ b) >> (W - p) == 0\<close> of the code compares the first \<open>p\<close> bits.\<close>

lemma drop_bit_xor_zero_iff:
  fixes a b :: "'a::len word"
  assumes "p \<le> LENGTH('a)"
  shows "drop_bit (LENGTH('a) - p) (a XOR b) = 0 \<longleftrightarrow> take p (wbits a) = take p (wbits b)"
proof -
  let ?L = "LENGTH('a)"
  have "drop_bit (?L - p) (a XOR b) = 0 \<longleftrightarrow> (\<forall>n. \<not> bit (drop_bit (?L - p) (a XOR b)) n)"
    by (auto simp: bit_eq_iff simp del: drop_bit_xor dest: bit_imp_le_length)
  also have "\<dots> \<longleftrightarrow> (\<forall>n. ?L - p + n < ?L \<longrightarrow> bit a (?L - p + n) = bit b (?L - p + n))"
    by (auto simp: bit_drop_bit_eq bit_xor_iff dest: bit_imp_le_length)
  also have "\<dots> \<longleftrightarrow> (\<forall>i<p. bit a (?L - 1 - i) = bit b (?L - 1 - i))"
  proof (rule iffI; intro allI impI)
    fix i assume *: "\<forall>n. ?L - p + n < ?L \<longrightarrow> bit a (?L - p + n) = bit b (?L - p + n)" and "i < p"
    then have "?L - p + (p - 1 - i) = ?L - 1 - i" "?L - p + (p - 1 - i) < ?L"
      using assms by auto
    with * show "bit a (?L - 1 - i) = bit b (?L - 1 - i)" by metis
  next
    fix n assume *: "\<forall>i<p. bit a (?L - 1 - i) = bit b (?L - 1 - i)" and n: "?L - p + n < ?L"
    then have "p - 1 - n < p" "?L - 1 - (p - 1 - n) = ?L - p + n"
      using assms by auto
    with * show "bit a (?L - p + n) = bit b (?L - p + n)" by metis
  qed
  also have "\<dots> \<longleftrightarrow> take p (wbits a) = take p (wbits b)"
    using assms by (subst take_eq_iff_nth) (auto simp: nth_wbits)
  finally show ?thesis .
qed

text \<open>\<open>a | (MSB >> p)\<close> sets bit \<open>p\<close>, counted from the most significant end.\<close>

lemma wbits_or_msb:
  fixes a :: "'a::len word"
  assumes "p < LENGTH('a)"
  shows "wbits (a OR drop_bit p (push_bit (LENGTH('a) - 1) 1)) = (wbits a)[p := True]"
proof (rule nth_equalityI)
  fix i assume "i < length (wbits (a OR drop_bit p (push_bit (LENGTH('a) - 1) 1)))"
  then have i: "i < LENGTH('a)" by simp
  have "bit (drop_bit p (push_bit (LENGTH('a) - 1) (1::'a word))) (LENGTH('a) - 1 - i) \<longleftrightarrow> i = p"
    using assms i by (auto simp: bit_drop_bit_eq bit_exp_iff)
  then show "wbits (a OR drop_bit p (push_bit (LENGTH('a) - 1) 1)) ! i = (wbits a)[p := True] ! i"
    using i assms by (auto simp: nth_wbits bit_or_iff nth_list_update)
qed simp

text \<open>
  \<open>0xff..ff >> p\<close>, which the simplifier writes \<open>mask (W - p)\<close>, has \<open>p\<close> leading
  zeros and ones below.
\<close>

lemma wbits_mask:
  "n \<le> LENGTH('a) \<Longrightarrow>
     wbits (mask n :: 'a::len word) = replicate (LENGTH('a) - n) False @ replicate n True"
  by (rule nth_equalityI) (auto simp: nth_wbits bit_mask_iff nth_append)

lemma wbits_not_mask:
  "n \<le> LENGTH('a) \<Longrightarrow>
     wbits (NOT (mask n) :: 'a::len word) = replicate (LENGTH('a) - n) True @ replicate n False"
  by (rule nth_equalityI) (auto simp: nth_wbits bit_mask_iff bit_not_iff nth_append)

lemma wbits_or_mask:
  "n \<le> LENGTH('a) \<Longrightarrow>
     wbits (a OR mask n :: 'a::len word) = take (LENGTH('a) - n) (wbits a) @ replicate n True"
  by (rule nth_equalityI) (auto simp: nth_wbits bit_mask_iff bit_or_iff nth_append)

lemma wbits_zero: "wbits (0 :: 'a::len word) = replicate (LENGTH('a)) False"
  by (rule nth_equalityI) (auto simp: nth_wbits)

lemma wbits_minus_one: "wbits (- 1 :: 'a::len word) = replicate (LENGTH('a)) True"
  by (rule nth_equalityI) (auto simp: nth_wbits)

subsubsection \<open>Byte arrays\<close>

type_synonym bytes = "8 word list"

definition bytes_bits :: "bytes \<Rightarrow> bool list" where
  "bytes_bits bs = concat (map wbits bs)"

definition memset :: "bytes \<Rightarrow> nat \<Rightarrow> 8 word \<Rightarrow> nat \<Rightarrow> bytes" where
  "memset bs off v n = take off bs @ replicate n v @ drop (off + n) bs"

lemma length_memset: "off + n \<le> length bs \<Longrightarrow> length (memset bs off v n) = length bs"
  by (simp add: memset_def)

lemma bytes_bits_simps [bits_simps]:
  "bytes_bits [] = []" "bytes_bits (b # bs) = wbits b @ bytes_bits bs"
  "bytes_bits (xs @ ys) = bytes_bits xs @ bytes_bits ys"
  by (simp_all add: bytes_bits_def)

lemma length_bytes_bits [bits_simps, simp]: "length (bytes_bits bs) = 8 * length bs"
  by (induction bs) (simp_all add: bytes_bits_simps)

lemma bytes_bits_inject: "length xs = length ys \<Longrightarrow> bytes_bits xs = bytes_bits ys \<longleftrightarrow> xs = ys"
  by (induction xs ys rule: list_induct2) (simp_all add: bytes_bits_simps)

lemma bytes_bits_replicate: "wbits v = replicate 8 b \<Longrightarrow> bytes_bits (replicate n v) = replicate (8 * n) b"
  by (induction n) (simp_all add: bytes_bits_simps replicate_add [symmetric])

lemma bytes_bits_split:
  "k < length bs \<Longrightarrow>
     bytes_bits bs = bytes_bits (take k bs) @ wbits (bs ! k) @ bytes_bits (drop (Suc k) bs)"
  by (subst id_take_nth_drop [of k bs]) (simp_all add: bytes_bits_simps)

lemma take_bytes_bits:
  assumes "p < 8 * length bs"
  shows "take p (bytes_bits bs) = bytes_bits (take (p div 8) bs) @ take (p mod 8) (wbits (bs ! (p div 8)))"
proof -
  have k: "p div 8 < length bs" using assms by auto
  have "p - 8 * (p div 8) = p mod 8" by (simp add: minus_mult_div_eq_mod)
  then show ?thesis
    using k by (subst bytes_bits_split [OF k]) (simp add: min_absorb2)
qed

lemma bytes_bits_update:
  assumes "p < 8 * length bs" and "wbits b' = (wbits (bs ! (p div 8)))[p mod 8 := v]"
  shows "bytes_bits (bs[p div 8 := b']) = (bytes_bits bs)[p := v]"
proof -
  have k: "p div 8 < length bs" using assms by auto
  have "bytes_bits (bs[p div 8 := b']) =
      bytes_bits (take (p div 8) bs) @ wbits b' @ bytes_bits (drop (Suc (p div 8)) bs)"
    using k by (simp add: upd_conv_take_nth_drop bytes_bits_simps)
  also have "\<dots> = (bytes_bits bs)[p := v]"
    using k assms(2) minus_mult_div_eq_mod [of p 8]
    by (subst bytes_bits_split [OF k])
       (auto simp: list_update_append min_absorb2 less_mult_imp_div_less)
  finally show ?thesis .
qed

subsection \<open>Transition systems\<close>

inductive reachable :: "('s \<Rightarrow> bool) \<Rightarrow> ('s \<Rightarrow> 's \<Rightarrow> bool) \<Rightarrow> 's \<Rightarrow> bool"
  for init :: "'s \<Rightarrow> bool" and step :: "'s \<Rightarrow> 's \<Rightarrow> bool" where
  reach_init: "init s \<Longrightarrow> reachable init step s"
| reach_step: "reachable init step s \<Longrightarrow> step s t \<Longrightarrow> reachable init step t"

text \<open>
  The contract of a component with state: an invariant that the initial states have and that
  every step keeps.  What a client gets from it is the invariant in every reachable state and
  along every run.
\<close>

locale invariant_system =
  fixes init :: "'s \<Rightarrow> bool" and step :: "'s \<Rightarrow> 's \<Rightarrow> bool" and inv :: "'s \<Rightarrow> bool"
  assumes inv_init: "init s \<Longrightarrow> inv s"
    and inv_step: "inv s \<Longrightarrow> step s t \<Longrightarrow> inv t"
begin

lemma reachable_inv: "reachable init step s \<Longrightarrow> inv s"
  by (induction rule: reachable.induct) (auto intro: inv_init inv_step)

end

end
