(* ===== verification/Server_Model.thy ===== *)
theory Server_Model
  imports WG_Prelude
begin

text \<open>
  The server list: \<^verbatim>\<open>src/src/utils/models/server.cpp\<close>, \<^verbatim>\<open>servercity.cpp\<close>,
  \<^verbatim>\<open>servercountry.cpp\<close> and \<^verbatim>\<open>servercountrymodel.cpp\<close>.  A random draw
  (\<open>QRandomGenerator\<close>), the collation order (\<open>Collator\<close> on translated names) and the JSON
  text parser (\<open>QJsonDocument::fromJson\<close>) are arguments.  The 32-bit arithmetic of the two
  random choices is kept at its width.
\<close>

subsection \<open>Servers\<close>

record Server =
  m_hostname :: qstr
  m_ipv4AddrIn :: qstr
  m_ipv4Gateway :: qstr
  m_ipv6AddrIn :: qstr
  m_ipv6Gateway :: qstr
  m_portRanges :: "(32 word \<times> 32 word) list"
  m_publicKey :: qstr
  m_socksName :: qstr
  m_weight :: "32 word"
  m_multihopPort :: "32 word"
  m_countryCode :: qstr
  m_cityName :: qstr

definition emptyServer :: Server where
  "emptyServer = \<lparr>m_hostname = None, m_ipv4AddrIn = None, m_ipv4Gateway = None, m_ipv6AddrIn = None,
     m_ipv6Gateway = None, m_portRanges = [], m_publicKey = None, m_socksName = None, m_weight = 0,
     m_multihopPort = 0, m_countryCode = None, m_cityName = None\<rparr>"

definition server_at :: "qstr \<Rightarrow> qstr \<Rightarrow> Server" where
  "server_at countryCode cityName = emptyServer\<lparr>m_countryCode := countryCode, m_cityName := cityName\<rparr>"

definition server_initialized :: "Server \<Rightarrow> bool" where
  "server_initialized s \<longleftrightarrow> \<not> qIsEmpty (m_hostname s)"

fun portRanges_fromJson :: "json list \<Rightarrow> (32 word \<times> 32 word) list option" where
  "portRanges_fromJson [] = Some []"
| "portRanges_fromJson (portRangeValue # rest) =
     (if \<not> jIsArray (Some portRangeValue) then None
      else case jToArray (Some portRangeValue) of
        [a, b] \<Rightarrow>
          (if \<not> jIsDouble (Some a) then None
           else if \<not> jIsDouble (Some b) then None
           else map_option (\<lambda>prs. (word_of_int (jToInt (Some a)), word_of_int (jToInt (Some b))) # prs)
                  (portRanges_fromJson rest))
      | _ \<Rightarrow> None)"

text \<open>The result and the object after the call: the host name is reset first, also on failure.\<close>

definition server_fromJson :: "json_object \<Rightarrow> Server \<Rightarrow> bool \<times> Server" where
  "server_fromJson obj s0 =
     (let s = s0\<lparr>m_hostname := Some []\<rparr> in
      if \<not> jIsString (jValue obj ''hostname'') then (False, s)
      else if \<not> jIsString (jValue obj ''ipv4_addr_in'') then (False, s)
      else if \<not> jIsString (jValue obj ''ipv4_gateway'') then (False, s)
      else if \<not> jIsString (jValue obj ''public_key'') then (False, s)
      else if \<not> jIsDouble (jValue obj ''weight'') then (False, s)
      else if \<not> jIsArray (jValue obj ''port_ranges'') then (False, s)
      else case portRanges_fromJson (jToArray (jValue obj ''port_ranges'')) of
        None \<Rightarrow> (False, s)
      | Some prList \<Rightarrow>
          (True, s\<lparr>m_hostname := jToString (jValue obj ''hostname''),
                   m_ipv4AddrIn := jToString (jValue obj ''ipv4_addr_in''),
                   m_ipv4Gateway := jToString (jValue obj ''ipv4_gateway''),
                   m_ipv6AddrIn := jToString (jValue obj ''ipv6_addr_in''),
                   m_ipv6Gateway := jToString (jValue obj ''ipv6_gateway''),
                   m_portRanges := prList,
                   m_publicKey := jToString (jValue obj ''public_key''),
                   m_weight := word_of_int (jToInt (jValue obj ''weight'')),
                   m_socksName := jToString (jValue obj ''socks5_name''),
                   m_multihopPort := word_of_int (jToInt (jValue obj ''multihop_port''))\<rparr>))"

definition forcePort :: "32 word \<Rightarrow> Server \<Rightarrow> Server" where
  "forcePort port s = s\<lparr>m_portRanges := [(port, port)]\<rparr>"

definition fromMultihop :: "Server \<Rightarrow> Server \<Rightarrow> Server \<Rightarrow> Server" where
  "fromMultihop exit entry s =
     forcePort (m_multihopPort exit)
       (s\<lparr>m_hostname := m_hostname exit, m_ipv4Gateway := m_ipv4Gateway exit,
          m_ipv6Gateway := m_ipv6Gateway exit, m_publicKey := m_publicKey exit,
          m_socksName := m_socksName exit, m_multihopPort := m_multihopPort exit,
          m_ipv4AddrIn := m_ipv4AddrIn entry, m_ipv6AddrIn := m_ipv6AddrIn entry\<rparr>)"

subsection \<open>The two random choices\<close>

fun weight_loop :: "32 word \<Rightarrow> Server list \<Rightarrow> Server option" where
  "weight_loop r [] = None"
| "weight_loop r (server # rest) =
     (if m_weight server \<ge> r then Some server else weight_loop (r - m_weight server) rest)"

definition weightSum :: "Server list \<Rightarrow> 32 word" where
  "weightSum servers = fold (\<lambda>server w. w + m_weight server) servers 0"

definition weightChooser :: "32 word \<Rightarrow> Server list \<Rightarrow> fault + Server" where
  "weightChooser generated servers =
     (if servers = [] then Inr emptyServer
      else if weightSum servers + 1 = 0 then Inl Division_by_zero
      else case weight_loop (generated mod (weightSum servers + 1)) servers of
             None \<Rightarrow> Inl Assertion_failed
           | Some server \<Rightarrow> Inr server)"

fun port_loop :: "32 word \<Rightarrow> (32 word \<times> 32 word) list \<Rightarrow> 32 word" where
  "port_loop r [] = 0"
| "port_loop r ((first, second) # rest) =
     (if r \<le> second - first then r + first else port_loop (r - (second - first + 1)) rest)"

fun port_count :: "(32 word \<times> 32 word) list \<Rightarrow> 32 word \<Rightarrow> fault + 32 word" where
  "port_count [] n = Inr n"
| "port_count ((first, second) # rest) n =
     (if \<not> first \<le> second then Inl Assertion_failed else port_count rest (n + (second - first + 1)))"

definition choosePort :: "32 word \<Rightarrow> Server \<Rightarrow> fault + 32 word" where
  "choosePort generated s =
     (if m_portRanges s = [] then Inr 0
      else case port_count (m_portRanges s) 0 of
        Inl f \<Rightarrow> Inl f
      | Inr n \<Rightarrow>
          if \<not> n < 65536 then Inl Assertion_failed
          else if \<not> n > 0 then Inl Assertion_failed
          else let port = port_loop (generated mod n) (m_portRanges s) in
               if port = 0 then Inl Assertion_failed else Inr port)"

subsection \<open>Cities and countries\<close>

record ServerCity =
  city_name :: string
  city_code :: string
  city_country :: string
  city_hashKey :: string
  city_latitude :: rat
  city_longitude :: rat
  city_servers :: "string list"
  city_latency :: int
  city_connectionScore :: int

definition emptyCity :: ServerCity where
  "emptyCity = \<lparr>city_name = [], city_code = [], city_country = [], city_hashKey = [], city_latitude = 0,
     city_longitude = 0, city_servers = [], city_latency = 0, city_connectionScore = 0\<rparr>"

text \<open>The assignment operator: hash key, latency and score keep their old values.\<close>

definition city_assign :: "ServerCity \<Rightarrow> ServerCity \<Rightarrow> ServerCity" where
  "city_assign target other = target\<lparr>city_name := city_name other, city_code := city_code other,
     city_country := city_country other, city_latitude := city_latitude other,
     city_longitude := city_longitude other, city_servers := city_servers other\<rparr>"

definition hashKey :: "string \<Rightarrow> string \<Rightarrow> string" where
  "hashKey country cityName = cityName @ '','' @ country"

definition jDouble :: "json option \<Rightarrow> rat" where
  "jDouble v = (case v of Some (JDouble r) \<Rightarrow> r | _ \<Rightarrow> 0)"

fun server_keys :: "json list \<Rightarrow> string list option" where
  "server_keys [] = Some []"
| "server_keys (serverValue # rest) =
     (if \<not> jIsObject (Some serverValue) then None
      else let pubkeyValue = jValue (jToObject (Some serverValue)) ''public_key'' in
           if \<not> jIsString pubkeyValue then None
           else map_option (\<lambda>ks. qtext (jToString pubkeyValue) # ks) (server_keys rest))"

definition city_fromJson :: "json_object \<Rightarrow> string \<Rightarrow> ServerCity option" where
  "city_fromJson obj country =
     (if \<not> jIsString (jValue obj ''name'') then None
      else if \<not> jIsString (jValue obj ''code'') then None
      else if \<not> jIsDouble (jValue obj ''latitude'') then None
      else if \<not> jIsDouble (jValue obj ''longitude'') then None
      else if \<not> jIsArray (jValue obj ''servers'') then None
      else map_option (\<lambda>servers. let name = qtext (jToString (jValue obj ''name'')) in
             emptyCity\<lparr>city_name := name, city_code := qtext (jToString (jValue obj ''code'')),
               city_country := country, city_hashKey := hashKey country name,
               city_latitude := jDouble (jValue obj ''latitude''),
               city_longitude := jDouble (jValue obj ''longitude''), city_servers := servers\<rparr>)
           (server_keys (jToArray (jValue obj ''servers''))))"

record ServerCountry =
  country_name :: string
  country_code :: string
  country_cities :: "string list"

text \<open>
  \<open>std::sort\<close> with the collation order on translated names; the order of equal names, which
  \<open>std::sort\<close> leaves open, is the one of insertion.
\<close>

fun insert_by :: "('a \<Rightarrow> 'a \<Rightarrow> bool) \<Rightarrow> 'a \<Rightarrow> 'a list \<Rightarrow> 'a list" where
  "insert_by lt x [] = [x]"
| "insert_by lt x (y # ys) = (if lt y x then y # insert_by lt x ys else x # y # ys)"

definition sort_by :: "('a \<Rightarrow> 'a \<Rightarrow> bool) \<Rightarrow> 'a list \<Rightarrow> 'a list" where
  "sort_by lt xs = foldr (insert_by lt) xs []"

record collation =
  cityLess :: "string \<Rightarrow> string \<Rightarrow> bool"
  countryLess :: "string \<times> string \<Rightarrow> string \<times> string \<Rightarrow> bool"

definition sortCities :: "collation \<Rightarrow> ServerCountry \<Rightarrow> ServerCountry" where
  "sortCities K c = c\<lparr>country_cities := sort_by (cityLess K) (country_cities c)\<rparr>"

fun city_names :: "json list \<Rightarrow> string list option" where
  "city_names [] = Some []"
| "city_names (cityValue # rest) =
     (if \<not> jIsObject (Some cityValue) then None
      else let cityName = jToString (jValue (jToObject (Some cityValue)) ''name'') in
           if qIsEmpty cityName then None
           else map_option (\<lambda>ns. qtext cityName # ns) (city_names rest))"

definition country_fromJson :: "collation \<Rightarrow> json_object \<Rightarrow> ServerCountry option" where
  "country_fromJson K countryObj =
     (if \<not> jIsString (jValue countryObj ''name'') then None
      else if \<not> jIsString (jValue countryObj ''code'') then None
      else if \<not> jIsArray (jValue countryObj ''cities'') then None
      else map_option (\<lambda>cityNames. sortCities K
             \<lparr>country_name = qtext (jToString (jValue countryObj ''name'')),
              country_code = qtext (jToString (jValue countryObj ''code'')),
              country_cities = cityNames\<rparr>)
           (city_names (jToArray (jValue countryObj ''cities''))))"

subsection \<open>The model of all servers\<close>

datatype model_signal = BeginResetModel | EndResetModel | ModelChanged

record ServerCountryModel =
  m_rawJson :: string
  m_countries :: "ServerCountry list"
  m_cities :: "string \<rightharpoonup> ServerCity"
  m_servers :: "string \<rightharpoonup> Server"
  m_signals :: "model_signal list"

definition model_emit :: "model_signal \<Rightarrow> ServerCountryModel \<Rightarrow> ServerCountryModel" where
  "model_emit sig m = m\<lparr>m_signals := m_signals m @ [sig]\<rparr>"

fun add_servers :: "string \<Rightarrow> string \<Rightarrow> json list \<Rightarrow> ServerCountryModel \<Rightarrow> bool \<times> ServerCountryModel" where
  "add_servers code name [] m = (True, m)"
| "add_servers code name (serverValue # rest) m =
     (case server_fromJson (jToObject (Some serverValue)) (server_at (Some code) (Some name)) of
        (False, _) \<Rightarrow> (False, m)
      | (True, server) \<Rightarrow>
          add_servers code name rest (m\<lparr>m_servers := (m_servers m)(qtext (m_publicKey server) \<mapsto> server)\<rparr>))"

definition store_city :: "ServerCity \<Rightarrow> ServerCountryModel \<Rightarrow> ServerCountryModel" where
  "store_city city m =
     (let old = (case m_cities m (city_hashKey city) of None \<Rightarrow> emptyCity | Some c \<Rightarrow> c)
      in m\<lparr>m_cities := (m_cities m)(city_hashKey city \<mapsto> city_assign old city)\<rparr>)"

fun add_cities :: "string \<Rightarrow> json list \<Rightarrow> ServerCountryModel \<Rightarrow> bool \<times> ServerCountryModel" where
  "add_cities code [] m = (True, m)"
| "add_cities code (cityValue # rest) m =
     (if \<not> jIsObject (Some cityValue) then (False, m)
      else let cityObj = jToObject (Some cityValue); servers = jValue cityObj ''servers'' in
        if \<not> jIsArray servers then (False, m)
        else case city_fromJson cityObj code of
          None \<Rightarrow> (False, m)
        | Some city \<Rightarrow>
            (case add_servers code (city_name city) (jToArray servers)
                    (store_city city m) of
               (False, m') \<Rightarrow> (False, m')
             | (True, m') \<Rightarrow> add_cities code rest m'))"

fun add_countries :: "collation \<Rightarrow> json list \<Rightarrow> ServerCountryModel \<Rightarrow> bool \<times> ServerCountryModel" where
  "add_countries K [] m = (True, m)"
| "add_countries K (countryValue # rest) m =
     (if \<not> jIsObject (Some countryValue) then (False, m)
      else let countryObj = jToObject (Some countryValue) in
        case country_fromJson K countryObj of
          None \<Rightarrow> (False, m)
        | Some country \<Rightarrow>
            if country_cities country = [] then add_countries K rest m
            else let m = m\<lparr>m_countries := m_countries m @ [country]\<rparr>; cities = jValue countryObj ''cities'' in
              if \<not> jIsArray cities then (False, m)
              else case add_cities (country_code country) (jToArray cities) m of
                (False, m') \<Rightarrow> (False, m')
              | (True, m') \<Rightarrow> add_countries K rest m')"

definition sortCountries :: "collation \<Rightarrow> ServerCountryModel \<Rightarrow> ServerCountryModel" where
  "sortCountries K m = m\<lparr>m_countries := map (sortCities K)
     (sort_by (\<lambda>a b. countryLess K (country_code a, country_name a) (country_code b, country_name b))
        (m_countries m))\<rparr>"

definition fromJsonInternal ::
    "(string \<Rightarrow> json option) \<Rightarrow> collation \<Rightarrow> string \<Rightarrow> ServerCountryModel \<Rightarrow> bool \<times> ServerCountryModel" where
  "fromJsonInternal parseJson K s m =
     (let m = (model_emit BeginResetModel m)
            \<lparr>m_rawJson := [], m_countries := [], m_cities := Map.empty, m_servers := Map.empty\<rparr>;
          doc = parseJson s in
      if \<not> jIsObject doc then (False, m)
      else let countries = jValue (jToObject doc) ''countries'' in
        if \<not> jIsArray countries then (False, m)
        else case add_countries K (jToArray countries) m of
          (False, m') \<Rightarrow> (False, m')
        | (True, m') \<Rightarrow> (True, model_emit EndResetModel (sortCountries K m')))"

definition model_fromJson ::
    "(string \<Rightarrow> json option) \<Rightarrow> collation \<Rightarrow> string \<Rightarrow> ServerCountryModel \<Rightarrow> bool \<times> ServerCountryModel" where
  "model_fromJson parseJson K json m =
     (if json \<noteq> [] \<and> m_rawJson m = json then (True, m)
      else case fromJsonInternal parseJson K json m of
        (False, m') \<Rightarrow> (False, m')
      | (True, m') \<Rightarrow> (True, model_emit ModelChanged (m'\<lparr>m_rawJson := json\<rparr>)))"

definition model_exists :: "ServerCountryModel \<Rightarrow> string \<Rightarrow> string \<Rightarrow> bool" where
  "model_exists m countryCode cityName \<longleftrightarrow> m_cities m (hashKey countryCode cityName) \<noteq> None"

definition findCity :: "ServerCountryModel \<Rightarrow> string \<Rightarrow> string \<Rightarrow> ServerCity" where
  "findCity m countryCode cityName =
     (case m_cities m (hashKey countryCode cityName) of None \<Rightarrow> emptyCity | Some c \<Rightarrow> c)"

definition model_server :: "ServerCountryModel \<Rightarrow> string \<Rightarrow> Server" where
  "model_server m pubkey = (case m_servers m pubkey of None \<Rightarrow> emptyServer | Some s \<Rightarrow> s)"

fun country_name_loop :: "ServerCountry list \<Rightarrow> string \<Rightarrow> string" where
  "country_name_loop [] code = []"
| "country_name_loop (c # cs) code = (if country_code c = code then country_name c else country_name_loop cs code)"

definition countryName :: "ServerCountryModel \<Rightarrow> string \<Rightarrow> string" where
  "countryName m countryCode = country_name_loop (m_countries m) countryCode"

definition model_retranslate :: "collation \<Rightarrow> ServerCountryModel \<Rightarrow> ServerCountryModel" where
  "model_retranslate K m = model_emit EndResetModel (sortCountries K (model_emit BeginResetModel m))"


subsection \<open>Choosing a server\<close>

definition nweights :: "Server list \<Rightarrow> nat" where
  "nweights servers = sum_list (map (\<lambda>s. unat (m_weight s)) servers)"

lemma nweights_simps [simp]: "nweights [] = 0" "nweights (s # ss) = unat (m_weight s) + nweights ss"
  by (simp_all add: nweights_def)

lemma weightSum_fold: "fold (\<lambda>s w. w + m_weight s) servers w = w + of_nat (nweights servers)"
  by (induction servers arbitrary: w) (simp_all add: algebra_simps)

lemma weightSum_unat: "nweights servers < 2^32 \<Longrightarrow> unat (weightSum servers) = nweights servers"
  by (simp add: weightSum_def weightSum_fold unat_of_nat)

text \<open>The loop answers the first server whose cumulated weight reaches the draw.\<close>

lemma weight_loop_prefix:
  "unat r \<le> nweights servers \<Longrightarrow> servers \<noteq> [] \<Longrightarrow>
     \<exists>k<length servers. weight_loop r servers = Some (servers ! k) \<and>
       unat r \<le> nweights (take (Suc k) servers) \<and> (\<forall>j<k. nweights (take (Suc j) servers) < unat r)"
proof (induction servers arbitrary: r)
  case Nil
  then show ?case by simp
next
  case (Cons s ss)
  show ?case
  proof (cases "m_weight s \<ge> r")
    case True
    then show ?thesis by (intro exI [of _ 0]) (simp add: word_le_nat_alt)
  next
    case False
    then have lt: "unat (m_weight s) < unat r" by (simp add: word_le_nat_alt)
    then have sub: "unat (r - m_weight s) = unat r - unat (m_weight s)"
      by (simp add: unat_sub word_le_nat_alt)
    then have le: "unat (r - m_weight s) \<le> nweights ss" and ne: "ss \<noteq> []"
      using Cons.prems lt by auto
    obtain k where k: "k < length ss" "weight_loop (r - m_weight s) ss = Some (ss ! k)"
        "unat (r - m_weight s) \<le> nweights (take (Suc k) ss)"
        "\<forall>j<k. nweights (take (Suc j) ss) < unat (r - m_weight s)"
      using Cons.IH [OF le ne] by blast
    have "nweights (take (Suc j) (s # ss)) < unat r" if "j < Suc k" for j
      using that k(4) lt sub by (cases j) auto
    then show ?thesis
      using False k sub lt by (intro exI [of _ "Suc k"]) auto
  qed
qed

subsection \<open>Choosing a port\<close>

definition range_ok :: "32 word \<times> 32 word \<Rightarrow> bool" where
  "range_ok r \<longleftrightarrow> 1 \<le> fst r \<and> fst r \<le> snd r"

definition nports :: "(32 word \<times> 32 word) list \<Rightarrow> nat" where
  "nports rs = sum_list (map (\<lambda>(a, b). unat b - unat a + 1) rs)"

lemma nports_simps [simp]: "nports [] = 0" "nports ((a, b) # rs) = unat b - unat a + 1 + nports rs"
  by (simp_all add: nports_def)

lemma range_width:
  assumes "a \<le> b" "unat b - unat a + 1 < 2^32"
  shows "unat (b - a) = unat b - unat a" "unat (b - a + 1 :: 32 word) = unat b - unat a + 1"
proof -
  show d: "unat (b - a) = unat b - unat a" using assms(1) by (simp add: unat_sub)
  show "unat (b - a + 1 :: 32 word) = unat b - unat a + 1"
    using assms(2) d by (simp add: unat_word_ariths)
qed

lemma port_count_ok:
  "\<forall>r\<in>set rs. range_ok r \<Longrightarrow> port_count rs n = Inr (n + of_nat (nports rs))"
proof (induction rs arbitrary: n)
  case (Cons r rs)
  obtain a b where r: "r = (a, b)" by fastforce
  then have "a \<le> b" using Cons.prems by (simp add: range_ok_def)
  then have "of_nat (unat b - unat a + 1) = b - a + (1 :: 32 word)"
    by (simp add: word_le_nat_alt of_nat_diff)
  with \<open>a \<le> b\<close> Cons r show ?case by (simp add: algebra_simps)
qed simp

lemma port_loop_ok:
  "\<forall>r\<in>set rs. range_ok r \<Longrightarrow> nports rs < 2^32 \<Longrightarrow> unat r < nports rs \<Longrightarrow>
     \<exists>(a, b)\<in>set rs. a \<le> port_loop r rs \<and> port_loop r rs \<le> b"
proof (induction rs arbitrary: r)
  case (Cons q rs)
  obtain a b where q: "q = (a, b)" by fastforce
  then have ab: "a \<le> b" using Cons.prems by (simp add: range_ok_def)
  have w: "unat (b - a) = unat b - unat a" "unat (b - a + 1) = unat b - unat a + 1"
    using range_width [OF ab] Cons.prems(2) q by auto
  show ?case
  proof (cases "r \<le> b - a")
    case True
    have "unat r + unat a \<le> unat b"
      using True w(1) ab by (simp add: word_le_nat_alt)
    then have "unat (r + a) = unat r + unat a"
      using unsigned_less [of b, where 'a = nat] by (simp add: unat_word_ariths)
    then have "a \<le> r + a" "r + a \<le> b"
      using \<open>unat r + unat a \<le> unat b\<close> by (simp_all add: word_le_nat_alt)
    with True q show ?thesis by auto
  next
    case False
    then have "unat b - unat a < unat r" using w(1) by (simp add: word_le_nat_alt)
    then have "unat (r - (b - a + 1)) = unat r - (unat b - unat a + 1)"
      using w(2) by (simp add: unat_sub word_le_nat_alt)
    then have "unat (r - (b - a + 1)) < nports rs"
      using Cons.prems(3) q \<open>unat b - unat a < unat r\<close> by simp
    with False q Cons.IH [of "r - (b - a + 1)"] Cons.prems \<open>unat (r - (b - a + 1)) < nports rs\<close>
    show ?thesis by auto
  qed
qed simp

lemma weightChooser_prefix:
  assumes "servers \<noteq> []" and "nweights servers < 2^32 - 1"
  shows "\<exists>k<length servers. weightChooser generated servers = Inr (servers ! k) \<and>
    unat generated mod (nweights servers + 1) \<le> nweights (take (Suc k) servers) \<and>
    (\<forall>j<k. nweights (take (Suc j) servers) < unat generated mod (nweights servers + 1))"
proof -
  have sum: "unat (weightSum servers) = nweights servers"
    using assms(2) by (intro weightSum_unat) simp
  then have plus: "unat (weightSum servers + 1) = nweights servers + 1"
    using assms(2) by (simp add: unat_word_ariths)
  then have nz: "weightSum servers + 1 \<noteq> 0" by auto
  let ?r = "generated mod (weightSum servers + 1)"
  have r: "unat ?r = unat generated mod (nweights servers + 1)"
    by (simp add: unat_mod plus)
  then have "unat ?r \<le> nweights servers"
    using mod_less_divisor [of "nweights servers + 1" "unat generated"] by linarith
  from weight_loop_prefix [OF this assms(1)] show ?thesis
    using assms(1) nz unfolding r by (auto simp: weightChooser_def)
qed

lemma choosePort_range:
  assumes "m_portRanges s \<noteq> []" and "\<forall>r\<in>set (m_portRanges s). range_ok r" and "nports (m_portRanges s) < 65536"
  shows "\<exists>port a b. choosePort generated s = Inr port \<and> (a, b) \<in> set (m_portRanges s) \<and> a \<le> port \<and> port \<le> b"
proof -
  let ?rs = "m_portRanges s" and ?n = "of_nat (nports (m_portRanges s)) :: 32 word"
  have count: "port_count ?rs 0 = Inr ?n" using port_count_ok [OF assms(2), of 0] by simp
  have n: "unat ?n = nports ?rs" using assms(3) by (simp add: unat_of_nat)
  have pos: "0 < nports ?rs" using assms(1) by (cases ?rs) auto
  have "unat (generated mod ?n) < nports ?rs" using pos by (simp add: unat_mod n)
  then obtain a b where ab: "(a, b) \<in> set ?rs" "a \<le> port_loop (generated mod ?n) ?rs" "port_loop (generated mod ?n) ?rs \<le> b"
    using port_loop_ok [OF assms(2)] assms(3) by fastforce
  have "1 \<le> a" using assms(2) ab(1) by (auto simp: range_ok_def)
  then have "port_loop (generated mod ?n) ?rs \<noteq> 0" using ab(2) by (auto simp: word_le_nat_alt)
  moreover have "?n < 65536" "?n > 0" using assms(3) pos by (simp_all add: word_less_nat_alt n)
  ultimately show ?thesis
    using assms(1) count ab by (auto simp: choosePort_def Let_def)
qed

lemma weightChooser_some:
  "servers \<noteq> [] \<Longrightarrow> nweights servers < 2^32 - 1 \<Longrightarrow> \<exists>s\<in>set servers. weightChooser g servers = Inr s"
  using weightChooser_prefix [of servers g] by (auto simp: in_set_conv_nth)

lemma choosePort_some:
  "m_portRanges s \<noteq> [] \<Longrightarrow> \<forall>r\<in>set (m_portRanges s). range_ok r \<Longrightarrow> nports (m_portRanges s) < 65536 \<Longrightarrow>
     \<exists>p. choosePort g s = Inr p"
  using choosePort_range [of s g] by blast

subsection \<open>The index built from the server list\<close>

definition keys_ok :: "ServerCountryModel \<Rightarrow> bool" where
  "keys_ok m \<longleftrightarrow> (\<forall>pk s. m_servers m pk = Some s \<longrightarrow> qtext (m_publicKey s) = pk)"

definition cities_ok :: "ServerCountryModel \<Rightarrow> bool" where
  "cities_ok m \<longleftrightarrow> (\<forall>h c. m_cities m h = Some c \<longrightarrow>
     h = hashKey (city_country c) (city_name c) \<and> set (city_servers c) \<subseteq> dom (m_servers m))"

definition countries_ok :: "ServerCountryModel \<Rightarrow> bool" where
  "countries_ok m \<longleftrightarrow> (\<forall>co\<in>set (m_countries m). country_cities co \<noteq> [] \<and>
     (\<forall>n\<in>set (country_cities co). hashKey (country_code co) n \<in> dom (m_cities m)))"

lemma server_fromJson_key:
  "server_fromJson obj s0 = (True, s) \<Longrightarrow> m_publicKey s = jToString (jValue obj ''public_key'')"
  by (auto simp: server_fromJson_def Let_def split: if_splits option.splits)

lemma add_servers_ok:
  "add_servers code name js m = (True, m') \<Longrightarrow> keys_ok m \<Longrightarrow>
     keys_ok m' \<and> dom (m_servers m) \<subseteq> dom (m_servers m') \<and> m_cities m' = m_cities m \<and>
     m_countries m' = m_countries m \<and>
     (\<forall>ks. server_keys js = Some ks \<longrightarrow> set ks \<subseteq> dom (m_servers m'))"
proof (induction code name js m rule: add_servers.induct)
  case (2 code name v rest m)
  obtain s where s: "server_fromJson (jToObject (Some v)) (server_at (Some code) (Some name)) = (True, s)"
    using 2(2) by (auto split: prod.splits bool.splits)
  let ?m = "m\<lparr>m_servers := (m_servers m)(qtext (m_publicKey s) \<mapsto> s)\<rparr>"
  have rec: "add_servers code name rest ?m = (True, m')" using 2(2) s by simp
  have "keys_ok ?m" using 2(3) by (auto simp: keys_ok_def)
  from 2(1) [OF s [symmetric] refl rec this]
  have ih: "keys_ok m'" "insert (qtext (m_publicKey s)) (dom (m_servers m)) \<subseteq> dom (m_servers m')"
      "m_cities m' = m_cities m" "m_countries m' = m_countries m"
      "\<forall>ks. server_keys rest = Some ks \<longrightarrow> set ks \<subseteq> dom (m_servers m')"
    by (auto simp: subset_iff domIff)
  have "set ks \<subseteq> dom (m_servers m')" if "server_keys (v # rest) = Some ks" for ks
    using that ih(2,5) server_fromJson_key [OF s] by (auto simp: Let_def split: if_splits)
  with ih show ?case by simp
qed simp

lemma city_fromJson_fields:
  "city_fromJson obj code = Some c \<Longrightarrow>
     city_country c = code \<and> city_hashKey c = hashKey code (city_name c) \<and>
     city_name c = qtext (jToString (jValue obj ''name'')) \<and>
     server_keys (jToArray (jValue obj ''servers'')) = Some (city_servers c)"
  by (auto simp: city_fromJson_def Let_def split: if_splits)

lemma store_city_frame [simp]:
  "m_servers (store_city c m) = m_servers m" "m_countries (store_city c m) = m_countries m"
  "keys_ok (store_city c m) = keys_ok m"
  by (simp_all add: store_city_def Let_def keys_ok_def)

lemma store_city_lookup:
  "\<exists>old. m_cities (store_city c m) = (m_cities m)(city_hashKey c \<mapsto> city_assign old c)"
  by (auto simp: store_city_def Let_def)

lemma add_cities_ok:
  "add_cities code js m = (True, m') \<Longrightarrow> keys_ok m \<Longrightarrow> cities_ok m \<Longrightarrow>
     keys_ok m' \<and> cities_ok m' \<and> dom (m_cities m) \<subseteq> dom (m_cities m') \<and> m_countries m' = m_countries m \<and>
     (\<forall>ns. city_names js = Some ns \<longrightarrow> (\<forall>n\<in>set ns. hashKey code n \<in> dom (m_cities m')))"
proof (induction code js m rule: add_cities.induct)
  case (2 code v rest m)
  let ?obj = "jToObject (Some v)"
  obtain c m1 where c: "city_fromJson ?obj code = Some c"
      and s: "add_servers code (city_name c) (jToArray (jValue ?obj ''servers'')) (store_city c m) = (True, m1)"
      and rec: "add_cities code rest m1 = (True, m')" and ob: "jIsObject (Some v)" "jIsArray (jValue ?obj ''servers'')"
    using 2(2) by (auto simp: Let_def split: if_splits option.splits prod.splits bool.splits)
  note cf = city_fromJson_fields [OF c]
  have m1: "keys_ok m1" "dom (m_servers m) \<subseteq> dom (m_servers m1)" "m_cities m1 = m_cities (store_city c m)"
      "m_countries m1 = m_countries m" "set (city_servers c) \<subseteq> dom (m_servers m1)"
    using add_servers_ok [OF s] cf 2(3) by auto
  obtain old where old: "m_cities m1 = (m_cities m)(city_hashKey c \<mapsto> city_assign old c)"
    using store_city_lookup [of c m] m1(3) by auto
  have "cities_ok m1"
    using 2(4) m1(2,5) cf unfolding cities_ok_def old
    by (auto simp: city_assign_def split: if_splits) blast+
  from 2(1) [OF _ refl refl _ c s [symmetric] refl rec m1(1) this] ob
  have ih: "keys_ok m'" "cities_ok m'" "dom (m_cities m1) \<subseteq> dom (m_cities m')" "m_countries m' = m_countries m"
      "\<forall>ns. city_names rest = Some ns \<longrightarrow> (\<forall>n\<in>set ns. hashKey code n \<in> dom (m_cities m'))"
    using m1(4) by auto
  then show ?case using old cf by (auto simp: Let_def split: if_splits)
qed simp

lemma sort_by_set [simp]: "set (sort_by lt xs) = set xs"
proof -
  have "set (insert_by lt x ys) = insert x (set ys)" for x ys
    by (induction ys) auto
  then show ?thesis unfolding sort_by_def by (induction xs) auto
qed

lemma sort_by_Nil [simp]: "sort_by lt xs = [] \<longleftrightarrow> xs = []"
  using sort_by_set [of lt xs] by (metis set_empty)

lemma country_fromJson_fields:
  "country_fromJson K obj = Some co \<Longrightarrow>
     \<exists>ns. city_names (jToArray (jValue obj ''cities'')) = Some ns \<and> set (country_cities co) = set ns \<and>
       jIsArray (jValue obj ''cities'')"
  by (auto simp: country_fromJson_def sortCities_def split: if_splits)

lemma countries_ok_mono:
  "countries_ok m \<Longrightarrow> m_countries m' = m_countries m \<Longrightarrow> dom (m_cities m) \<subseteq> dom (m_cities m') \<Longrightarrow> countries_ok m'"
  unfolding countries_ok_def by (metis subsetD)

lemma add_countries_ok:
  "add_countries K js m = (True, m') \<Longrightarrow> keys_ok m \<Longrightarrow> cities_ok m \<Longrightarrow> countries_ok m \<Longrightarrow>
     keys_ok m' \<and> cities_ok m' \<and> countries_ok m'"
proof (induction K js m rule: add_countries.induct)
  case (2 K v rest m)
  let ?obj = "jToObject (Some v)"
  obtain co where ob: "jIsObject (Some v)" and co: "country_fromJson K ?obj = Some co"
    using 2(3) by (auto simp: Let_def split: if_splits option.splits)
  obtain ns where ns: "city_names (jToArray (jValue ?obj ''cities'')) = Some ns" "set (country_cities co) = set ns"
      "jIsArray (jValue ?obj ''cities'')"
    using country_fromJson_fields [OF co] by blast
  show ?case
  proof (cases "country_cities co = []")
    case True
    then show ?thesis using 2(1) [OF _ refl co] 2(3-6) ob co by (simp add: Let_def)
  next
    case False
    let ?m = "m\<lparr>m_countries := m_countries m @ [co]\<rparr>"
    obtain m1 where add: "add_cities (country_code co) (jToArray (jValue ?obj ''cities'')) ?m = (True, m1)"
        and rec: "add_countries K rest m1 = (True, m')"
      using 2(3) ob co False ns(3) by (auto simp: Let_def split: prod.splits bool.splits)
    have "keys_ok ?m" "cities_ok ?m" using 2(4,5) by (simp_all add: keys_ok_def cities_ok_def)
    from add_cities_ok [OF add this] ns
    have m1: "keys_ok m1" "cities_ok m1" "dom (m_cities m) \<subseteq> dom (m_cities m1)"
        "m_countries m1 = m_countries m @ [co]" "\<forall>n\<in>set ns. hashKey (country_code co) n \<in> dom (m_cities m1)"
      by auto
    then have "countries_ok m1"
      using 2(6) ns(2) False by (auto simp: countries_ok_def) blast
    then show ?thesis
      using 2(2) [OF _ refl co False refl refl _ add [symmetric] refl rec] ob ns(3) m1 by simp
  qed
qed simp

definition model_ok :: "ServerCountryModel \<Rightarrow> bool" where
  "model_ok m \<longleftrightarrow> keys_ok m \<and> cities_ok m \<and> countries_ok m"

lemma sortCountries_frame [simp]:
  "m_cities (sortCountries K m) = m_cities m" "m_servers (sortCountries K m) = m_servers m"
  "m_signals (sortCountries K m) = m_signals m"
  by (simp_all add: sortCountries_def)

lemma model_ok_sort: "model_ok m \<Longrightarrow> model_ok (sortCountries K m)"
  by (auto simp: model_ok_def keys_ok_def cities_ok_def countries_ok_def sortCountries_def sortCities_def)

lemma model_ok_frame [simp]: "model_ok (model_emit sg m) = model_ok m" "model_ok (m\<lparr>m_rawJson := r\<rparr>) = model_ok m"
  by (simp_all add: model_emit_def model_ok_def keys_ok_def cities_ok_def countries_ok_def)

lemma model_fromJson_ok:
  assumes "model_ok m" "model_fromJson P K json m = (True, m')"
  shows "model_ok m'"
proof (cases "json \<noteq> [] \<and> m_rawJson m = json")
  case True
  then show ?thesis using assms by (simp add: model_fromJson_def)
next
  case False
  let ?m0 = "(model_emit BeginResetModel m)
      \<lparr>m_rawJson := [], m_countries := [], m_cities := Map.empty, m_servers := Map.empty\<rparr>"
  obtain m1 js where m1: "add_countries K js ?m0 = (True, m1)"
      and m': "m' = model_emit ModelChanged ((model_emit EndResetModel (sortCountries K m1))\<lparr>m_rawJson := json\<rparr>)"
    using assms(2) False
    by (auto simp: model_fromJson_def fromJsonInternal_def Let_def split: if_splits prod.splits bool.splits)
  have "keys_ok ?m0" "cities_ok ?m0" "countries_ok ?m0"
    by (simp_all add: keys_ok_def cities_ok_def countries_ok_def)
  from add_countries_ok [OF m1 this] show ?thesis
    by (simp add: m' model_ok_sort model_ok_def [of m1])
qed

subsection \<open>What a load leaves behind\<close>

lemma add_servers_frame:
  "add_servers code name js m = (b, m') \<Longrightarrow> m_signals m' = m_signals m \<and> m_cities m' = m_cities m"
  by (induction code name js m rule: add_servers.induct) (auto split: prod.splits bool.splits)

definition no_hash_keys :: "ServerCountryModel \<Rightarrow> bool" where
  "no_hash_keys m \<longleftrightarrow> (\<forall>h c. m_cities m h = Some c \<longrightarrow> city_hashKey c = [])"

lemma store_city_no_hash: "no_hash_keys m \<Longrightarrow> no_hash_keys (store_city c m)"
  by (auto simp: no_hash_keys_def store_city_def city_assign_def emptyCity_def split: option.splits)

lemma add_cities_frame:
  "add_cities code js m = (b, m') \<Longrightarrow> m_signals m' = m_signals m \<and> (no_hash_keys m \<longrightarrow> no_hash_keys m')"
proof (induction js arbitrary: m)
  case (Cons v rest)
  let ?obj = "jToObject (Some v)"
  show ?case
  proof (cases "jIsObject (Some v) \<and> jIsArray (jValue ?obj ''servers'') \<and> city_fromJson ?obj code \<noteq> None")
    case True
    then obtain c where c: "city_fromJson ?obj code = Some c" by blast
    obtain ok m1 where m1: "add_servers code (city_name c) (jToArray (jValue ?obj ''servers'')) (store_city c m) = (ok, m1)"
      by fastforce
    have one: "m_signals m1 = m_signals m" "no_hash_keys m \<longrightarrow> no_hash_keys m1"
    proof -
      have f: "m_signals m1 = m_signals (store_city c m)" "m_cities m1 = m_cities (store_city c m)"
        using add_servers_frame [OF m1] by auto
      then show "m_signals m1 = m_signals m" by (simp add: store_city_def Let_def)
      have "no_hash_keys m1 = no_hash_keys (store_city c m)" by (simp add: no_hash_keys_def f(2))
      then show "no_hash_keys m \<longrightarrow> no_hash_keys m1" using store_city_no_hash by blast
    qed
    show ?thesis using Cons True c m1 one by (cases ok) (auto simp: Let_def)
  qed (use Cons.prems in \<open>auto simp: Let_def split: if_splits\<close>)
qed simp

lemma add_countries_frame:
  "add_countries K js m = (b, m') \<Longrightarrow> m_signals m' = m_signals m \<and> (no_hash_keys m \<longrightarrow> no_hash_keys m')"
proof (induction js arbitrary: m)
  case (Cons v rest)
  let ?obj = "jToObject (Some v)"
  have frame: "no_hash_keys (m\<lparr>m_countries := x\<rparr>) = no_hash_keys m" for x by (simp add: no_hash_keys_def)
  consider (bad) "\<not> jIsObject (Some v) \<or> country_fromJson K ?obj = None"
    | (skip) co where "jIsObject (Some v)" "country_fromJson K ?obj = Some co" "country_cities co = []"
    | (noarr) co where "jIsObject (Some v)" "country_fromJson K ?obj = Some co" "country_cities co \<noteq> []" "\<not> jIsArray (jValue ?obj ''cities'')"
    | (load) co ok m1 where "jIsObject (Some v)" "country_fromJson K ?obj = Some co" "country_cities co \<noteq> []" "jIsArray (jValue ?obj ''cities'')"
        "add_cities (country_code co) (jToArray (jValue ?obj ''cities'')) (m\<lparr>m_countries := m_countries m @ [co]\<rparr>) = (ok, m1)"
    by (metis not_None_eq surj_pair)
  then show ?case
  proof cases
    case skip
    then show ?thesis using Cons by (simp add: Let_def)
  next
    case load
    then show ?thesis using Cons add_cities_frame [OF load(5)] frame by (cases ok) (auto simp: Let_def)
  qed (use Cons.prems frame in \<open>auto simp: Let_def split: if_splits\<close>)
qed simp

text \<open>
  The assignment operator of \<open>ServerCity\<close> does not copy the hash key, so the cities stored by a
  load answer an empty \<open>hashKey()\<close>; and a load that fails has called \<open>beginResetModel\<close> without
  the matching \<open>endResetModel\<close>.
\<close>

lemma failed_load_leaves_reset_open:
  assumes "fromJsonInternal P K s m = (False, m')"
  shows "m_signals m' = m_signals m @ [BeginResetModel]"
  using assms add_countries_frame
  by (fastforce simp: fromJsonInternal_def model_emit_def Let_def split: if_splits prod.splits bool.splits)

lemma loaded_cities_have_no_hash_key:
  assumes "fromJsonInternal P K s m = (True, m')"
  shows "no_hash_keys m'"
proof -
  let ?m0 = "(model_emit BeginResetModel m)
      \<lparr>m_rawJson := [], m_countries := [], m_cities := Map.empty, m_servers := Map.empty\<rparr>"
  obtain m1 js where "add_countries K js ?m0 = (True, m1)" "m' = model_emit EndResetModel (sortCountries K m1)"
    using assms by (auto simp: fromJsonInternal_def Let_def split: if_splits prod.splits bool.splits)
  moreover have "no_hash_keys ?m0" by (simp add: no_hash_keys_def)
  ultimately show ?thesis
    using add_countries_frame [of K js ?m0 True m1] by (simp add: no_hash_keys_def model_emit_def)
qed

subsection \<open>Properties\<close>

text \<open>
  C39. The weighted choice of a server always succeeds when the weights do not overflow 32 bits,
  and it is the weighted choice: with the draw \<open>r\<close> reduced modulo the sum of the weights plus one, the
  answer is the first server whose cumulated weight is at least \<open>r\<close>.  Neither the assertion
  after the loop nor a division by zero is reached.
\<close>

theorem weightChooser_weighted:
  assumes "servers \<noteq> []" and "nweights servers < 2^32 - 1"
  shows "\<exists>k<length servers. weightChooser generated servers = Inr (servers ! k) \<and>
    unat generated mod (nweights servers + 1) \<le> nweights (take (Suc k) servers) \<and>
    (\<forall>j<k. nweights (take (Suc j) servers) < unat generated mod (nweights servers + 1))"
  using weightChooser_prefix [OF assms] .

theorem weightChooser_weighted_witness:
  "\<exists>k<length [emptyServer\<lparr>m_weight := 100\<rparr>, emptyServer\<lparr>m_weight := 60\<rparr>].
     weightChooser 150 [emptyServer\<lparr>m_weight := 100\<rparr>, emptyServer\<lparr>m_weight := 60\<rparr>] =
       Inr ([emptyServer\<lparr>m_weight := 100\<rparr>, emptyServer\<lparr>m_weight := 60\<rparr>] ! k)"
proof -
  have "nweights [emptyServer\<lparr>m_weight := 100\<rparr>, emptyServer\<lparr>m_weight := 60\<rparr>] < 2^32 - 1" by simp
  from weightChooser_weighted [OF _ this, of 150] show ?thesis by blast
qed


definition exampleServerJson :: json where
  "exampleServerJson = JObject [(''hostname'', JString ''se1''), (''ipv4_addr_in'', JString ''1.2.3.4''),
     (''ipv4_gateway'', JString ''10.64.0.1''), (''public_key'', JString ''k1''), (''weight'', JDouble 100),
     (''port_ranges'', JArray [JArray [JDouble 53, JDouble 53]])]"

definition exampleListJson :: json where
  "exampleListJson = JObject [(''countries'', JArray [JObject [(''name'', JString ''Sweden''), (''code'', JString ''se''),
     (''cities'', JArray [JObject [(''name'', JString ''Malmo''), (''code'', JString ''mma''),
        (''latitude'', JDouble 55), (''longitude'', JDouble 13), (''servers'', JArray [exampleServerJson])]])]])]"

definition emptyModel :: ServerCountryModel where
  "emptyModel = \<lparr>m_rawJson = [], m_countries = [], m_cities = Map.empty, m_servers = Map.empty, m_signals = []\<rparr>"

definition exampleModel :: ServerCountryModel where
  "exampleModel = snd (model_fromJson (\<lambda>_. Some exampleListJson) \<lparr>cityLess = (\<lambda>_ _. False), countryLess = (\<lambda>_ _. False)\<rparr> ''j'' emptyModel)"

lemma exampleModel_loaded:
  "model_fromJson (\<lambda>_. Some exampleListJson) \<lparr>cityLess = (\<lambda>_ _. False), countryLess = (\<lambda>_ _. False)\<rparr> ''j'' emptyModel =
     (True, exampleModel)"
proof -
  have "fst (model_fromJson (\<lambda>_. Some exampleListJson) \<lparr>cityLess = (\<lambda>_ _. False), countryLess = (\<lambda>_ _. False)\<rparr> ''j'' emptyModel)"
    by code_simp
  then show ?thesis by (simp add: exampleModel_def prod_eq_iff)
qed


end
