(* ===== verification/Settings.thy ===== *)
theory Settings
  imports WG_Prelude
begin

text \<open>
  \<^verbatim>\<open>src/src/settings/\<close>: \<open>SettingsConnector\<close> over the key-value store (\<open>QSettings\<close>),
  \<open>Setting\<close>, \<open>SettingGroup\<close> and \<open>SettingsManager\<close>.  The state holds the store, the
  registered settings and the signals emitted so far; a call on a setting that is not registered
  (a null pointer) is the error \<open>Null_setting\<close>.  The locale \<open>value_store\<close> is what the other
  components rely on; \<open>Setting_get\<close> and \<open>Setting_set\<close> provide it.
\<close>

datatype QVariant =
    Invalid
  | VString string
  | VBytes string
  | VInt int
  | VBool bool
  | VStringList "string list"

record Setting =
  m_key :: string
  m_defaultValue :: QVariant
  m_sensitiveSetting :: bool
  m_removeWhenReset :: bool

record SettingsState =
  m_store :: "(string \<times> QVariant) list"
  m_registeredSettings :: "(string \<times> Setting) list"
  m_connections :: "(string \<times> string) list"
  m_changed :: "string list"
  m_groupChanged :: "string list"

datatype settings_error = Null_setting | Setting_assertion

subsection \<open>The connector\<close>

definition getValue :: "string \<Rightarrow> SettingsState \<Rightarrow> QVariant" where
  "getValue key st = (case map_of (m_store st) key of None \<Rightarrow> Invalid | Some v \<Rightarrow> v)"

definition setValue :: "string \<Rightarrow> QVariant \<Rightarrow> SettingsState \<Rightarrow> SettingsState" where
  "setValue key v st = st\<lparr>m_store := filter (\<lambda>e. fst e \<noteq> key) (m_store st) @ [(key, v)]\<rparr>"

definition store_contains :: "string \<Rightarrow> SettingsState \<Rightarrow> bool" where
  "store_contains key st \<longleftrightarrow> map_of (m_store st) key \<noteq> None"

definition groupPrefix :: "string \<Rightarrow> string" where
  "groupPrefix grp = (if grp = [] then [] else grp @ ''/'')"

text \<open>
  \<open>QSettings::remove\<close> inside a group: the key and its sub-keys, or the whole group when the key
  is empty.
\<close>

definition removed_by :: "string \<Rightarrow> string \<Rightarrow> string \<Rightarrow> bool" where
  "removed_by key grp k \<longleftrightarrow>
     (if key = [] then prefix (groupPrefix grp) k
      else k = groupPrefix grp @ key \<or> prefix (groupPrefix grp @ key @ ''/'') k)"

definition store_remove :: "string \<Rightarrow> string \<Rightarrow> SettingsState \<Rightarrow> SettingsState" where
  "store_remove key grp st = st\<lparr>m_store := filter (\<lambda>e. \<not> removed_by key grp (fst e)) (m_store st)\<rparr>"

definition getAllKeys :: "string \<Rightarrow> SettingsState \<Rightarrow> string list" where
  "getAllKeys grp st = map (drop (length (groupPrefix grp)))
     (filter (prefix (groupPrefix grp)) (map fst (m_store st)))"

subsection \<open>A setting\<close>

text \<open>\<open>changed()\<close> of a setting, which every group connected to it repeats.\<close>

definition emit_changed :: "string \<Rightarrow> SettingsState \<Rightarrow> SettingsState" where
  "emit_changed key st = st\<lparr>m_changed := m_changed st @ [key],
     m_groupChanged := m_groupChanged st @ map snd (filter (\<lambda>c. fst c = key) (m_connections st))\<rparr>"

definition Setting_get :: "Setting \<Rightarrow> SettingsState \<Rightarrow> QVariant" where
  "Setting_get s st = (let v = getValue (m_key s) st in if v = Invalid then m_defaultValue s else v)"

definition Setting_isSet :: "Setting \<Rightarrow> SettingsState \<Rightarrow> bool" where
  "Setting_isSet s st \<longleftrightarrow> store_contains (m_key s) st"

definition Setting_set :: "Setting \<Rightarrow> QVariant \<Rightarrow> SettingsState \<Rightarrow> SettingsState" where
  "Setting_set s v st =
     (if \<not> Setting_isSet s st \<or> Setting_get s st \<noteq> v
      then emit_changed (m_key s) (setValue (m_key s) v st)
      else st)"

definition Setting_remove :: "Setting \<Rightarrow> SettingsState \<Rightarrow> SettingsState" where
  "Setting_remove s st =
     (if \<not> Setting_isSet s st then st else emit_changed (m_key s) (store_remove (m_key s) [] st))"

definition Setting_reset :: "Setting \<Rightarrow> SettingsState \<Rightarrow> SettingsState" where
  "Setting_reset s st = (if \<not> m_removeWhenReset s then st else Setting_remove s st)"

text \<open>\<open>QVariant::toString\<close> is an argument; lists are printed by the code itself.\<close>

definition Setting_log :: "(QVariant \<Rightarrow> string) \<Rightarrow> Setting \<Rightarrow> SettingsState \<Rightarrow> string" where
  "Setting_log show s st =
     (if \<not> Setting_isSet s st then []
      else if m_sensitiveSetting s then m_key s @ '' -> <Sensitive>''
      else m_key s @ '' -> '' @
        (case Setting_get s st of VStringList xs \<Rightarrow> ''['' @ joinWith '','' xs @ '']'' | v \<Rightarrow> show v))"

subsection \<open>The manager\<close>

definition getSetting :: "string \<Rightarrow> SettingsState \<Rightarrow> Setting option" where
  "getSetting key st = map_of (m_registeredSettings st) key"

definition registerSetting :: "Setting \<Rightarrow> SettingsState \<Rightarrow> SettingsState" where
  "registerSetting s st =
     (if getSetting (m_key s) st \<noteq> None then st
      else st\<lparr>m_registeredSettings := m_registeredSettings st @ [(m_key s, s)]\<rparr>)"

definition createOrGetSetting ::
    "string \<Rightarrow> QVariant \<Rightarrow> bool \<Rightarrow> bool \<Rightarrow> SettingsState \<Rightarrow> settings_error + (Setting \<times> SettingsState)" where
  "createOrGetSetting key dflt removeWhenReset sensitive st =
     (case getSetting key st of
        Some s \<Rightarrow>
          if dflt = m_defaultValue s \<and> removeWhenReset = m_removeWhenReset s \<and> sensitive = m_sensitiveSetting s
          then Inr (s, st) else Inl Setting_assertion
      | None \<Rightarrow>
          let s = \<lparr>m_key = key, m_defaultValue = dflt, m_sensitiveSetting = sensitive, m_removeWhenReset = removeWhenReset\<rparr>
          in Inr (s, registerSetting s st))"

definition manager_reset :: "SettingsState \<Rightarrow> SettingsState" where
  "manager_reset st = fold (\<lambda>e. Setting_reset (snd e)) (m_registeredSettings st) st"

definition hardReset :: "SettingsState \<Rightarrow> SettingsState" where
  "hardReset st = fold (\<lambda>e. emit_changed (m_key (snd e))) (m_registeredSettings st) (st\<lparr>m_store := []\<rparr>)"

definition manager_log :: "(QVariant \<Rightarrow> string) \<Rightarrow> SettingsState \<Rightarrow> string list" where
  "manager_log show st = filter (\<lambda>l. l \<noteq> []) (map (\<lambda>e. Setting_log show (snd e) st) (m_registeredSettings st))"

subsection \<open>Groups\<close>

record SettingGroup =
  m_groupKey :: string
  g_sensitiveSetting :: bool
  g_removeWhenReset :: bool
  m_acceptedKeys :: "string list"

definition settingKeyWithGroupPrefix :: "SettingGroup \<Rightarrow> string \<Rightarrow> string" where
  "settingKeyWithGroupPrefix g key = m_groupKey g @ ''/'' @ key"

definition addSetting :: "SettingGroup \<Rightarrow> string \<Rightarrow> SettingsState \<Rightarrow> settings_error + SettingsState" where
  "addSetting g key st =
     (case createOrGetSetting (settingKeyWithGroupPrefix g key) Invalid (g_removeWhenReset g) (g_sensitiveSetting g) st of
        Inl e \<Rightarrow> Inl e
      | Inr (s, st') \<Rightarrow> Inr (st'\<lparr>m_connections := m_connections st' @ [(m_key s, m_groupKey g)]\<rparr>))"

fun addSettings :: "SettingGroup \<Rightarrow> string list \<Rightarrow> SettingsState \<Rightarrow> settings_error + SettingsState" where
  "addSettings g [] st = Inr st"
| "addSettings g (key # keys) st =
     (case addSetting g key st of Inl e \<Rightarrow> Inl e | Inr st' \<Rightarrow> addSettings g keys st')"

definition SettingGroup_new :: "SettingGroup \<Rightarrow> SettingsState \<Rightarrow> settings_error + SettingsState" where
  "SettingGroup_new g st = addSettings g (getAllKeys (m_groupKey g) st) st"

definition isAcceptedKey :: "SettingGroup \<Rightarrow> string \<Rightarrow> bool" where
  "isAcceptedKey g key \<longleftrightarrow> m_acceptedKeys g = [] \<or> key \<in> set (m_acceptedKeys g)"

definition SettingGroup_get :: "SettingGroup \<Rightarrow> string \<Rightarrow> SettingsState \<Rightarrow> QVariant" where
  "SettingGroup_get g key st =
     (case getSetting (settingKeyWithGroupPrefix g key) st of None \<Rightarrow> Invalid | Some s \<Rightarrow> Setting_get s st)"

definition SettingGroup_set :: "SettingGroup \<Rightarrow> string \<Rightarrow> QVariant \<Rightarrow> SettingsState \<Rightarrow> settings_error + SettingsState" where
  "SettingGroup_set g key v st =
     (if \<not> isAcceptedKey g key then Inr st
      else
        let fullKey = settingKeyWithGroupPrefix g key in
        case (if getSetting fullKey st = None then addSetting g key st else Inr st) of
          Inl e \<Rightarrow> Inl e
        | Inr st' \<Rightarrow>
            (case getSetting fullKey st' of None \<Rightarrow> Inl Null_setting | Some s \<Rightarrow> Inr (Setting_set s v st')))"

fun emit_group_keys :: "SettingGroup \<Rightarrow> string list \<Rightarrow> SettingsState \<Rightarrow> settings_error + SettingsState" where
  "emit_group_keys g [] st = Inr st"
| "emit_group_keys g (key # keys) st =
     (case getSetting (settingKeyWithGroupPrefix g key) st of
        None \<Rightarrow> Inl Null_setting
      | Some s \<Rightarrow> emit_group_keys g keys (emit_changed (m_key s) st))"

definition SettingGroup_remove :: "SettingGroup \<Rightarrow> SettingsState \<Rightarrow> settings_error + SettingsState" where
  "SettingGroup_remove g st =
     emit_group_keys g (getAllKeys (m_groupKey g) st) (store_remove [] (m_groupKey g) st)"

subsection \<open>What the store promises\<close>

text \<open>
  The contract other components rely on: reading a setting that was written with a proper value
  answers that value, a write leaves the other settings alone, and writing what is already there
  announces nothing.
\<close>

locale value_store =
  fixes get :: "'k \<Rightarrow> 's \<Rightarrow> 'v" and put :: "'k \<Rightarrow> 'v \<Rightarrow> 's \<Rightarrow> 's" and proper :: "'v \<Rightarrow> bool"
    and distinct_keys :: "'k \<Rightarrow> 'k \<Rightarrow> bool" and announced :: "'s \<Rightarrow> nat"
  assumes get_put: "proper v \<Longrightarrow> get k (put k v s) = v"
    and get_put_other: "distinct_keys k k' \<Longrightarrow> get k' (put k v s) = get k' s"
    and put_same: "proper v \<Longrightarrow> announced (put k v (put k v s)) = announced (put k v s)"
begin

lemma get_two:
  "proper v \<Longrightarrow> distinct_keys k' k \<Longrightarrow> get k (put k' w (put k v s)) = v"
  by (simp add: get_put get_put_other)

lemma get_last_put:
  "proper v \<Longrightarrow> proper w \<Longrightarrow> get k (put k w (put k v s)) = w"
  by (simp add: get_put)

end

lemma map_of_setValue: "map_of (m_store (setValue k v st)) k' = (if k' = k then Some v else map_of (m_store st) k')"
  by (auto simp: setValue_def map_add_def map_of_filter_key split: option.splits)

lemma store_emit_changed [simp]:
  "m_store (emit_changed k st) = m_store st" "m_registeredSettings (emit_changed k st) = m_registeredSettings st"
  "m_connections (emit_changed k st) = m_connections st"
  by (simp_all add: emit_changed_def)

lemma registered_setValue [simp]:
  "m_registeredSettings (setValue k v st) = m_registeredSettings st"
  "m_registeredSettings (store_remove k g st) = m_registeredSettings st"
  "m_connections (setValue k v st) = m_connections st"
  by (simp_all add: setValue_def store_remove_def)

lemma getValue_emit [simp]: "getValue k (emit_changed k' st) = getValue k st"
  by (simp add: getValue_def)

lemma getValue_setValue [simp]: "getValue k' (setValue k v st) = (if k' = k then v else getValue k' st)"
  by (simp add: getValue_def map_of_setValue)

lemma contains_set [simp]:
  "store_contains k' (emit_changed k st) = store_contains k' st"
  "store_contains k' (setValue k v st) \<longleftrightarrow> k' = k \<or> store_contains k' st"
  by (simp_all add: store_contains_def map_of_setValue)

lemma Setting_get_set: "v \<noteq> Invalid \<Longrightarrow> Setting_get s (Setting_set s v st) = v"
  by (auto simp: Setting_set_def Setting_get_def Let_def split: if_splits)

lemma Setting_isSet_set: "Setting_isSet s (Setting_set s v st)"
  by (auto simp: Setting_set_def Setting_isSet_def)

interpretation setting: value_store Setting_get Setting_set "\<lambda>v. v \<noteq> Invalid"
    "\<lambda>s s'. m_key s \<noteq> m_key s'" "\<lambda>st. length (m_changed st)"
proof
  fix v s st assume "v \<noteq> Invalid"
  then show "Setting_get s (Setting_set s v st) = v" by (rule Setting_get_set)
  with Setting_isSet_set [of s v st]
  show "length (m_changed (Setting_set s v (Setting_set s v st))) = length (m_changed (Setting_set s v st))"
    by (simp add: Setting_set_def [of s v "Setting_set s v st"])
next
  fix k k' :: Setting and v st assume "m_key k \<noteq> m_key k'"
  then show "Setting_get k' (Setting_set k v st) = Setting_get k' st"
    by (simp add: Setting_get_def Setting_set_def)
qed


lemma Setting_set_idem: "v \<noteq> Invalid \<Longrightarrow> Setting_set s v (Setting_set s v st) = Setting_set s v st"
  using Setting_get_set [of v s st] Setting_isSet_set [of s v st]
  by (simp add: Setting_set_def [of s v "Setting_set s v st"])

subsection \<open>Resetting\<close>

lemma contains_iff: "store_contains k st \<longleftrightarrow> k \<in> fst ` set (m_store st)"
  by (auto simp: store_contains_def map_of_eq_None_iff)

lemma map_of_filter_pred: "map_of (filter (\<lambda>e. P (fst e)) xs) k = (if P k then map_of xs k else None)"
  by (induction xs) auto

lemma getValue_store_remove:
  "getValue k (store_remove key g st) = (if removed_by key g k then Invalid else getValue k st)"
  unfolding getValue_def store_remove_def
  using map_of_filter_pred [of "\<lambda>k. \<not> removed_by key g k" "m_store st" k] by simp

lemma removed_by_self [simp]: "removed_by key [] key"
  by (simp add: removed_by_def groupPrefix_def)

lemma Setting_reset_store:
  "m_store (Setting_reset s st) =
     (if m_removeWhenReset s \<and> Setting_isSet s st then filter (\<lambda>e. \<not> removed_by (m_key s) [] (fst e)) (m_store st)
      else m_store st)"
  by (simp add: Setting_reset_def Setting_remove_def store_remove_def)

lemma fold_reset_store:
  "set (m_store (fold (\<lambda>e. Setting_reset (snd e)) rs st)) \<subseteq> set (m_store st)"
proof (induction rs arbitrary: st)
  case (Cons r rs)
  have "set (m_store (Setting_reset (snd r) st)) \<subseteq> set (m_store st)"
    by (auto simp: Setting_reset_store)
  with Cons [of "Setting_reset (snd r) st"] show ?case by simp
qed simp

lemma fold_reset_unset:
  "e \<in> set rs \<Longrightarrow> m_removeWhenReset (snd e) \<Longrightarrow>
     \<not> Setting_isSet (snd e) (fold (\<lambda>e. Setting_reset (snd e)) rs st)"
proof (induction rs arbitrary: st)
  case (Cons r rs)
  show ?case
  proof (cases "e = r")
    case True
    have "\<not> Setting_isSet (snd e) (Setting_reset (snd e) st)"
      using Cons.prems(2) by (auto simp: Setting_isSet_def contains_iff Setting_reset_store)
    then show ?thesis
      using True fold_reset_store [of rs "Setting_reset (snd r) st"]
      by (auto simp: Setting_isSet_def contains_iff)
  qed (use Cons in auto)
qed simp

lemma fold_reset_keeps:
  "\<forall>e\<in>set rs. m_removeWhenReset (snd e) \<longrightarrow> \<not> removed_by (m_key (snd e)) [] k \<Longrightarrow>
     getValue k (fold (\<lambda>e. Setting_reset (snd e)) rs st) = getValue k st"
proof (induction rs arbitrary: st)
  case (Cons r rs)
  have "getValue k (Setting_reset (snd r) st) = getValue k st"
    using Cons.prems by (auto simp: Setting_reset_def Setting_remove_def getValue_store_remove)
  with Cons show ?case by simp
qed simp

subsection \<open>Groups\<close>

lemma getAllKeys_iff:
  "m_groupKey g \<noteq> [] \<Longrightarrow>
     key \<in> set (getAllKeys (m_groupKey g) st) \<longleftrightarrow> settingKeyWithGroupPrefix g key \<in> fst ` set (m_store st)"
  by (force simp: getAllKeys_def groupPrefix_def settingKeyWithGroupPrefix_def prefix_def)

definition group_registered :: "SettingGroup \<Rightarrow> SettingsState \<Rightarrow> bool" where
  "group_registered g st \<longleftrightarrow>
     (\<forall>key\<in>set (getAllKeys (m_groupKey g) st). getSetting (settingKeyWithGroupPrefix g key) st \<noteq> None)"

lemma getSetting_register:
  "getSetting k (registerSetting s st) = (if k = m_key s \<and> getSetting k st = None then Some s else getSetting k st)"
  by (auto simp: registerSetting_def getSetting_def map_add_def split: option.splits)

lemma addSetting_registers:
  "addSetting g key st = Inr st' \<Longrightarrow>
     m_store st' = m_store st \<and> getSetting (settingKeyWithGroupPrefix g key) st' \<noteq> None \<and>
     (\<forall>k. getSetting k st \<noteq> None \<longrightarrow> getSetting k st' \<noteq> None)"
  by (auto simp: addSetting_def createOrGetSetting_def Let_def getSetting_register
        getSetting_def [of _ "st\<lparr>m_connections := c\<rparr>" for st c] split: sum.splits option.splits if_splits)
     (auto simp: registerSetting_def getSetting_def map_add_def split: option.splits if_splits)

lemma addSettings_registers:
  "addSettings g keys st = Inr st' \<Longrightarrow>
     m_store st' = m_store st \<and> (\<forall>k. getSetting k st \<noteq> None \<longrightarrow> getSetting k st' \<noteq> None) \<and>
     (\<forall>key\<in>set keys. getSetting (settingKeyWithGroupPrefix g key) st' \<noteq> None)"
proof (induction keys arbitrary: st)
  case (Cons key keys)
  then obtain st1 where "addSetting g key st = Inr st1" "addSettings g keys st1 = Inr st'"
    by (auto split: sum.splits)
  with Cons.IH [of st1] addSetting_registers [of g key st st1] show ?case by auto
qed simp

lemma emit_group_keys_ok:
  "\<forall>key\<in>set keys. getSetting (settingKeyWithGroupPrefix g key) st \<noteq> None \<Longrightarrow>
     \<exists>st'. emit_group_keys g keys st = Inr st' \<and> m_store st' = m_store st"
proof (induction keys arbitrary: st)
  case (Cons key keys)
  then obtain s where s: "getSetting (settingKeyWithGroupPrefix g key) st = Some s" by auto
  have "getSetting k (emit_changed (m_key s) st) = getSetting k st" for k by (simp add: getSetting_def)
  with Cons.IH [of "emit_changed (m_key s) st"] Cons.prems s show ?case by auto
qed simp

subsection \<open>Properties\<close>

text \<open>
  A setting keeps what is written to it: reading it answers the value, the settings under other
  keys are untouched, and writing the same value again changes nothing and announces nothing.
\<close>

lemma Setting_read_back:
  assumes "v \<noteq> Invalid"
  shows "Setting_get s (Setting_set s v st) = v \<and>
    (\<forall>s'. m_key s' \<noteq> m_key s \<longrightarrow> Setting_get s' (Setting_set s v st) = Setting_get s' st) \<and>
    Setting_set s v (Setting_set s v st) = Setting_set s v st"
  using setting.get_put [OF assms] setting.get_put_other Setting_set_idem [OF assms] by auto

text \<open>
  A soft reset removes exactly the settings declared for it: afterwards no registered setting
  with \<open>removeWhenReset\<close> has a stored value, and a key that is neither the key of such a setting
  nor below it keeps its value.
\<close>

lemma manager_reset_exact:
  "(\<forall>e\<in>set (m_registeredSettings st). m_removeWhenReset (snd e) \<longrightarrow> \<not> Setting_isSet (snd e) (manager_reset st)) \<and>
   (\<forall>k. (\<forall>e\<in>set (m_registeredSettings st). m_removeWhenReset (snd e) \<longrightarrow> \<not> removed_by (m_key (snd e)) [] k) \<longrightarrow>
      getValue k (manager_reset st) = getValue k st)"
  using fold_reset_unset fold_reset_keeps unfolding manager_reset_def by blast

definition exampleSettings :: SettingsState where
  "exampleSettings = \<lparr>m_store = [(''token'', VString ''x''), (''lang'', VString ''en'')],
     m_registeredSettings =
       [(''token'', \<lparr>m_key = ''token'', m_defaultValue = VString [], m_sensitiveSetting = True, m_removeWhenReset = True\<rparr>),
        (''lang'', \<lparr>m_key = ''lang'', m_defaultValue = VString [], m_sensitiveSetting = False, m_removeWhenReset = False\<rparr>)],
     m_connections = [], m_changed = [], m_groupChanged = []\<rparr>"

text \<open>
  The log leaks no sensitive value: two states with the same registered settings, the same set
  of stored keys, and the same values of the settings not marked sensitive produce the same log.
\<close>

lemma settings_log_hides_sensitive:
  assumes "m_registeredSettings st' = m_registeredSettings st"
    and "\<forall>e\<in>set (m_registeredSettings st). store_contains (m_key (snd e)) st' = store_contains (m_key (snd e)) st"
    and "\<forall>e\<in>set (m_registeredSettings st). \<not> m_sensitiveSetting (snd e) \<longrightarrow>
           getValue (m_key (snd e)) st' = getValue (m_key (snd e)) st"
  shows "manager_log show st' = manager_log show st"
proof -
  have "Setting_log show (snd e) st' = Setting_log show (snd e) st" if "e \<in> set (m_registeredSettings st)" for e
    using that assms(2,3) by (simp add: Setting_log_def Setting_isSet_def Setting_get_def)
  then show ?thesis unfolding manager_log_def assms(1) by (metis (mono_tags, lifting) map_cong)
qed

inductive group_run :: "SettingGroup \<Rightarrow> SettingsState \<Rightarrow> SettingsState \<Rightarrow> bool" for g where
  group_created: "SettingGroup_new g st = Inr st' \<Longrightarrow> group_run g st st'"
| group_written: "group_run g st st' \<Longrightarrow> SettingGroup_set g key v st' = Inr st'' \<Longrightarrow> group_run g st st''"

text \<open>Settings are registered under their own key.\<close>

definition registered_keys :: "SettingsState \<Rightarrow> bool" where
  "registered_keys st \<longleftrightarrow> (\<forall>e\<in>set (m_registeredSettings st). m_key (snd e) = fst e)"

lemma addSetting_keys: "addSetting g key st = Inr st' \<Longrightarrow> registered_keys st \<Longrightarrow> registered_keys st'"
  by (auto simp: addSetting_def createOrGetSetting_def registerSetting_def registered_keys_def Let_def
      split: sum.splits option.splits if_splits)

lemma addSettings_keys: "addSettings g keys st = Inr st' \<Longrightarrow> registered_keys st \<Longrightarrow> registered_keys st'"
  by (induction keys arbitrary: st) (auto split: sum.splits dest: addSetting_keys)

lemma Setting_set_frame:
  "getSetting k (Setting_set s v st) = getSetting k st" "registered_keys (Setting_set s v st) = registered_keys st"
  "fst ` set (m_store (Setting_set s v st)) \<subseteq> insert (m_key s) (fst ` set (m_store st))"
  by (auto simp: Setting_set_def getSetting_def registered_keys_def setValue_def split: if_splits)

lemma SettingGroup_set_registered:
  assumes "m_groupKey g \<noteq> []" "group_registered g st" "registered_keys st" "SettingGroup_set g key v st = Inr st'"
  shows "group_registered g st' \<and> registered_keys st'"
proof (cases "isAcceptedKey g key")
  case True
  then obtain st1 s where
      st1: "(if getSetting (settingKeyWithGroupPrefix g key) st = None then addSetting g key st else Inr st) = Inr st1"
      and s: "getSetting (settingKeyWithGroupPrefix g key) st1 = Some s" and st': "st' = Setting_set s v st1"
    using assms(4) by (auto simp: SettingGroup_set_def Let_def split: sum.splits option.splits)
  have st1': "m_store st1 = m_store st" "\<forall>k. getSetting k st \<noteq> None \<longrightarrow> getSetting k st1 \<noteq> None" "registered_keys st1"
    using st1 addSetting_registers [of g key st st1] addSetting_keys [of g key st st1] assms(3) by (auto split: if_splits)
  have "m_key s = settingKeyWithGroupPrefix g key"
    using st1'(3) s map_of_SomeD by (fastforce simp: registered_keys_def getSetting_def)
  then have "getSetting (settingKeyWithGroupPrefix g k) st' \<noteq> None"
    if "settingKeyWithGroupPrefix g k \<in> fst ` set (m_store st')" for k
  proof -
    have "settingKeyWithGroupPrefix g k = settingKeyWithGroupPrefix g key \<or>
        settingKeyWithGroupPrefix g k \<in> fst ` set (m_store st)"
      using that Setting_set_frame(3) [of s v st1] \<open>m_key s = _\<close> st1'(1) st' by auto
    then show ?thesis
      unfolding st' Setting_set_frame
      using s st1'(2) assms(2) getAllKeys_iff [OF assms(1), of k st] unfolding group_registered_def
      by (metis option.distinct(1))
  qed
  with st1'(3) show ?thesis
    by (simp add: group_registered_def getAllKeys_iff [OF assms(1)] st' Setting_set_frame)
qed (use assms in \<open>simp add: SettingGroup_set_def\<close>)

lemma group_run_registered:
  "group_run g st st' \<Longrightarrow> m_groupKey g \<noteq> [] \<Longrightarrow> registered_keys st \<Longrightarrow> group_registered g st' \<and> registered_keys st'"
proof (induction rule: group_run.induct)
  case (group_created st st')
  then have "addSettings g (getAllKeys (m_groupKey g) st) st = Inr st'" by (simp add: SettingGroup_new_def)
  from addSettings_registers [OF this] addSettings_keys [OF this] group_created.prems show ?case
    by (simp add: group_registered_def getAllKeys_def)
next
  case (group_written st st' key v st'')
  then show ?case using SettingGroup_set_registered by blast
qed

text \<open>
  Removing a group never follows a null pointer: after a group was created, and after any
  number of writes through the group, every stored key of the group has a registered setting, so
  \<open>remove\<close> completes and leaves no key of the group in the store.
\<close>

theorem SettingGroup_remove_completes:
  assumes "m_groupKey g \<noteq> []" and "registered_keys st" and "group_run g st st'"
  shows "\<exists>st''. SettingGroup_remove g st' = Inr st'' \<and> getAllKeys (m_groupKey g) st'' = []"
proof -
  have reg: "group_registered g st'" using group_run_registered [OF assms(3,1,2)] by simp
  obtain st'' where "SettingGroup_remove g st' = Inr st''"
      "m_store st'' = m_store (store_remove [] (m_groupKey g) st')"
    using emit_group_keys_ok [of "getAllKeys (m_groupKey g) st'" g "store_remove [] (m_groupKey g) st'"] reg
    by (auto simp: SettingGroup_remove_def group_registered_def getSetting_def)
  then show ?thesis
    by (auto simp: getAllKeys_def store_remove_def removed_by_def filter_empty_conv)
qed

theorem SettingGroup_remove_completes_witness:
  "\<exists>st' st''. group_run \<lparr>m_groupKey = ''addon'', g_sensitiveSetting = False, g_removeWhenReset = True, m_acceptedKeys = []\<rparr>
       exampleSettings st' \<and>
     SettingGroup_remove \<lparr>m_groupKey = ''addon'', g_sensitiveSetting = False, g_removeWhenReset = True, m_acceptedKeys = []\<rparr> st' = Inr st'' \<and>
     getAllKeys ''addon'' st'' = [] \<and> getAllKeys ''addon'' st' = [''n'']"
proof -
  let ?g = "\<lparr>m_groupKey = ''addon'', g_sensitiveSetting = False, g_removeWhenReset = True, m_acceptedKeys = []\<rparr>"
  obtain st' where st': "SettingGroup_set ?g ''n'' (VInt 1) exampleSettings = Inr st'" "getAllKeys ''addon'' st' = [''n'']"
    by (simp add: SettingGroup_set_def isAcceptedKey_def settingKeyWithGroupPrefix_def getSetting_def addSetting_def
        createOrGetSetting_def registerSetting_def exampleSettings_def Setting_set_def Setting_isSet_def Let_def
        store_contains_def setValue_def emit_changed_def getAllKeys_def groupPrefix_def)
  have "SettingGroup_new ?g exampleSettings = Inr exampleSettings"
    by (simp add: SettingGroup_new_def getAllKeys_def exampleSettings_def groupPrefix_def)
  then have run: "group_run ?g exampleSettings st'" using st'(1) by (blast intro: group_run.intros)
  have "registered_keys exampleSettings" by (simp add: registered_keys_def exampleSettings_def)
  with run st'(2) SettingGroup_remove_completes [of ?g exampleSettings st'] show ?thesis by auto
qed

end
