(* ===== verification/Settings_Holder.thy ===== *)
theory Settings_Holder
  imports Settings
begin

text \<open>
  \<^verbatim>\<open>src/src/settingsholder.h\<close> and \<^verbatim>\<open>settingslist.h\<close>: the typed settings the
  modelled components read and write, with the keys, defaults and flags of the list, and the DNS
  provider flags.  The conversion of JSON documents to and from text (\<open>QJsonDocument\<close>) is the
  argument \<open>json_codec\<close>.
\<close>

text \<open>The \<open>SETTING\<close> macros: a setting and its typed accessors.\<close>

definition holderSetting :: "string \<Rightarrow> QVariant \<Rightarrow> bool \<Rightarrow> bool \<Rightarrow> Setting" where
  "holderSetting key dflt removeWhenReset sensitive =
     \<lparr>m_key = key, m_defaultValue = dflt, m_sensitiveSetting = sensitive, m_removeWhenReset = removeWhenReset\<rparr>"

definition vToString :: "QVariant \<Rightarrow> string" where
  "vToString v = (case v of VString s \<Rightarrow> s | VBytes s \<Rightarrow> s | _ \<Rightarrow> [])"

definition vToByteArray :: "QVariant \<Rightarrow> string" where
  "vToByteArray v = (case v of VBytes s \<Rightarrow> s | VString s \<Rightarrow> s | _ \<Rightarrow> [])"

definition vToInt :: "QVariant \<Rightarrow> int" where
  "vToInt v = (case v of VInt n \<Rightarrow> n | VBool b \<Rightarrow> (if b then 1 else 0) | _ \<Rightarrow> 0)"

definition vToStringList :: "QVariant \<Rightarrow> string list" where
  "vToStringList v = (case v of VStringList xs \<Rightarrow> xs | VString s \<Rightarrow> [s] | _ \<Rightarrow> [])"

lemma variant_conversions [simp]:
  "vToString (VString s) = s" "vToByteArray (VBytes b) = b" "vToInt (VInt n) = n" "vToStringList (VStringList xs) = xs"
  by (simp_all add: vToString_def vToByteArray_def vToInt_def vToStringList_def)

abbreviation serverDataSetting :: Setting where
  "serverDataSetting \<equiv> holderSetting ''serverData'' (VBytes []) True True"

abbreviation currentServerCityDeprecated :: Setting where
  "currentServerCityDeprecated \<equiv> holderSetting ''currentServer/city'' (VString []) True False"

abbreviation currentServerCountryCodeDeprecated :: Setting where
  "currentServerCountryCodeDeprecated \<equiv> holderSetting ''currentServer/countryCode'' (VString []) True False"

abbreviation entryServerCityDeprecated :: Setting where
  "entryServerCityDeprecated \<equiv> holderSetting ''entryServer/city'' (VString []) True False"

abbreviation entryServerCountryCodeDeprecated :: Setting where
  "entryServerCountryCodeDeprecated \<equiv> holderSetting ''entryServer/countryCode'' (VString []) True False"

abbreviation dnsProviderDeprecated :: Setting where
  "dnsProviderDeprecated \<equiv> holderSetting ''dnsProvider'' (VInt 0) False False"

abbreviation dnsProviderFlagsSetting :: Setting where
  "dnsProviderFlagsSetting \<equiv> holderSetting ''dnsProviderFlags'' (VInt 0) False False"

abbreviation userDNSSetting :: Setting where
  "userDNSSetting \<equiv> holderSetting ''userDNS'' (VString []) False False"

abbreviation vpnDisabledAppsSetting :: Setting where
  "vpnDisabledAppsSetting \<equiv> holderSetting ''vpnDisabledApps'' (VStringList []) False False"

abbreviation wireGuardProfilesSetting :: Setting where
  "wireGuardProfilesSetting \<equiv> holderSetting ''wireGuard/profiles'' (VBytes []) True True"

abbreviation activeWireGuardProfileIdSetting :: Setting where
  "activeWireGuardProfileIdSetting \<equiv> holderSetting ''wireGuard/activeProfileId'' (VString []) True False"

abbreviation devicesSetting :: Setting where
  "devicesSetting \<equiv> holderSetting ''devices'' (VBytes []) True True"

abbreviation recentConnectionsSetting :: Setting where
  "recentConnectionsSetting \<equiv> holderSetting ''recentConnections2'' (VBytes []) True True"

abbreviation recentConnectionsDeprecated :: Setting where
  "recentConnectionsDeprecated \<equiv> holderSetting ''recentConnections'' (VStringList []) True True"

lemma m_key_holderSetting [simp]: "m_key (holderSetting k d r s) = k"
  by (simp add: holderSetting_def)

lemma Setting_get_set_other [simp]:
  "m_key s \<noteq> m_key s' \<Longrightarrow> Setting_get s' (Setting_set s v st) = Setting_get s' st"
  by (rule setting.get_put_other)

lemma Setting_get_set_same [simp]: "v \<noteq> Invalid \<Longrightarrow> Setting_get s (Setting_set s v st) = v"
  by (rule setting.get_put)

lemma Setting_isSet_set_same [simp]: "Setting_isSet s (Setting_set s v st)"
  by (rule Setting_isSet_set)

lemma Setting_isSet_set_other [simp]:
  "m_key s \<noteq> m_key s' \<Longrightarrow> Setting_isSet s' (Setting_set s v st) = Setting_isSet s' st"
  by (auto simp: Setting_set_def Setting_isSet_def)

subsection \<open>JSON text\<close>

record json_codec =
  jsonToText :: "json_object \<Rightarrow> string"
  jsonFromText :: "string \<Rightarrow> json option"

text \<open>
  Text written for an object reads back as an object with the same members; this is assumed for the
  objects a theorem is about.
\<close>

definition reads_back :: "json_codec \<Rightarrow> json_object \<Rightarrow> bool" where
  "reads_back C ob \<longleftrightarrow> (case jsonFromText C (jsonToText C ob) of
     Some (JObject ob') \<Rightarrow> (\<forall>k. jValue ob' k = jValue ob k) | _ \<Rightarrow> False)"

lemma reads_backD: "reads_back C ob \<Longrightarrow> \<exists>ob'. jsonFromText C (jsonToText C ob) = Some (JObject ob') \<and> (\<forall>k. jValue ob' k = jValue ob k)"
  by (auto simp: reads_back_def split: option.splits json.splits)

subsection \<open>DNS provider flags\<close>

definition Gateway :: int where "Gateway = 0x00"
definition Custom :: int where "Custom = 0x01"
definition BlockAds :: int where "BlockAds = 0x02"
definition BlockTrackers :: int where "BlockTrackers = 0x04"
definition BlockMalware :: int where "BlockMalware = 0x08"

lemmas dns_flags = Gateway_def Custom_def BlockAds_def BlockTrackers_def BlockMalware_def

end
