(* ===== verification/Server_Data.thy ===== *)
theory Server_Data
  imports Server_Model Settings_Holder
begin

text \<open>
  \<^verbatim>\<open>src/src/models/serverdata.cpp\<close>: the chosen location.  The object and the settings are
  passed together; the slot \<open>settingsChanged\<close>, connected to \<open>serverDataChanged\<close>, runs when
  the setting announces a change.  Cooldowns come from \<open>ServerLatency\<close> (\<open>getCooldown\<close>).
\<close>

record ServerData =
  m_initialized :: bool
  m_exitCountryCode :: string
  m_exitCountryName :: string
  m_exitCityName :: string
  m_entryCountryCode :: string
  m_entryCountryName :: string
  m_entryCityName :: string
  m_previousExitCountryCode :: string
  m_previousExitCountryName :: string
  m_previousExitCityName :: string
  m_exitServerPublicKey :: string
  m_entryServerPublicKey :: string

definition emptyServerData :: ServerData where
  "emptyServerData = \<lparr>m_initialized = False, m_exitCountryCode = [], m_exitCountryName = [], m_exitCityName = [],
     m_entryCountryCode = [], m_entryCountryName = [], m_entryCityName = [], m_previousExitCountryCode = [],
     m_previousExitCountryName = [], m_previousExitCityName = [], m_exitServerPublicKey = [],
     m_entryServerPublicKey = []\<rparr>"

definition sd_assign :: "ServerData \<Rightarrow> ServerData \<Rightarrow> ServerData" where
  "sd_assign this other = this\<lparr>m_initialized := m_initialized other,
     m_exitCountryCode := m_exitCountryCode other, m_exitCityName := m_exitCityName other,
     m_entryCountryCode := m_entryCountryCode other, m_entryCityName := m_entryCityName other,
     m_previousExitCountryCode := m_previousExitCountryCode other,
     m_previousExitCityName := m_previousExitCityName other,
     m_exitServerPublicKey := m_exitServerPublicKey other,
     m_entryServerPublicKey := m_entryServerPublicKey other\<rparr>"

definition multihop :: "ServerData \<Rightarrow> bool" where
  "multihop d \<longleftrightarrow> m_entryCountryCode d \<noteq> [] \<and> m_entryCityName d \<noteq> []"

definition hasServerData :: "ServerData \<Rightarrow> bool" where
  "hasServerData d \<longleftrightarrow> m_exitCountryCode d \<noteq> []"

definition jText :: "json_object \<Rightarrow> string \<Rightarrow> string" where
  "jText obj k = qtext (jToString (jValue obj k))"

text \<open>Answer and object after the call; an answer \<open>True\<close> comes with the signal \<open>changed\<close>.\<close>

definition settingsChanged ::
    "json_codec \<Rightarrow> ServerCountryModel \<Rightarrow> SettingsState \<Rightarrow> ServerData \<Rightarrow> bool \<times> ServerData" where
  "settingsChanged C scm st d =
     (if \<not> Setting_isSet serverDataSetting st then (False, d)
      else
        let json = jsonFromText C (vToByteArray (Setting_get serverDataSetting st)) in
        if \<not> jIsObject json then (False, d)
        else
          let obj = jToObject json;
              d = d\<lparr>m_exitCountryCode := jText obj ''exit_country_code'',
                    m_exitCityName := jText obj ''exit_city_name''\<rparr>;
              d = d\<lparr>m_exitCountryName :=
                    (if \<not> jContains obj ''exit_country_name'' then countryName scm (m_exitCountryCode d)
                     else jText obj ''exit_country_name'')\<rparr>;
              d = d\<lparr>m_entryCountryCode := jText obj ''enter_country_code'',
                    m_entryCityName := jText obj ''enter_city_name''\<rparr>;
              d = d\<lparr>m_entryCountryName :=
                    (if \<not> jContains obj ''enter_country_name'' then countryName scm (m_entryCountryCode d)
                     else jText obj ''enter_country_name'')\<rparr>
          in (True, d))"

definition serverDataJson :: "ServerCountryModel \<Rightarrow> string \<Rightarrow> string \<Rightarrow> string \<Rightarrow> string \<Rightarrow> json_object" where
  "serverDataJson scm exitCountryCode exitCityName entryCountryCode entryCityName =
     (let obj = jInsert ''exit_country_code'' (JString exitCountryCode) [];
          obj = jInsert ''exit_country_name'' (JString (countryName scm exitCountryCode)) obj;
          obj = jInsert ''exit_city_name'' (JString exitCityName) obj;
          obj = jInsert ''enter_country_code'' (JString entryCountryCode) obj;
          obj = jInsert ''enter_country_name'' (JString (countryName scm entryCountryCode)) obj;
          obj = jInsert ''enter_city_name'' (JString entryCityName) obj
      in obj)"

text \<open>A typed setter: the new settings, and whether the change signal ran.\<close>

definition holder_set :: "Setting \<Rightarrow> QVariant \<Rightarrow> SettingsState \<Rightarrow> bool \<times> SettingsState" where
  "holder_set s v st = (length (m_changed (Setting_set s v st)) > length (m_changed st), Setting_set s v st)"

definition sd_update ::
    "json_codec \<Rightarrow> ServerCountryModel \<Rightarrow> string \<Rightarrow> string \<Rightarrow> string \<Rightarrow> string \<Rightarrow>
     ServerData \<times> SettingsState \<Rightarrow> fault + (ServerData \<times> SettingsState)" where
  "sd_update C scm exitCountryCode exitCityName entryCountryCode entryCityName s =
     (let (d, st) = s in
      if \<not> m_initialized d then Inl Assertion_failed
      else
        let d = d\<lparr>m_previousExitCountryCode := m_exitCountryCode d,
                  m_previousExitCountryName := countryName scm exitCountryCode,
                  m_previousExitCityName := m_exitCityName d\<rparr>;
            obj = serverDataJson scm exitCountryCode exitCityName entryCountryCode entryCityName;
            (announced, st) = holder_set serverDataSetting (VBytes (jsonToText C obj)) st
        in Inr (if announced then snd (settingsChanged C scm st d) else d, st))"

definition changeServer ::
    "json_codec \<Rightarrow> ServerCountryModel \<Rightarrow> string \<Rightarrow> string \<Rightarrow> string \<Rightarrow> string \<Rightarrow>
     ServerData \<times> SettingsState \<Rightarrow> fault + (ServerData \<times> SettingsState)" where
  "changeServer C scm countryCode cityName entryCountryCode entryCityName s =
     (if m_exitCountryCode (fst s) = countryCode \<and> m_exitCityName (fst s) = cityName \<and>
         m_entryCountryCode (fst s) = entryCountryCode \<and> m_entryCityName (fst s) = entryCityName
      then Inr s
      else sd_update C scm countryCode cityName entryCountryCode entryCityName s)"

definition fromSettings ::
    "json_codec \<Rightarrow> ServerCountryModel \<Rightarrow> ServerData \<times> SettingsState \<Rightarrow> fault + (bool \<times> ServerData \<times> SettingsState)" where
  "fromSettings C scm s =
     (let (d, st) = s in
      if \<not> m_initialized d then Inl Assertion_failed
      else if Setting_isSet currentServerCountryCodeDeprecated st \<and> Setting_isSet currentServerCityDeprecated st then
        (case sd_update C scm (vToString (Setting_get currentServerCountryCodeDeprecated st))
                (vToString (Setting_get currentServerCityDeprecated st))
                (vToString (Setting_get entryServerCountryCodeDeprecated st))
                (vToString (Setting_get entryServerCityDeprecated st)) s of
           Inl f \<Rightarrow> Inl f
         | Inr (d, st) \<Rightarrow>
             if \<not> Setting_isSet serverDataSetting st then Inl Assertion_failed
             else
               let st = Setting_remove currentServerCountryCodeDeprecated st;
                   st = Setting_remove currentServerCityDeprecated st;
                   st = Setting_remove entryServerCountryCodeDeprecated st;
                   st = Setting_remove entryServerCityDeprecated st
               in Inr (True, d, st))
      else let (ok, d) = settingsChanged C scm st d in Inr (ok, d, st))"

definition forget :: "ServerData \<Rightarrow> ServerData" where
  "forget d = d\<lparr>m_exitCountryCode := [], m_exitCityName := [], m_exitCountryName := [],
     m_entryCountryCode := [], m_entryCityName := [], m_entryCountryName := [],
     m_previousExitCountryCode := [], m_previousExitCountryName := [], m_previousExitCityName := []\<rparr>"

subsection \<open>Server lists\<close>

fun server_list_loop :: "ServerCountryModel \<Rightarrow> (string \<Rightarrow> int) \<Rightarrow> int \<Rightarrow> string list \<Rightarrow> Server list" where
  "server_list_loop scm getCooldown now [] = []"
| "server_list_loop scm getCooldown now (pubkey # rest) =
     (let server = model_server scm pubkey in
      (if server_initialized server \<and> getCooldown pubkey \<le> now then [server] else []) @
      server_list_loop scm getCooldown now rest)"

definition getServerList ::
    "ServerCountryModel \<Rightarrow> (string \<Rightarrow> int) \<Rightarrow> int \<Rightarrow> string \<Rightarrow> string \<Rightarrow> Server list" where
  "getServerList scm getCooldown now countryCode cityName =
     server_list_loop scm getCooldown now (city_servers (findCity scm countryCode cityName))"

definition exitServers :: "ServerCountryModel \<Rightarrow> (string \<Rightarrow> int) \<Rightarrow> int \<Rightarrow> ServerData \<Rightarrow> Server list" where
  "exitServers scm getCooldown now d = getServerList scm getCooldown now (m_exitCountryCode d) (m_exitCityName d)"

definition entryServers :: "ServerCountryModel \<Rightarrow> (string \<Rightarrow> int) \<Rightarrow> int \<Rightarrow> ServerData \<Rightarrow> Server list" where
  "entryServers scm getCooldown now d =
     (if \<not> multihop d then exitServers scm getCooldown now d
      else getServerList scm getCooldown now (m_entryCountryCode d) (m_entryCityName d))"

fun backup_loop :: "string \<Rightarrow> Server list \<Rightarrow> Server list \<Rightarrow> Server list" where
  "backup_loop currentPublicKey [] acc = acc"
| "backup_loop currentPublicKey (item # rest) acc =
     (if qtext (m_publicKey item) \<noteq> currentPublicKey then
        (let acc = acc @ [item] in if length acc \<ge> 3 then acc else backup_loop currentPublicKey rest acc)
      else backup_loop currentPublicKey rest acc)"

definition backupServers ::
    "ServerCountryModel \<Rightarrow> (string \<Rightarrow> int) \<Rightarrow> int \<Rightarrow> ServerData \<Rightarrow> string \<Rightarrow> Server list" where
  "backupServers scm getCooldown now d currentPublicKey =
     backup_loop currentPublicKey (exitServers scm getCooldown now d) []"

subsection \<open>Facts\<close>

lemma server_list_loop_eq:
  "server_list_loop scm cd now ks =
     map (model_server scm) (filter (\<lambda>k. server_initialized (model_server scm k) \<and> cd k \<le> now) ks)"
  by (induction ks) (simp_all add: Let_def)

lemma backup_loop_eq:
  "length acc < 3 \<Longrightarrow> backup_loop k xs acc = acc @ take (3 - length acc) (filter (\<lambda>s. qtext (m_publicKey s) \<noteq> k) xs)"
proof (induction xs arbitrary: acc)
  case (Cons x xs)
  then show ?case
    by (cases "length acc = 2") (auto simp: Let_def take_Cons' numeral_3_eq_3)
qed simp

lemma serverDataJson_values:
  "jValue (serverDataJson scm a b c d) ''exit_country_code'' = Some (JString a)"
  "jValue (serverDataJson scm a b c d) ''exit_country_name'' = Some (JString (countryName scm a))"
  "jValue (serverDataJson scm a b c d) ''exit_city_name'' = Some (JString b)"
  "jValue (serverDataJson scm a b c d) ''enter_country_code'' = Some (JString c)"
  "jValue (serverDataJson scm a b c d) ''enter_country_name'' = Some (JString (countryName scm c))"
  "jValue (serverDataJson scm a b c d) ''enter_city_name'' = Some (JString d)"
  by (simp_all add: serverDataJson_def)

lemma settingsChanged_written:
  assumes "reads_back C (serverDataJson scm a b c e)"
    and "Setting_isSet serverDataSetting st"
    and "Setting_get serverDataSetting st = VBytes (jsonToText C (serverDataJson scm a b c e))"
  shows "settingsChanged C scm st d =
    (True, d\<lparr>m_exitCountryCode := a, m_exitCityName := b, m_exitCountryName := countryName scm a,
            m_entryCountryCode := c, m_entryCityName := e, m_entryCountryName := countryName scm c\<rparr>)"
proof -
  obtain ob where "jsonFromText C (jsonToText C (serverDataJson scm a b c e)) = Some (JObject ob)"
      "\<forall>k. jValue ob k = jValue (serverDataJson scm a b c e) k"
    using reads_backD [OF assms(1)] by blast
  then show ?thesis
    using assms(2,3) by (simp add: settingsChanged_def jText_def serverDataJson_values)
qed

text \<open>
  \<open>update\<close> records the name of the \<^emph>\<open>new\<close> country as the previous one, next to the code and
  the city of the old location.
\<close>

lemma update_previous_name_is_new_name:
  assumes "sd_update C scm a b c e (d, st) = Inr (d', st')"
  shows "m_previousExitCountryName d' = countryName scm a" "m_previousExitCountryCode d' = m_exitCountryCode d"
    "m_previousExitCityName d' = m_exitCityName d"
  using assms by (auto simp: sd_update_def settingsChanged_def holder_set_def Let_def split: if_splits)

subsection \<open>Properties\<close>

text \<open>
  Choosing a location takes effect and is persisted: \<open>update\<close> on an initialised object with a
  location other than the stored one sets the exit and entry codes, cities and names, keeps the old
  exit as the previous one, and an object read from the settings afterwards has the same location.
\<close>

theorem sd_update_persists:
  assumes "m_initialized d"
    and "reads_back C (serverDataJson scm exitCountry exitCity entryCountry entryCity)"
    and "\<not> Setting_isSet serverDataSetting st \<or> Setting_get serverDataSetting st \<noteq>
           VBytes (jsonToText C (serverDataJson scm exitCountry exitCity entryCountry entryCity))"
  shows "\<exists>d' st'. sd_update C scm exitCountry exitCity entryCountry entryCity (d, st) = Inr (d', st') \<and>
    m_exitCountryCode d' = exitCountry \<and> m_exitCityName d' = exitCity \<and>
    m_entryCountryCode d' = entryCountry \<and> m_entryCityName d' = entryCity \<and>
    m_exitCountryName d' = countryName scm exitCountry \<and>
    m_previousExitCountryCode d' = m_exitCountryCode d \<and> m_previousExitCityName d' = m_exitCityName d \<and>
    (\<forall>d0. \<exists>d1. settingsChanged C scm st' d0 = (True, d1) \<and>
       m_exitCountryCode d1 = exitCountry \<and> m_exitCityName d1 = exitCity \<and>
       m_entryCountryCode d1 = entryCountry \<and> m_entryCityName d1 = entryCity)"
proof -
  let ?v = "VBytes (jsonToText C (serverDataJson scm exitCountry exitCity entryCountry entryCity))"
  let ?st = "Setting_set serverDataSetting ?v st"
  have ann: "length (m_changed st) < length (m_changed ?st)"
    using assms(3) by (auto simp: Setting_set_def emit_changed_def setValue_def)
  note sc = settingsChanged_written [OF assms(2) Setting_isSet_set_same, of ?v st]
  show ?thesis
    using assms(1) ann by (auto simp: sd_update_def holder_set_def sc)
qed

definition exampleCodec :: json_codec where
  "exampleCodec = \<lparr>jsonToText = (\<lambda>_. ''text''),
     jsonFromText = (\<lambda>_. Some (JObject (serverDataJson emptyModel ''se'' ''Malmo'' [] [])))\<rparr>"

theorem sd_update_persists_witness:
  "\<exists>d' st'. sd_update exampleCodec emptyModel ''se'' ''Malmo'' [] [] (emptyServerData\<lparr>m_initialized := True\<rparr>, exampleSettings) =
      Inr (d', st') \<and> m_exitCountryCode d' = ''se''"
proof -
  have "reads_back exampleCodec (serverDataJson emptyModel ''se'' ''Malmo'' [] [])"
    by (simp add: reads_back_def exampleCodec_def)
  moreover have "\<not> Setting_isSet serverDataSetting exampleSettings"
    by (simp add: Setting_isSet_def store_contains_def exampleSettings_def)
  ultimately show ?thesis
    using sd_update_persists [of "emptyServerData\<lparr>m_initialized := True\<rparr>" exampleCodec emptyModel "''se''" "''Malmo''" "[]" "[]" exampleSettings]
    by auto
qed

text \<open>
  The servers of a location are the initialised servers of its city whose cooldown is over, and
  the backup servers are the first three of them that are not the current one, in the same order.
\<close>

theorem server_lists_filtered:
  "exitServers scm getCooldown now d =
     map (model_server scm) (filter (\<lambda>k. server_initialized (model_server scm k) \<and> getCooldown k \<le> now)
       (city_servers (findCity scm (m_exitCountryCode d) (m_exitCityName d)))) \<and>
   backupServers scm getCooldown now d current =
     take 3 (filter (\<lambda>s. qtext (m_publicKey s) \<noteq> current) (exitServers scm getCooldown now d))"
  using backup_loop_eq [of "[]" current]
  by (simp add: exitServers_def getServerList_def server_list_loop_eq backupServers_def)

end
