(* ===== verification/IP_Address.thy ===== *)
theory IP_Address
  imports WG_Prelude
begin

text \<open>
  \<^verbatim>\<open>src/src/utils/ipaddress.cpp\<close>, \<^verbatim>\<open>ipaddress.h\<close> and the address blocks of
  \<^verbatim>\<open>src/src/utils/rfc/\<close>: CIDR blocks, their masks, containment, splitting, and the exclusion
  of a list of blocks from another.

  An IPv4 address is a \<open>32 word\<close> (\<open>quint32\<close>), an IPv6 address the sixteen bytes of a
  \<open>Q_IPV6ADDR\<close>; the operations are the shifts, masks and byte loops of the code.  The
  specification side is \<open>addr_bits\<close> (the bits of an address, most significant first) and
  \<open>block\<close> (the set of addresses a CIDR block denotes).  Both address families satisfy the
  contract of the locale \<open>addr_family\<close>, where the facts about prefixes are proved once.
  \<open>Q_ASSERT\<close> failures are the result \<open>None\<close>.
\<close>

subsection \<open>Addresses\<close>

datatype Protocol = IPv4Protocol | IPv6Protocol | UnknownNetworkLayerProtocol

datatype QHostAddress = NullAddress | IPv4Address "32 word" | IPv6Address bytes

fun protocol :: "QHostAddress \<Rightarrow> Protocol" where
  "protocol NullAddress = UnknownNetworkLayerProtocol"
| "protocol (IPv4Address w) = IPv4Protocol"
| "protocol (IPv6Address bs) = IPv6Protocol"

text \<open>
  The parts of Qt the code calls for addresses and numbers, as arguments of the model:
  the constructor \<open>QHostAddress(QString)\<close>, \<open>parseSubnet\<close>, \<open>toString\<close>,
  \<open>isLoopback\<close>, the decimal rendering of an \<open>int\<close>, and \<open>QString::toInt(&ok)\<close> (\<open>None\<close>
  when \<open>ok\<close> is false).
\<close>

record qt_net =
  qHostAddress :: "string \<Rightarrow> QHostAddress"
  qParseSubnet :: "string \<Rightarrow> QHostAddress \<times> int"
  qAddrToString :: "QHostAddress \<Rightarrow> string"
  qIsLoopback :: "QHostAddress \<Rightarrow> bool"
  qNumber :: "int \<Rightarrow> string"
  qToInt :: "string \<Rightarrow> int option"

record IPAddress =
  m_address :: QHostAddress
  m_prefixLength :: int

subsection \<open>Constructors\<close>

text \<open>The constructor from text; \<open>None\<close> is the \<open>Q_ASSERT(false)\<close> of its last branch.\<close>

definition IPAddress_fromString :: "qt_net \<Rightarrow> string \<Rightarrow> IPAddress option" where
  "IPAddress_fromString Q ip =
     (let (address, prefixLength) =
            (if CHR ''/'' \<in> set ip then qParseSubnet Q ip else (qHostAddress Q ip, 999999))
      in case protocol address of
           IPv4Protocol \<Rightarrow>
             Some \<lparr>m_address = address, m_prefixLength = (if prefixLength \<ge> 32 then 32 else prefixLength)\<rparr>
         | IPv6Protocol \<Rightarrow>
             Some \<lparr>m_address = address, m_prefixLength = (if prefixLength \<ge> 128 then 128 else prefixLength)\<rparr>
         | UnknownNetworkLayerProtocol \<Rightarrow> None)"

definition IPAddress_fromAddress :: "QHostAddress \<Rightarrow> IPAddress option" where
  "IPAddress_fromAddress address =
     (if protocol address = IPv4Protocol then Some \<lparr>m_address = address, m_prefixLength = 32\<rparr>
      else if protocol address = IPv6Protocol then Some \<lparr>m_address = address, m_prefixLength = 128\<rparr>
      else None)"

definition IPAddress_fromPrefix :: "QHostAddress \<Rightarrow> int \<Rightarrow> IPAddress option" where
  "IPAddress_fromPrefix address prefixLength =
     (if (if protocol address = IPv4Protocol then 0 \<le> prefixLength \<and> prefixLength \<le> 32
          else protocol address = IPv6Protocol \<and> 0 \<le> prefixLength \<and> prefixLength \<le> 128)
      then Some \<lparr>m_address = address, m_prefixLength = prefixLength\<rparr> else None)"

definition ip_type :: "IPAddress \<Rightarrow> Protocol" where
  "ip_type ip = protocol (m_address ip)"

definition ip_toString :: "qt_net \<Rightarrow> IPAddress \<Rightarrow> string" where
  "ip_toString Q ip = qAddrToString Q (m_address ip) @ ''/'' @ qNumber Q (m_prefixLength ip)"

subsection \<open>Masks\<close>

definition netmask :: "IPAddress \<Rightarrow> QHostAddress" where
  "netmask ip = (case m_address ip of
       IPv6Address _ \<Rightarrow>
         (let p = nat (m_prefixLength ip);
              raw = memset (replicate 16 0) 0 0xFF (p div 8)
          in IPv6Address (if p mod 8 \<noteq> 0 then raw[p div 8 := 0xFF XOR drop_bit (p mod 8) 0xFF] else raw))
     | IPv4Address _ \<Rightarrow>
         (let p = nat (m_prefixLength ip)
          in IPv4Address (if p < 32 then 0xffffffff XOR drop_bit p 0xffffffff else 0xffffffff))
     | NullAddress \<Rightarrow> NullAddress)"

definition hostmask :: "IPAddress \<Rightarrow> QHostAddress" where
  "hostmask ip = (case m_address ip of
       IPv6Address _ \<Rightarrow>
         (let p = nat (m_prefixLength ip); offset = (p + 7) div 8;
              raw = memset (replicate 16 0) offset 0xFF (16 - offset)
          in IPv6Address (if p mod 8 \<noteq> 0 then raw[p div 8 := drop_bit (p mod 8) 0xFF] else raw))
     | IPv4Address _ \<Rightarrow>
         (let p = nat (m_prefixLength ip)
          in IPv4Address (if p < 32 then drop_bit p 0xffffffff else 0))
     | NullAddress \<Rightarrow> NullAddress)"

definition broadcastAddress :: "IPAddress \<Rightarrow> QHostAddress" where
  "broadcastAddress ip = (case m_address ip of
       IPv6Address bs \<Rightarrow>
         (let p = nat (m_prefixLength ip); offset = (p + 7) div 8;
              raw = memset bs offset 0xFF (16 - offset)
          in IPv6Address (if p mod 8 \<noteq> 0
               then raw[p div 8 := raw ! (p div 8) OR drop_bit (p mod 8) 0xFF] else raw))
     | IPv4Address w \<Rightarrow>
         (let p = nat (m_prefixLength ip)
          in IPv4Address (if p < 32 then w OR drop_bit p 0xffffffff else w))
     | NullAddress \<Rightarrow> NullAddress)"

subsection \<open>Containment\<close>

text \<open>The two halves of \<open>contains\<close>: the byte-wise comparison and the word comparison.\<close>

definition containsV6 :: "bytes \<Rightarrow> bytes \<Rightarrow> int \<Rightarrow> bool" where
  "containsV6 a b prefixLength =
     (let bytes = nat (prefixLength div 8) in
      if bytes > 0 \<and> take bytes a \<noteq> take bytes b then False
      else if prefixLength mod 8 \<noteq> 0
        then drop_bit (nat (8 - prefixLength mod 8)) (a ! bytes XOR b ! bytes) = 0
      else True)"

definition containsV4 :: "32 word \<Rightarrow> 32 word \<Rightarrow> int \<Rightarrow> bool" where
  "containsV4 a b prefixLength =
     (let diff = a XOR b;
          diff = (if prefixLength < 32 then drop_bit (nat (32 - prefixLength)) diff else diff)
      in diff = 0)"

definition ip_contains :: "IPAddress \<Rightarrow> QHostAddress \<Rightarrow> bool" where
  "ip_contains ip address =
     (if protocol address \<noteq> protocol (m_address ip) then False
      else if m_prefixLength ip = 0 then True
      else case (m_address ip, address) of
             (IPv6Address a, IPv6Address b) \<Rightarrow> containsV6 a b (m_prefixLength ip)
           | (IPv4Address a, IPv4Address b) \<Rightarrow> containsV4 a b (m_prefixLength ip)
           | _ \<Rightarrow> False)"

definition overlaps :: "IPAddress \<Rightarrow> IPAddress \<Rightarrow> bool" where
  "overlaps ip other =
     (if m_prefixLength ip < m_prefixLength other then ip_contains ip (m_address other)
      else ip_contains other (m_address ip))"

definition subnetOf :: "IPAddress \<Rightarrow> IPAddress \<Rightarrow> bool" where
  "subnetOf ip other =
     (if protocol (m_address other) \<noteq> protocol (m_address ip) then False
      else if m_prefixLength ip < m_prefixLength other then False
      else ip_contains other (m_address ip))"

definition ip_equal :: "IPAddress \<Rightarrow> IPAddress \<Rightarrow> bool" where
  "ip_equal ip other \<longleftrightarrow> m_address ip = m_address other \<and> m_prefixLength ip = m_prefixLength other"

subsection \<open>Splitting and exclusion\<close>

definition setBitV4 :: "32 word \<Rightarrow> int \<Rightarrow> 32 word" where
  "setBitV4 w p = w OR drop_bit (nat p) 0x80000000"

definition setBitV6 :: "bytes \<Rightarrow> int \<Rightarrow> bytes" where
  "setBitV6 bs p =
     bs[nat (p div 8) := bs ! nat (p div 8) OR drop_bit (nat (p mod 8)) 0x80]"

definition subnets :: "IPAddress \<Rightarrow> IPAddress list option" where
  "subnets ip = (case m_address ip of
       IPv4Address w \<Rightarrow>
         (if m_prefixLength ip \<ge> 32 then Some [ip]
          else Some [\<lparr>m_address = IPv4Address w, m_prefixLength = m_prefixLength ip + 1\<rparr>,
                     \<lparr>m_address = IPv4Address (setBitV4 w (m_prefixLength ip)),
                      m_prefixLength = m_prefixLength ip + 1\<rparr>])
     | IPv6Address bs \<Rightarrow>
         (if m_prefixLength ip \<ge> 128 then Some [ip]
          else Some [\<lparr>m_address = IPv6Address bs, m_prefixLength = m_prefixLength ip + 1\<rparr>,
                     \<lparr>m_address = IPv6Address (setBitV6 bs (m_prefixLength ip)),
                      m_prefixLength = m_prefixLength ip + 1\<rparr>])
     | NullAddress \<Rightarrow> None)"

lemma subnets_two_prefix:
  "subnets ip = Some [a, b] \<Longrightarrow> m_prefixLength ip < 128 \<and>
     m_prefixLength a = m_prefixLength ip + 1 \<and> m_prefixLength b = m_prefixLength ip + 1"
  by (auto simp: subnets_def split: QHostAddress.splits if_splits)

text \<open>
  The \<open>while\<close> loop of the member function \<open>excludeAddresses\<close>.  A list \<open>sn\<close> that is
  shorter than two entries and a block \<open>ip\<close> that is in neither half are assertion failures
  (\<open>None\<close>).
\<close>

function exclude_loop ::
    "IPAddress \<Rightarrow> IPAddress \<Rightarrow> IPAddress \<Rightarrow> IPAddress list \<Rightarrow> IPAddress list option" where
  "exclude_loop sn0 sn1 ip result =
     (if \<not> ip_equal sn0 ip \<and> \<not> ip_equal sn1 ip then
        (if subnetOf ip sn0 then
           (case subnets sn0 of Some [a, b] \<Rightarrow> exclude_loop a b ip (result @ [sn1]) | _ \<Rightarrow> None)
         else if subnetOf ip sn1 then
           (case subnets sn1 of Some [a, b] \<Rightarrow> exclude_loop a b ip (result @ [sn0]) | _ \<Rightarrow> None)
         else None)
      else if ip_equal sn0 ip then Some (result @ [sn1])
      else if ip_equal sn1 ip then Some (result @ [sn0])
      else None)"
  by pat_completeness auto
termination
  by (relation "measure (\<lambda>(sn0, sn1, ip, result).
        nat (129 - min (m_prefixLength sn0) (m_prefixLength sn1)))")
     (auto dest!: subnets_two_prefix simp: min_def nat_less_iff)

declare exclude_loop.simps [simp del]

definition ip_excludeAddress :: "IPAddress \<Rightarrow> IPAddress \<Rightarrow> IPAddress list option" where
  "ip_excludeAddress self ip =
     (case subnets self of Some [a, b] \<Rightarrow> exclude_loop a b ip [] | _ \<Rightarrow> None)"

fun exclude_from_all :: "IPAddress \<Rightarrow> IPAddress list \<Rightarrow> IPAddress list option" where
  "exclude_from_all exclude [] = Some []"
| "exclude_from_all exclude (ip # ips) =
     (case exclude_from_all exclude ips of
        None \<Rightarrow> None
      | Some rest \<Rightarrow>
          (if \<not> overlaps ip exclude then Some (ip # rest)
           else if subnetOf exclude ip \<and> \<not> ip_equal exclude ip then
             (case ip_excludeAddress ip exclude of None \<Rightarrow> None | Some newRange \<Rightarrow> Some (newRange @ rest))
           else Some rest))"

fun excludeAddresses :: "IPAddress list \<Rightarrow> IPAddress list \<Rightarrow> IPAddress list option" where
  "excludeAddresses results [] = Some results"
| "excludeAddresses results (exclude # excludeList) =
     (case exclude_from_all exclude results of
        None \<Rightarrow> None
      | Some newResults \<Rightarrow> excludeAddresses newResults excludeList)"

subsection \<open>Reserved blocks\<close>

definition RFC1918_ipv4 :: "qt_net \<Rightarrow> IPAddress option list" where
  "RFC1918_ipv4 Q = map (IPAddress_fromString Q) [''10.0.0.0/8'', ''172.16.0.0/12'', ''192.168.0.0/16'']"

definition RFC4193_ipv6 :: "qt_net \<Rightarrow> IPAddress option list" where
  "RFC4193_ipv6 Q = map (IPAddress_fromString Q) [''fc00::/7'']"

fun any_contains :: "IPAddress option list \<Rightarrow> QHostAddress \<Rightarrow> bool" where
  "any_contains [] ip = False"
| "any_contains (addr # list) ip =
     (if (case addr of None \<Rightarrow> False | Some a \<Rightarrow> ip_contains a ip) then True else any_contains list ip)"

definition RFC1918_contains :: "qt_net \<Rightarrow> QHostAddress \<Rightarrow> bool" where
  "RFC1918_contains Q ip = any_contains (RFC1918_ipv4 Q) ip"

definition RFC4193_contains :: "qt_net \<Rightarrow> QHostAddress \<Rightarrow> bool" where
  "RFC4193_contains Q ip = any_contains (RFC4193_ipv6 Q) ip"

definition lanAddressRanges :: "qt_net \<Rightarrow> IPAddress option list" where
  "lanAddressRanges Q =
     RFC1918_ipv4 Q @ RFC4193_ipv6 Q
     @ [IPAddress_fromString Q ''fe80::/10'']
     @ [IPAddress_fromString Q ''224.0.0.0/4'']
     @ [IPAddress_fromString Q ''ff00::/8'']"

subsection \<open>The contract of an address family\<close>

text \<open>
  What the block operations rely on: addresses are bit strings of a fixed width, the comparison
  \<open>agree a b p\<close> looks at the first \<open>p\<close> bits, and \<open>setbit a p\<close> sets bit \<open>p\<close>.
\<close>

locale addr_family =
  fixes abits :: "'a \<Rightarrow> bool list" and awidth :: nat and awf :: "'a \<Rightarrow> bool"
    and agree :: "'a \<Rightarrow> 'a \<Rightarrow> int \<Rightarrow> bool" and setbit :: "'a \<Rightarrow> int \<Rightarrow> 'a"
  assumes abits_length: "awf a \<Longrightarrow> length (abits a) = awidth"
    and abits_inject: "awf a \<Longrightarrow> awf b \<Longrightarrow> abits a = abits b \<Longrightarrow> a = b"
    and agree_iff: "awf a \<Longrightarrow> awf b \<Longrightarrow> p \<le> awidth \<Longrightarrow>
          agree a b (int p) \<longleftrightarrow> take p (abits a) = take p (abits b)"
    and setbit_bits: "awf a \<Longrightarrow> p < awidth \<Longrightarrow> abits (setbit a (int p)) = (abits a)[p := True]"
    and setbit_wf: "awf a \<Longrightarrow> awf (setbit a (int p))"
begin

lemma agree_narrow:
  "awf a \<Longrightarrow> awf b \<Longrightarrow> q \<le> p \<Longrightarrow> p \<le> awidth \<Longrightarrow> agree a b (int p) \<Longrightarrow> agree a b (int q)"
  by (simp add: agree_iff) (metis min.absorb1 take_take)

lemma agree_trans:
  "awf a \<Longrightarrow> awf b \<Longrightarrow> awf c \<Longrightarrow> p \<le> awidth \<Longrightarrow>
     agree a b (int p) \<Longrightarrow> agree b c (int p) \<Longrightarrow> agree a c (int p)"
  by (simp add: agree_iff)

text \<open>A block whose bit \<open>p\<close> is clear is the disjoint union of its two halves.\<close>

lemma agree_halves:
  assumes "awf a" "awf b" "p < awidth" "\<not> abits a ! p"
  shows "agree a b (int p) \<longleftrightarrow>
           agree a b (int (Suc p)) \<or> agree (setbit a (int p)) b (int (Suc p))"
    and "\<not> (agree a b (int (Suc p)) \<and> agree (setbit a (int p)) b (int (Suc p)))"
proof -
  have len: "length (abits a) = awidth" "length (abits b) = awidth"
    using assms abits_length by auto
  have a1: "agree a b (int (Suc p)) \<longleftrightarrow> take p (abits a) = take p (abits b) \<and> \<not> abits b ! p"
    using assms len by (simp only: agree_iff) (auto simp: take_Suc_conv_app_nth)
  have "agree (setbit a (int p)) b (int (Suc p)) \<longleftrightarrow>
      take (Suc p) ((abits a)[p := True]) = take (Suc p) (abits b)"
    using assms setbit_wf [of a p] by (simp only: agree_iff setbit_bits Suc_leI)
  then have a2: "agree (setbit a (int p)) b (int (Suc p)) \<longleftrightarrow>
      take p (abits a) = take p (abits b) \<and> abits b ! p"
    using assms len by (auto simp: take_Suc_conv_app_nth)
  show "agree a b (int p) \<longleftrightarrow> agree a b (int (Suc p)) \<or> agree (setbit a (int p)) b (int (Suc p))"
    unfolding a1 a2 using assms by (auto simp: agree_iff)
  show "\<not> (agree a b (int (Suc p)) \<and> agree (setbit a (int p)) b (int (Suc p)))"
    unfolding a1 a2 by auto
qed

end

lemma mask_literals:
  "(0xffffffff :: 32 word) = - 1" "(0xFF :: 8 word) = - 1"
  "(0x80000000 :: 32 word) = push_bit (LENGTH(32) - 1) 1" "(0x80 :: 8 word) = push_bit (LENGTH(8) - 1) 1"
  by simp_all

lemma containsV4_iff: "p \<le> 32 \<Longrightarrow> containsV4 a b (int p) \<longleftrightarrow> take p (wbits a) = take p (wbits b)"
  using drop_bit_xor_zero_iff [of p a b]
  by (auto simp: containsV4_def Let_def nat_diff_distrib)

lemma containsV6_iff:
  assumes "length a = 16" "length b = 16" "p \<le> 128"
  shows "containsV6 a b (int p) \<longleftrightarrow> take p (bytes_bits a) = take p (bytes_bits b)"
proof (cases "p = 128")
  case True
  then show ?thesis using assms by (simp add: containsV6_def bytes_bits_inject)
next
  case False
  then have p: "p < 128" using assms by simp
  have "int p div 8 = int (p div 8)" "int p mod 8 = int (p mod 8)"
    by (simp_all add: zdiv_int zmod_int)
  then have c: "containsV6 a b (int p) \<longleftrightarrow> take (p div 8) a = take (p div 8) b \<and>
      (p mod 8 \<noteq> 0 \<longrightarrow> drop_bit (8 - p mod 8) (a ! (p div 8) XOR b ! (p div 8)) = 0)"
    by (auto simp: containsV6_def Let_def nat_diff_distrib)
  have d: "drop_bit (8 - p mod 8) (a ! (p div 8) XOR b ! (p div 8)) = 0 \<longleftrightarrow>
      take (p mod 8) (wbits (a ! (p div 8))) = take (p mod 8) (wbits (b ! (p div 8)))"
    using drop_bit_xor_zero_iff [of "p mod 8" "a ! (p div 8)" "b ! (p div 8)"] by simp
  have "take p (bytes_bits a) = take p (bytes_bits b) \<longleftrightarrow>
      take (p div 8) a = take (p div 8) b \<and>
      take (p mod 8) (wbits (a ! (p div 8))) = take (p mod 8) (wbits (b ! (p div 8)))"
    using p assms by (simp add: take_bytes_bits bytes_bits_inject)
  then show ?thesis unfolding c d by auto
qed

lemma setBitV6_bits:
  assumes "length bs = 16" "p < 128"
  shows "bytes_bits (setBitV6 bs (int p)) = (bytes_bits bs)[p := True]"
proof -
  have "nat (int p div 8) = p div 8" "nat (int p mod 8) = p mod 8"
    by (simp_all add: nat_div_distrib nat_mod_distrib)
  then show ?thesis
    using assms wbits_or_msb [of "p mod 8" "bs ! (p div 8)"]
    by (simp add: setBitV6_def mask_literals bytes_bits_update del: push_bit_of_1)
qed

interpretation v4: addr_family wbits 32 "\<lambda>_. True" containsV4 setBitV4
proof unfold_locales
  fix a :: "32 word" and p :: nat
  assume "p < 32"
  then show "wbits (setBitV4 a (int p)) = (wbits a)[p := True]"
    using wbits_or_msb [of p a] by (simp add: setBitV4_def mask_literals del: push_bit_of_1)
qed (simp_all add: containsV4_iff)

interpretation v6: addr_family bytes_bits 128 "\<lambda>bs. length bs = 16" containsV6 setBitV6
proof unfold_locales
  fix a :: bytes and p :: nat
  assume "length a = 16" "p < 128"
  then show "bytes_bits (setBitV6 a (int p)) = (bytes_bits a)[p := True]"
    by (rule setBitV6_bits)
qed (simp_all add: containsV6_iff bytes_bits_inject setBitV6_def)

subsection \<open>Blocks as sets of addresses\<close>

fun addr_bits :: "QHostAddress \<Rightarrow> bool list" where
  "addr_bits NullAddress = []"
| "addr_bits (IPv4Address w) = wbits w"
| "addr_bits (IPv6Address bs) = bytes_bits bs"

fun wf_addr :: "QHostAddress \<Rightarrow> bool" where
  "wf_addr NullAddress = False"
| "wf_addr (IPv4Address w) = True"
| "wf_addr (IPv6Address bs) = (length bs = 16)"

fun addr_width :: "Protocol \<Rightarrow> nat" where
  "addr_width IPv4Protocol = 32"
| "addr_width IPv6Protocol = 128"
| "addr_width UnknownNetworkLayerProtocol = 0"

definition wf_ip :: "IPAddress \<Rightarrow> bool" where
  "wf_ip ip \<longleftrightarrow> wf_addr (m_address ip) \<and> 0 \<le> m_prefixLength ip \<and>
     m_prefixLength ip \<le> int (addr_width (protocol (m_address ip)))"

definition block :: "IPAddress \<Rightarrow> QHostAddress set" where
  "block ip = {a. wf_addr a \<and> protocol a = protocol (m_address ip) \<and>
     take (nat (m_prefixLength ip)) (addr_bits a) = take (nat (m_prefixLength ip)) (addr_bits (m_address ip))}"

definition blocks :: "IPAddress list \<Rightarrow> QHostAddress set" where
  "blocks ips = (\<Union>ip\<in>set ips. block ip)"

text \<open>The host part of a canonical block is zero, as in the network prefix a subnet parser answers.\<close>

definition canonical :: "IPAddress \<Rightarrow> bool" where
  "canonical ip \<longleftrightarrow> wf_ip ip \<and>
     drop (nat (m_prefixLength ip)) (addr_bits (m_address ip)) =
       replicate (addr_width (protocol (m_address ip)) - nat (m_prefixLength ip)) False"

definition disjoint_blocks :: "IPAddress list \<Rightarrow> bool" where
  "disjoint_blocks ips \<longleftrightarrow> sorted_wrt (\<lambda>a b. block a \<inter> block b = {}) ips"

lemma length_addr_bits: "wf_addr a \<Longrightarrow> length (addr_bits a) = addr_width (protocol a)"
  by (cases a) auto

lemma addr_bits_inject:
  "wf_addr a \<Longrightarrow> wf_addr b \<Longrightarrow> protocol a = protocol b \<Longrightarrow> addr_bits a = addr_bits b \<longleftrightarrow> a = b"
  by (cases a; cases b) (auto simp: bytes_bits_inject)

lemma ip_equal_iff [simp]: "ip_equal a b \<longleftrightarrow> a = b"
  by (auto simp: ip_equal_def)

lemma canonical_wf: "canonical ip \<Longrightarrow> wf_ip ip"
  by (simp add: canonical_def)

lemma wf_ip_addr: "wf_ip ip \<Longrightarrow> wf_addr (m_address ip)"
  by (simp add: wf_ip_def)

lemma wf_ip_nat: "wf_ip ip \<Longrightarrow> \<exists>p. m_prefixLength ip = int p \<and> p \<le> addr_width (protocol (m_address ip))"
  by (auto simp: wf_ip_def intro: exI [of _ "nat (m_prefixLength ip)"])

lemma ip_contains_iff_block:
  assumes "wf_ip ip" "wf_addr a"
  shows "ip_contains ip a \<longleftrightarrow> a \<in> block ip"
proof -
  obtain p where p: "m_prefixLength ip = int p" "p \<le> addr_width (protocol (m_address ip))"
    using wf_ip_nat [OF assms(1)] by blast
  show ?thesis
    using assms p
    by (cases "m_address ip"; cases a)
       (auto simp: ip_contains_def block_def wf_ip_def v4.agree_iff v6.agree_iff)
qed

lemma self_in_block: "wf_ip ip \<Longrightarrow> m_address ip \<in> block ip"
  by (simp add: block_def wf_ip_def)

lemma subnetOf_iff:
  assumes "wf_ip x" "wf_ip y"
  shows "subnetOf x y \<longleftrightarrow> m_prefixLength y \<le> m_prefixLength x \<and> m_address x \<in> block y"
  using assms by (auto simp: subnetOf_def ip_contains_iff_block wf_ip_addr) (auto simp: block_def)

lemma block_mono:
  assumes "m_prefixLength y \<le> m_prefixLength x" "m_address x \<in> block y"
  shows "block x \<subseteq> block y"
proof
  fix a assume a: "a \<in> block x"
  have le: "nat (m_prefixLength y) \<le> nat (m_prefixLength x)" using assms(1) by simp
  have "take (nat (m_prefixLength y)) (addr_bits a) = take (nat (m_prefixLength y)) (addr_bits (m_address x))"
    using a le by (auto simp: block_def) (metis min.absorb1 take_take)
  then show "a \<in> block y" using a assms(2) by (auto simp: block_def)
qed

lemma subnetOf_block: "wf_ip x \<Longrightarrow> wf_ip y \<Longrightarrow> subnetOf x y \<Longrightarrow> block x \<subseteq> block y"
  by (simp add: subnetOf_iff block_mono)

text \<open>Two blocks that meet are nested: the longer prefix lies in the shorter one.\<close>

lemma blocks_nested:
  assumes "block x \<inter> block y \<noteq> {}" "wf_ip x" "m_prefixLength y \<le> m_prefixLength x"
  shows "m_address x \<in> block y"
proof -
  obtain a where a: "a \<in> block x" "a \<in> block y" using assms(1) by blast
  have le: "nat (m_prefixLength y) \<le> nat (m_prefixLength x)" using assms(3) by simp
  have "take (nat (m_prefixLength y)) (addr_bits a) = take (nat (m_prefixLength y)) (addr_bits (m_address x))"
    using a(1) le by (auto simp: block_def) (metis min.absorb1 take_take)
  then show ?thesis using a assms(2) by (auto simp: block_def wf_ip_def)
qed

lemma overlaps_iff_meet:
  assumes "wf_ip x" "wf_ip y"
  shows "overlaps x y \<longleftrightarrow> block x \<inter> block y \<noteq> {}"
proof (cases "m_prefixLength x < m_prefixLength y")
  case True
  then have "overlaps x y \<longleftrightarrow> m_address y \<in> block x"
    using assms by (simp add: overlaps_def ip_contains_iff_block wf_ip_addr)
  moreover have "m_address y \<in> block x \<longleftrightarrow> block x \<inter> block y \<noteq> {}"
    using True assms self_in_block [of y] blocks_nested [of y x] by (auto simp: Int_commute)
  ultimately show ?thesis by simp
next
  case False
  then have "overlaps x y \<longleftrightarrow> m_address x \<in> block y"
    using assms by (simp add: overlaps_def ip_contains_iff_block wf_ip_addr)
  moreover have "m_address x \<in> block y \<longleftrightarrow> block x \<inter> block y \<noteq> {}"
    using False assms self_in_block [of x] blocks_nested [of x y] by auto
  ultimately show ?thesis by simp
qed

lemma canonical_eqI:
  assumes "canonical x" "canonical y" "m_prefixLength x = m_prefixLength y" "m_address x \<in> block y"
  shows "x = y"
proof -
  have pr: "protocol (m_address x) = protocol (m_address y)"
    and "take (nat (m_prefixLength x)) (addr_bits (m_address x)) =
         take (nat (m_prefixLength x)) (addr_bits (m_address y))"
    using assms by (auto simp: block_def)
  moreover have "drop (nat (m_prefixLength x)) (addr_bits (m_address x)) =
      drop (nat (m_prefixLength x)) (addr_bits (m_address y))"
    using assms pr by (simp add: canonical_def)
  ultimately have "addr_bits (m_address x) = addr_bits (m_address y)"
    by (metis append_take_drop_id)
  with pr have "m_address x = m_address y"
    using assms by (simp add: canonical_def wf_ip_def addr_bits_inject)
  with assms(3) show ?thesis by simp
qed

lemma subnetOf_strict_longer:
  assumes "canonical x" "canonical y" "subnetOf x y" "x \<noteq> y"
  shows "m_prefixLength y < m_prefixLength x"
  using assms canonical_eqI [of x y] by (force simp: subnetOf_iff canonical_wf)

subsection \<open>Splitting a block\<close>

lemma block_v4:
  "p \<le> 32 \<Longrightarrow> block \<lparr>m_address = IPv4Address w, m_prefixLength = int p\<rparr> = IPv4Address ` {b. containsV4 w b (int p)}"
  by (auto simp: block_def v4.agree_iff image_iff elim!: protocol.elims)

lemma block_v6:
  "p \<le> 128 \<Longrightarrow> length bs = 16 \<Longrightarrow>
     block \<lparr>m_address = IPv6Address bs, m_prefixLength = int p\<rparr> =
       IPv6Address ` {b. length b = 16 \<and> containsV6 bs b (int p)}"
  by (auto simp: block_def v6.agree_iff image_iff elim!: protocol.elims)

lemma host_bit_clear:
  assumes "canonical ip" "m_prefixLength ip = int p" "p < addr_width (protocol (m_address ip))"
  shows "\<not> addr_bits (m_address ip) ! p"
proof -
  have "drop p (addr_bits (m_address ip)) ! 0 = addr_bits (m_address ip) ! (p + 0)"
    using assms by (intro nth_drop) (simp add: canonical_def wf_ip_def length_addr_bits)
  moreover have "drop p (addr_bits (m_address ip)) = replicate (addr_width (protocol (m_address ip)) - p) False"
    using assms by (simp add: canonical_def)
  ultimately show ?thesis using assms(3) by simp
qed

lemma canonical_half:
  assumes "canonical ip" "m_prefixLength ip = int p" "p < addr_width (protocol (m_address ip))"
    and "wf_addr x" "protocol x = protocol (m_address ip)"
    and "addr_bits x = addr_bits (m_address ip) \<or> addr_bits x = (addr_bits (m_address ip))[p := True]"
  shows "canonical \<lparr>m_address = x, m_prefixLength = int p + 1\<rparr>"
proof -
  let ?B = "addr_bits (m_address ip)" and ?W = "addr_width (protocol (m_address ip))"
  have "drop p ?B = replicate (?W - p) False"
    using assms by (simp add: canonical_def)
  then have "drop (Suc p) ?B = replicate (?W - Suc p) False"
    by (metis drop_Suc drop_tl tl_replicate diff_Suc_eq_diff_pred Suc_eq_plus1 diff_diff_left One_nat_def)
  then have "drop (Suc p) (addr_bits x) = replicate (?W - Suc p) False"
    using assms(6) by auto
  moreover have "nat (int p + 1) = Suc p" by simp
  ultimately show ?thesis
    using assms by (simp add: canonical_def wf_ip_def)
qed

lemma subnets_split:
  assumes can: "canonical ip" and lt: "m_prefixLength ip < int (addr_width (protocol (m_address ip)))"
  obtains a b where "subnets ip = Some [a, b]" "canonical a" "canonical b"
    "m_prefixLength a = m_prefixLength ip + 1" "m_prefixLength b = m_prefixLength ip + 1"
    "block a \<union> block b = block ip" "block a \<inter> block b = {}"
proof -
  obtain p where p: "m_prefixLength ip = int p"
    using wf_ip_nat [OF canonical_wf [OF can]] by blast
  have ipe: "ip = \<lparr>m_address = m_address ip, m_prefixLength = int p\<rparr>" using p by simp
  have clear: "\<not> addr_bits (m_address ip) ! p"
    using host_bit_clear [OF can p] lt p by simp
  show thesis
  proof (cases "m_address ip")
    case NullAddress
    with can show thesis by (simp add: canonical_def wf_ip_def)
  next
    case (IPv4Address w)
    let ?a = "\<lparr>m_address = IPv4Address w, m_prefixLength = int p + 1\<rparr>"
    let ?b = "\<lparr>m_address = IPv4Address (setBitV4 w (int p)), m_prefixLength = int p + 1\<rparr>"
    have lt': "p < 32" using lt p IPv4Address by simp
    note halves = v4.agree_halves [where a = w and p = p, simplified, OF lt']
    have "block ?a \<union> block ?b = block ip" "block ?a \<inter> block ?b = {}"
      using clear IPv4Address lt' halves block_v4 [of "Suc p"] ipe
      by (auto simp: block_v4 add.commute image_iff)
    moreover have "canonical ?a" "canonical ?b"
      by (rule canonical_half [OF can p], use IPv4Address lt' v4.setbit_bits [where a = w and p = p] in auto)+
    ultimately show thesis
      using IPv4Address p lt' by (intro that [of ?a ?b]) (auto simp: subnets_def)
  next
    case (IPv6Address bs)
    let ?a = "\<lparr>m_address = IPv6Address bs, m_prefixLength = int p + 1\<rparr>"
    let ?b = "\<lparr>m_address = IPv6Address (setBitV6 bs (int p)), m_prefixLength = int p + 1\<rparr>"
    have lt': "p < 128" and len: "length bs = 16"
      using lt p can IPv6Address by (auto simp: canonical_def wf_ip_def)
    note halves = v6.agree_halves [where a = bs and p = p, OF len _ lt']
    have "block ?a \<union> block ?b = block ip" "block ?a \<inter> block ?b = {}"
      using clear IPv6Address lt' len halves block_v6 [of "Suc p"] ipe v6.setbit_wf [where a = bs and p = p]
      by (auto simp: block_v6 add.commute image_iff)
    moreover have "canonical ?a" "canonical ?b"
      by (rule canonical_half [OF can p],
          use IPv6Address lt' len v6.setbit_bits [where a = bs and p = p] v6.setbit_wf [where a = bs and p = p] in auto)+
    ultimately show thesis
      using IPv6Address p lt' by (intro that [of ?a ?b]) (auto simp: subnets_def)
  qed
qed

lemma subnetOf_half:
  assumes "canonical ip" "canonical sn" "subnetOf ip sn" "ip \<noteq> sn"
  obtains a b where "subnets sn = Some [a, b]" "canonical a" "canonical b"
    "block a \<union> block b = block sn" "block a \<inter> block b = {}" "subnetOf ip a \<or> subnetOf ip b"
proof -
  have longer: "m_prefixLength sn < m_prefixLength ip"
    using subnetOf_strict_longer [OF assms] .
  have "protocol (m_address ip) = protocol (m_address sn)"
    using assms(3) by (auto simp: subnetOf_def split: if_splits)
  then have "m_prefixLength sn < int (addr_width (protocol (m_address sn)))"
    using longer assms(1) by (auto simp: canonical_def wf_ip_def)
  then obtain a b where ab: "subnets sn = Some [a, b]" "canonical a" "canonical b"
      "m_prefixLength a = m_prefixLength sn + 1" "m_prefixLength b = m_prefixLength sn + 1"
      "block a \<union> block b = block sn" "block a \<inter> block b = {}"
    using subnets_split [OF assms(2)] by metis
  have "m_address ip \<in> block a \<union> block b"
    using assms ab(6) by (simp add: subnetOf_iff canonical_wf)
  then have "subnetOf ip a \<or> subnetOf ip b"
    using ab longer assms(1) by (auto simp: subnetOf_iff canonical_wf)
  with ab show thesis by (intro that) auto
qed

lemma blocks_simps [simp]:
  "blocks [] = {}" "blocks (x # xs) = block x \<union> blocks xs" "blocks (xs @ ys) = blocks xs \<union> blocks ys"
  by (auto simp: blocks_def)

lemma disjoint_blocks_simps [simp]:
  "disjoint_blocks []"
  "disjoint_blocks (x # xs) \<longleftrightarrow> block x \<inter> blocks xs = {} \<and> disjoint_blocks xs"
  by (auto simp: disjoint_blocks_def blocks_def)

lemma disjoint_blocks_append [simp]:
  "disjoint_blocks (xs @ ys) \<longleftrightarrow> disjoint_blocks xs \<and> disjoint_blocks ys \<and> blocks xs \<inter> blocks ys = {}"
  by (induction xs) auto

lemma exclude_loop_correct:
  assumes "canonical sn0" "canonical sn1" "canonical ip"
    and "subnetOf ip sn0 \<or> subnetOf ip sn1" "block sn0 \<inter> block sn1 = {}"
  shows "\<exists>new. exclude_loop sn0 sn1 ip result = Some (result @ new) \<and> (\<forall>x\<in>set new. canonical x) \<and>
           blocks new = (block sn0 \<union> block sn1) - block ip \<and> disjoint_blocks new"
  using assms
proof (induction sn0 sn1 ip result rule: exclude_loop.induct)
  case (1 sn0 sn1 ip result)
  note wf = canonical_wf [OF "1.prems"(1)] canonical_wf [OF "1.prems"(2)] canonical_wf [OF "1.prems"(3)]
  consider (eq) "sn0 = ip \<or> sn1 = ip" | (lo) "sn0 \<noteq> ip" "sn1 \<noteq> ip" "subnetOf ip sn0"
    | (hi) "sn0 \<noteq> ip" "sn1 \<noteq> ip" "\<not> subnetOf ip sn0" "subnetOf ip sn1"
    using "1.prems"(4) by blast
  then show ?case
  proof cases
    case eq
    then show ?thesis
      using "1.prems" by (subst exclude_loop.simps) (auto simp: Int_commute)
  next
    case lo
    then obtain a b where ab: "subnets sn0 = Some [a, b]" "canonical a" "canonical b"
        "block a \<union> block b = block sn0" "block a \<inter> block b = {}" "subnetOf ip a \<or> subnetOf ip b"
      using subnetOf_half "1.prems" by metis
    obtain new where "exclude_loop a b ip (result @ [sn1]) = Some ((result @ [sn1]) @ new)"
        "\<forall>x\<in>set new. canonical x" "blocks new = (block a \<union> block b) - block ip" "disjoint_blocks new"
      using "1.IH"(1) [OF _ lo(3) ab(1) refl refl refl ab(2,3) "1.prems"(3) ab(6,5)] lo(1,2) by auto
    moreover have "block ip \<subseteq> block sn0" using lo wf by (simp add: subnetOf_block)
    ultimately show ?thesis
      using lo ab "1.prems"
      by (subst exclude_loop.simps) (auto intro!: exI [of _ "sn1 # new"])
  next
    case hi
    then obtain a b where ab: "subnets sn1 = Some [a, b]" "canonical a" "canonical b"
        "block a \<union> block b = block sn1" "block a \<inter> block b = {}" "subnetOf ip a \<or> subnetOf ip b"
      using subnetOf_half "1.prems" by metis
    obtain new where "exclude_loop a b ip (result @ [sn0]) = Some ((result @ [sn0]) @ new)"
        "\<forall>x\<in>set new. canonical x" "blocks new = (block a \<union> block b) - block ip" "disjoint_blocks new"
      using "1.IH"(2) [OF _ hi(3,4) ab(1) refl refl refl ab(2,3) "1.prems"(3) ab(6,5)] hi(1,2) by auto
    moreover have "block ip \<subseteq> block sn1" using hi wf by (simp add: subnetOf_block)
    ultimately show ?thesis
      using hi ab "1.prems"
      by (subst exclude_loop.simps) (auto intro!: exI [of _ "sn0 # new"])
  qed
qed

lemma ip_excludeAddress_correct:
  assumes "canonical self" "canonical ip" "subnetOf ip self" "ip \<noteq> self"
  shows "\<exists>new. ip_excludeAddress self ip = Some new \<and> (\<forall>x\<in>set new. canonical x) \<and>
           blocks new = block self - block ip \<and> disjoint_blocks new"
proof -
  obtain a b where ab: "subnets self = Some [a, b]" "canonical a" "canonical b"
      "block a \<union> block b = block self" "block a \<inter> block b = {}" "subnetOf ip a \<or> subnetOf ip b"
    using subnetOf_half assms by metis
  then show ?thesis
    using exclude_loop_correct [OF ab(2,3) assms(2) ab(6,5), of "[]"]
    by (auto simp: ip_excludeAddress_def)
qed

text \<open>A block that meets the excluded one without strictly containing it lies inside it.\<close>

lemma overlap_not_strict_subset:
  assumes "canonical ip" "canonical ex" "overlaps ip ex" "\<not> (subnetOf ex ip \<and> ex \<noteq> ip)"
  shows "block ip \<subseteq> block ex"
proof (cases "m_prefixLength ex \<le> m_prefixLength ip")
  case True
  then show ?thesis
    using assms blocks_nested [of ip ex] block_mono [of ex ip]
    by (simp add: overlaps_iff_meet canonical_wf)
next
  case False
  then have "m_address ex \<in> block ip"
    using assms blocks_nested [of ex ip] by (simp add: overlaps_iff_meet canonical_wf Int_commute)
  then have "subnetOf ex ip" using False assms by (simp add: subnetOf_iff canonical_wf)
  with assms(4) show ?thesis by auto
qed

lemma exclude_from_all_correct:
  assumes "canonical ex" "\<forall>x\<in>set ips. canonical x"
  shows "\<exists>new. exclude_from_all ex ips = Some new \<and> (\<forall>x\<in>set new. canonical x) \<and>
           blocks new = blocks ips - block ex \<and> (disjoint_blocks ips \<longrightarrow> disjoint_blocks new)"
  using assms(2)
proof (induction ips)
  case Nil
  then show ?case by simp
next
  case (Cons ip ips)
  then obtain rest where rest: "exclude_from_all ex ips = Some rest" "\<forall>x\<in>set rest. canonical x"
      "blocks rest = blocks ips - block ex" "disjoint_blocks ips \<longrightarrow> disjoint_blocks rest"
    by auto
  have can: "canonical ip" using Cons.prems by simp
  consider (apart) "\<not> overlaps ip ex" | (inside) "overlaps ip ex" "subnetOf ex ip" "ex \<noteq> ip"
    | (covered) "overlaps ip ex" "\<not> (subnetOf ex ip \<and> ex \<noteq> ip)" by blast
  then show ?case
  proof cases
    case apart
    then have "block ip \<inter> block ex = {}"
      using can assms(1) by (simp add: overlaps_iff_meet canonical_wf)
    then show ?thesis using apart rest can by auto
  next
    case inside
    then obtain new where "ip_excludeAddress ip ex = Some new" "\<forall>x\<in>set new. canonical x"
        "blocks new = block ip - block ex" "disjoint_blocks new"
      using ip_excludeAddress_correct [OF can assms(1)] by blast
    then show ?thesis using inside rest by auto
  next
    case covered
    then have "block ip \<subseteq> block ex" using overlap_not_strict_subset [OF can assms(1)] by simp
    then show ?thesis using covered rest by auto
  qed
qed

subsection \<open>Masks as bit patterns\<close>

lemma ceil_byte: "(p + 7) div 8 = (if p mod 8 = 0 then p div 8 else Suc (p div 8))" for p :: nat
  by presburger

lemma update_at_length: "k = length xs \<Longrightarrow> (xs @ y # ys)[k := v] = xs @ v # ys"
  by (simp add: list_update_append)

lemma bytes_bits_zeros: "bytes_bits (replicate n 0) = replicate (8 * n) False"
  by (rule bytes_bits_replicate) (simp add: wbits_zero)

lemma bytes_bits_ones: "bytes_bits (replicate n (- 1)) = replicate (8 * n) True"
  by (rule bytes_bits_replicate) (simp add: wbits_minus_one)

lemmas mask_bits = bytes_bits_simps bytes_bits_zeros bytes_bits_ones wbits_mask wbits_not_mask wbits_or_mask

text \<open>A prefix that ends inside a byte: \<open>k\<close> full bytes, \<open>r\<close> bits of the next, \<open>j\<close> bytes after it.\<close>

lemma mid_byte_prefix:
  assumes "p \<le> 128" "p mod 8 \<noteq> (0::nat)"
  obtains k r q j where "p = 8 * k + r" "p div 8 = k" "p mod 8 = r" "8 - r = q" "8 - q = r" "q \<le> 8"
    "16 - k = Suc j" "16 - Suc k = j" "128 - p = q + 8 * j" "k < 16" "r \<noteq> 0"
proof -
  have "p = 8 * (p div 8) + p mod 8" "8 - (8 - p mod 8) = p mod 8" "16 - p div 8 = Suc (16 - Suc (p div 8))"
      "128 - p = (8 - p mod 8) + 8 * (16 - Suc (p div 8))" "p div 8 < 16"
    using assms by presburger+
  then show thesis using assms(2) by (intro that [of "p div 8" "p mod 8" "8 - p mod 8" "16 - Suc (p div 8)"]) auto
qed

lemma netmask_bytes:
  assumes "p \<le> 128"
  shows "bytes_bits (let raw = memset (replicate 16 0) 0 (- 1) (p div 8) in
      if p mod 8 \<noteq> 0 then raw[p div 8 := NOT (mask (8 - p mod 8))] else raw) =
    replicate p True @ replicate (128 - p) False"
proof (cases "p mod 8 = 0")
  case True
  then obtain k where "p = 8 * k" by (metis mod_0_imp_dvd dvd_def)
  then show ?thesis
    using assms by (simp add: memset_def mask_bits algebra_simps)
next
  case False
  obtain k r q j where e: "p = 8 * k + r" "p div 8 = k" "p mod 8 = r" "8 - r = q" "8 - q = r" "q \<le> 8"
    "16 - k = Suc j" "128 - p = q + 8 * j" "r \<noteq> 0"
    using mid_byte_prefix [OF assms False] by metis
  then show ?thesis
    by (simp only: e(2,3,4,8)) (simp add: e memset_def update_at_length mask_bits replicate_add del: e(8))
qed

lemma hostmask_bytes:
  assumes "p \<le> 128"
  shows "bytes_bits (let offset = (p + 7) div 8;
      raw = memset (replicate 16 0) offset (- 1) (16 - offset) in
      if p mod 8 \<noteq> 0 then raw[p div 8 := mask (8 - p mod 8)] else raw) =
    replicate p False @ replicate (128 - p) True"
proof (cases "p mod 8 = 0")
  case True
  then obtain k where "p = 8 * k" by (metis mod_0_imp_dvd dvd_def)
  then show ?thesis
    using assms by (simp add: memset_def mask_bits ceil_byte Let_def algebra_simps)
next
  case False
  obtain k r q j where e: "p = 8 * k + r" "p div 8 = k" "p mod 8 = r" "8 - r = q" "8 - q = r" "q \<le> 8"
    "16 - Suc k = j" "128 - p = q + 8 * j" "r \<noteq> 0" "k < 16"
    using mid_byte_prefix [OF assms False] by metis
  have "replicate (Suc k) (0::8 word) = replicate k 0 @ [0]" "min k 15 = k"
    using e(10) by (auto simp: replicate_append_same)
  with e show ?thesis
    by (simp only: e(2,3,4,8) ceil_byte)
       (simp add: e memset_def update_at_length mask_bits replicate_add Let_def min_absorb1
          del: e(8) replicate_Suc)
qed

lemma broadcast_bytes:
  assumes "p \<le> 128" "length bs = 16"
  shows "bytes_bits (let offset = (p + 7) div 8; raw = memset bs offset (- 1) (16 - offset) in
      if p mod 8 \<noteq> 0 then raw[p div 8 := raw ! (p div 8) OR mask (8 - p mod 8)] else raw) =
    take p (bytes_bits bs) @ replicate (128 - p) True"
proof (cases "p mod 8 = 0")
  case True
  then obtain k where k: "p = 8 * k" by (metis mod_0_imp_dvd dvd_def)
  have "bytes_bits (take k bs) = take p (bytes_bits bs)"
    using k assms take_bytes_bits [of p bs] by (cases "p = 128") auto
  then show ?thesis
    using assms k by (simp add: memset_def mask_bits ceil_byte Let_def algebra_simps)
next
  case False
  obtain k r q j where e: "p = 8 * k + r" "p div 8 = k" "p mod 8 = r" "8 - r = q" "8 - q = r" "q \<le> 8"
    "16 - Suc k = j" "128 - p = q + 8 * j" "r \<noteq> 0" "k < 16"
    using mid_byte_prefix [OF assms(1) False] by metis
  have "take (Suc k) bs = take k bs @ [bs ! k]"
    using e assms by (simp add: take_Suc_conv_app_nth)
  moreover have "take p (bytes_bits bs) = bytes_bits (take k bs) @ take r (wbits (bs ! k))"
    using take_bytes_bits [of p bs] e assms by simp
  moreover have "15 - k = j" using e(7) by simp
  ultimately show ?thesis
    by (simp only: e(2,3,4,8) ceil_byte)
       (simp add: e memset_def update_at_length mask_bits replicate_add Let_def nth_append assms min_absorb2
          del: e(8) replicate_Suc)
qed

lemma netmask_bits:
  assumes "wf_ip ip"
  shows "wf_addr (netmask ip) \<and> protocol (netmask ip) = protocol (m_address ip) \<and>
    addr_bits (netmask ip) = replicate (nat (m_prefixLength ip)) True @
      replicate (addr_width (protocol (m_address ip)) - nat (m_prefixLength ip)) False"
proof (cases "m_address ip")
  case NullAddress
  then show ?thesis using assms by (simp add: wf_ip_def)
next
  case (IPv4Address w)
  then show ?thesis
    using assms by (auto simp: netmask_def wf_ip_def mask_literals wbits_minus_one wbits_not_mask Let_def)
next
  case (IPv6Address bs)
  then have "nat (m_prefixLength ip) \<le> 128" using assms by (auto simp: wf_ip_def)
  from netmask_bytes [OF this] this show ?thesis
    using IPv6Address by (auto simp: netmask_def mask_literals length_memset Let_def split: if_splits)
qed

lemma hostmask_bits:
  assumes "wf_ip ip"
  shows "wf_addr (hostmask ip) \<and> protocol (hostmask ip) = protocol (m_address ip) \<and>
    addr_bits (hostmask ip) = replicate (nat (m_prefixLength ip)) False @
      replicate (addr_width (protocol (m_address ip)) - nat (m_prefixLength ip)) True"
proof (cases "m_address ip")
  case NullAddress
  then show ?thesis using assms by (simp add: wf_ip_def)
next
  case (IPv4Address w)
  then show ?thesis
    using assms by (auto simp: hostmask_def wf_ip_def mask_literals wbits_zero wbits_mask Let_def)
next
  case (IPv6Address bs)
  then have "nat (m_prefixLength ip) \<le> 128" using assms by (auto simp: wf_ip_def)
  from hostmask_bytes [OF this] this show ?thesis
    using IPv6Address by (auto simp: hostmask_def mask_literals length_memset Let_def split: if_splits)
qed

lemma broadcast_bits:
  assumes "wf_ip ip"
  shows "wf_addr (broadcastAddress ip) \<and> protocol (broadcastAddress ip) = protocol (m_address ip) \<and>
    addr_bits (broadcastAddress ip) = take (nat (m_prefixLength ip)) (addr_bits (m_address ip)) @
      replicate (addr_width (protocol (m_address ip)) - nat (m_prefixLength ip)) True"
proof (cases "m_address ip")
  case NullAddress
  then show ?thesis using assms by (simp add: wf_ip_def)
next
  case (IPv4Address w)
  then show ?thesis
    using assms by (auto simp: broadcastAddress_def wf_ip_def mask_literals wbits_or_mask Let_def)
next
  case (IPv6Address bs)
  then have p: "nat (m_prefixLength ip) \<le> 128" and len: "length bs = 16"
    using assms by (auto simp: wf_ip_def)
  from broadcast_bytes [OF this] this show ?thesis
    using IPv6Address
    by (auto simp: broadcastAddress_def mask_literals length_memset Let_def split: if_splits)
qed

subsection \<open>Properties\<close>

definition ip4 :: "32 word \<Rightarrow> int \<Rightarrow> IPAddress" where
  "ip4 w p = \<lparr>m_address = IPv4Address w, m_prefixLength = p\<rparr>"

lemma canonical_10_8: "canonical (ip4 0x0A000000 8)"
  by code_simp

lemma canonical_0_0: "canonical (ip4 0 0)"
  by code_simp

lemma canonical_v6_all: "canonical \<lparr>m_address = IPv6Address (replicate 16 0), m_prefixLength = 0\<rparr>"
  by code_simp

text \<open>
  C2. Excluding blocks from blocks is exact: for canonical inputs \<open>excludeAddresses\<close> always
  returns (no assertion of its loop fails and the loop ends), the addresses of the result are the
  addresses of the source list that are in no excluded block, every resulting block is canonical,
  and blocks that were pairwise disjoint stay so.
\<close>

theorem excludeAddresses_exact:
  assumes "\<forall>x\<in>set sourceList. canonical x" and "\<forall>x\<in>set excludeList. canonical x"
  shows "\<exists>res. excludeAddresses sourceList excludeList = Some res \<and>
           blocks res = blocks sourceList - blocks excludeList \<and>
           (\<forall>x\<in>set res. canonical x) \<and>
           (disjoint_blocks sourceList \<longrightarrow> disjoint_blocks res)"
  using assms
proof (induction excludeList arbitrary: sourceList)
  case Nil
  then show ?case by simp
next
  case (Cons ex exs)
  then obtain new where new: "exclude_from_all ex sourceList = Some new" "\<forall>x\<in>set new. canonical x"
      "blocks new = blocks sourceList - block ex" "disjoint_blocks sourceList \<longrightarrow> disjoint_blocks new"
    using exclude_from_all_correct [of ex sourceList] by auto
  then show ?case using Cons.IH [of new] Cons.prems by auto
qed

theorem excludeAddresses_exact_witness:
  "\<exists>res. excludeAddresses [ip4 0 0] [ip4 0x0A000000 8] = Some res \<and>
     blocks res = blocks [ip4 0 0] - blocks [ip4 0x0A000000 8] \<and>
     (\<forall>x\<in>set res. canonical x) \<and> (disjoint_blocks [ip4 0 0] \<longrightarrow> disjoint_blocks res)"
  by (rule excludeAddresses_exact) (simp_all add: canonical_10_8 canonical_0_0)

text \<open>
  C34. \<open>contains\<close> decides membership: the byte-wise comparison for IPv6 (\<open>memcmp\<close> of the
  whole bytes, then a shifted exclusive or) and the word comparison for IPv4 both answer whether
  the first \<open>prefixLength\<close> bits agree.
\<close>

theorem contains_decides_block:
  assumes "wf_ip ip" and "wf_addr a"
  shows "ip_contains ip a \<longleftrightarrow>
    protocol a = protocol (m_address ip) \<and>
    take (nat (m_prefixLength ip)) (addr_bits a) = take (nat (m_prefixLength ip)) (addr_bits (m_address ip))"
  using assms by (simp add: ip_contains_iff_block block_def)

theorem contains_decides_block_witness:
  "ip_contains (ip4 0x0A000000 8) (IPv4Address 0x0A010203) \<longleftrightarrow>
    protocol (IPv4Address 0x0A010203) = protocol (m_address (ip4 0x0A000000 8)) \<and>
    take (nat (m_prefixLength (ip4 0x0A000000 8))) (addr_bits (IPv4Address 0x0A010203)) =
    take (nat (m_prefixLength (ip4 0x0A000000 8))) (addr_bits (m_address (ip4 0x0A000000 8)))"
  by (rule contains_decides_block) (simp_all add: wf_ip_def ip4_def)

text \<open>
  \<open>overlaps\<close> is true exactly when the two blocks share an address, and \<open>subnetOf\<close>
  implies inclusion of the address sets.
\<close>

lemma overlaps_and_subnetOf_sets:
  assumes "wf_ip x" and "wf_ip y"
  shows "(overlaps x y \<longleftrightarrow> block x \<inter> block y \<noteq> {}) \<and> (subnetOf x y \<longrightarrow> block x \<subseteq> block y)"
  using assms by (simp add: overlaps_iff_meet subnetOf_block)

text \<open>
  The masks: in both families the net mask is \<open>prefixLength\<close> ones followed by zeros, the
  host mask is its complement, and the broadcast address is the address of the block whose host
  bits are all ones.
\<close>

lemma masks_are_bit_patterns:
  assumes "wf_ip ip"
  shows "addr_bits (netmask ip) = replicate (nat (m_prefixLength ip)) True @
           replicate (addr_width (protocol (m_address ip)) - nat (m_prefixLength ip)) False \<and>
         addr_bits (hostmask ip) = map Not (addr_bits (netmask ip)) \<and>
         broadcastAddress ip \<in> block ip \<and>
         drop (nat (m_prefixLength ip)) (addr_bits (broadcastAddress ip)) =
           replicate (addr_width (protocol (m_address ip)) - nat (m_prefixLength ip)) True"
proof -
  have "nat (m_prefixLength ip) \<le> length (addr_bits (m_address ip))"
    using assms by (auto simp: wf_ip_def length_addr_bits)
  then show ?thesis
    using netmask_bits [OF assms] hostmask_bits [OF assms] broadcast_bits [OF assms]
    by (simp add: block_def map_replicate)
qed

text \<open>
  The documented behaviour of Qt's address parsers that the code relies on: a subnet parser that
  accepts its input answers a network prefix (host bits cleared) with a prefix length in range,
  and an address parser answers addresses of the right size.
\<close>

definition qt_net_ok :: "qt_net \<Rightarrow> bool" where
  "qt_net_ok Q \<longleftrightarrow>
     (\<forall>s. wf_addr (fst (qParseSubnet Q s)) \<longrightarrow>
        canonical \<lparr>m_address = fst (qParseSubnet Q s), m_prefixLength = snd (qParseSubnet Q s)\<rparr>) \<and>
     (\<forall>s. protocol (fst (qParseSubnet Q s)) \<noteq> UnknownNetworkLayerProtocol \<longrightarrow> wf_addr (fst (qParseSubnet Q s))) \<and>
     (\<forall>s. protocol (qHostAddress Q s) \<noteq> UnknownNetworkLayerProtocol \<longrightarrow> wf_addr (qHostAddress Q s))"

lemma wf_addr_protocol: "wf_addr a \<Longrightarrow> protocol a \<noteq> UnknownNetworkLayerProtocol"
  by (cases a) auto

lemma IPAddress_fromString_canonical:
  assumes Q: "qt_net_ok Q" and s: "IPAddress_fromString Q s = Some ip"
  shows "canonical ip"
proof (cases "CHR ''/'' \<in> set s")
  case True
  obtain a p where ap: "qParseSubnet Q s = (a, p)" by fastforce
  then have "protocol a \<noteq> UnknownNetworkLayerProtocol"
    using s True by (auto simp: IPAddress_fromString_def)
  then have "canonical \<lparr>m_address = a, m_prefixLength = p\<rparr>"
    using Q ap unfolding qt_net_ok_def by (metis fst_conv snd_conv)
  then show ?thesis
    using s True ap
    by (auto simp: IPAddress_fromString_def canonical_def wf_ip_def split: Protocol.splits if_splits)
next
  case False
  then have "protocol (qHostAddress Q s) \<noteq> UnknownNetworkLayerProtocol"
    using s by (auto simp: IPAddress_fromString_def)
  then have "wf_addr (qHostAddress Q s)" using Q by (simp add: qt_net_ok_def)
  then show ?thesis
    using s False
    by (auto simp: IPAddress_fromString_def canonical_def wf_ip_def length_addr_bits split: Protocol.splits)
qed

end
