(* ===== verification/DNS_Helper.thy ===== *)
theory DNS_Helper
  imports Server_Data IP_Address
begin

text \<open>
  \<^verbatim>\<open>src/src/dnshelper.cpp\<close> (which DNS server a connection uses, and the migration of an old
  setting) and \<^verbatim>\<open>src/src/controller_p.cpp\<close> (the ranges routed for the browser extension).
  \<open>Feature::customDNS\<close> is the argument \<open>customDNS\<close>.
\<close>

record dnsData =
  ipAddress :: qstr
  dnsType :: string

definition BLOCK_ADS_DNS :: string where "BLOCK_ADS_DNS = ''100.64.0.1''"
definition BLOCK_TRACKERS_DNS :: string where "BLOCK_TRACKERS_DNS = ''100.64.0.2''"
definition BLOCK_ADS_TRACKERS_DNS :: string where "BLOCK_ADS_TRACKERS_DNS = ''100.64.0.3''"
definition BLOCK_MALWARE_DNS :: string where "BLOCK_MALWARE_DNS = ''100.64.0.4''"
definition BLOCK_MALWARE_ADS_DNS :: string where "BLOCK_MALWARE_ADS_DNS = ''100.64.0.5''"
definition BLOCK_MALWARE_TRACKERS_DNS :: string where "BLOCK_MALWARE_TRACKERS_DNS = ''100.64.0.6''"
definition BLOCK_MALWARE_ADS_TRACKERS_DNS :: string where "BLOCK_MALWARE_ADS_TRACKERS_DNS = ''100.64.0.7''"

lemmas dns_addresses = BLOCK_ADS_DNS_def BLOCK_TRACKERS_DNS_def BLOCK_ADS_TRACKERS_DNS_def BLOCK_MALWARE_DNS_def
  BLOCK_MALWARE_ADS_DNS_def BLOCK_MALWARE_TRACKERS_DNS_def BLOCK_MALWARE_ADS_TRACKERS_DNS_def

definition validateUserDNS :: "qt_net \<Rightarrow> string \<Rightarrow> bool" where
  "validateUserDNS Q dns =
     (let address = qHostAddress Q dns in
      if address = NullAddress then False
      else if protocol address = IPv6Protocol then False
      else True)"

definition dnsMap :: "(int \<times> dnsData) list" where
  "dnsMap =
     [(BlockAds, \<lparr>ipAddress = Some BLOCK_ADS_DNS, dnsType = ''BlockAds''\<rparr>),
      (BlockTrackers, \<lparr>ipAddress = Some BLOCK_TRACKERS_DNS, dnsType = ''BlockTrackers''\<rparr>),
      (BlockAds + BlockTrackers, \<lparr>ipAddress = Some BLOCK_ADS_TRACKERS_DNS, dnsType = ''BlockAdsAndTrackers''\<rparr>),
      (BlockMalware, \<lparr>ipAddress = Some BLOCK_MALWARE_DNS, dnsType = ''BlockMalware''\<rparr>),
      (BlockMalware + BlockAds, \<lparr>ipAddress = Some BLOCK_MALWARE_ADS_DNS, dnsType = ''BlockMalwareAndAds''\<rparr>),
      (BlockMalware + BlockTrackers,
         \<lparr>ipAddress = Some BLOCK_MALWARE_TRACKERS_DNS, dnsType = ''BlockMalwareAndTrackers''\<rparr>),
      (BlockMalware + BlockAds + BlockTrackers,
         \<lparr>ipAddress = Some BLOCK_MALWARE_ADS_TRACKERS_DNS, dnsType = ''BlockMalwareAndAdsAndTrackers''\<rparr>)]"

definition getDNSDetails :: "qt_net \<Rightarrow> bool \<Rightarrow> SettingsState \<Rightarrow> qstr \<Rightarrow> fault + dnsData" where
  "getDNSDetails Q customDNS st fallback =
     (if \<not> customDNS then Inr \<lparr>ipAddress = fallback, dnsType = ''NoCustomDNSAvailable''\<rparr>
      else
        let dnsProviderFlags = vToInt (Setting_get dnsProviderFlagsSetting st) in
        if dnsProviderFlags = Gateway then Inr \<lparr>ipAddress = fallback, dnsType = ''Default''\<rparr>
        else if dnsProviderFlags = Custom then
          (let dns = vToString (Setting_get userDNSSetting st) in
           if dns = [] \<or> \<not> validateUserDNS Q dns then Inr \<lparr>ipAddress = fallback, dnsType = ''Default''\<rparr>
           else Inr \<lparr>ipAddress = Some dns, dnsType = ''Custom''\<rparr>)
        else case map_of dnsMap dnsProviderFlags of
               None \<Rightarrow> Inl Assertion_failed
             | Some d \<Rightarrow> Inr d)"

definition getDNS :: "qt_net \<Rightarrow> bool \<Rightarrow> SettingsState \<Rightarrow> qstr \<Rightarrow> fault + qstr" where
  "getDNS Q customDNS st fallback =
     (case getDNSDetails Q customDNS st fallback of Inl f \<Rightarrow> Inl f | Inr d \<Rightarrow> Inr (ipAddress d))"

definition getDNSType :: "qt_net \<Rightarrow> bool \<Rightarrow> SettingsState \<Rightarrow> fault + string" where
  "getDNSType Q customDNS st =
     (case getDNSDetails Q customDNS st (Some ''IMPOSSIBLE'') of Inl f \<Rightarrow> Inl f | Inr d \<Rightarrow> Inr (dnsType d))"

definition maybeMigrateDNSProviderFlags :: "SettingsState \<Rightarrow> SettingsState" where
  "maybeMigrateDNSProviderFlags st =
     (if \<not> Setting_isSet dnsProviderDeprecated st then st
      else
        let old = vToInt (Setting_get dnsProviderDeprecated st);
            st = (if old = 0 then st
                  else if old = 1 then Setting_set dnsProviderFlagsSetting (VInt (BlockAds AND BlockTrackers)) st
                  else if old = 2 then Setting_set dnsProviderFlagsSetting (VInt BlockAds) st
                  else if old = 3 then Setting_set dnsProviderFlagsSetting (VInt BlockTrackers) st
                  else if old = 4 then Setting_set dnsProviderFlagsSetting (VInt Custom) st
                  else st)
        in Setting_remove dnsProviderDeprecated st)"

subsection \<open>Ranges for the browser extension\<close>

definition MULLVAD_PROXY_RANGE :: string where "MULLVAD_PROXY_RANGE = ''10.124.0.0''"
definition MULLVAD_PROXY_RANGE_LENGTH :: int where "MULLVAD_PROXY_RANGE_LENGTH = 20"

definition ip_of_text :: "qt_net \<Rightarrow> qstr \<Rightarrow> int \<Rightarrow> IPAddress option" where
  "ip_of_text Q s prefixLength = IPAddress_fromPrefix (qHostAddress Q (qtext s)) prefixLength"

text \<open>\<open>None\<close>: an assertion of the \<open>IPAddress\<close> constructor fails.\<close>

fun collect :: "'a option list \<Rightarrow> 'a list option" where
  "collect [] = Some []"
| "collect (x # xs) = (case x of None \<Rightarrow> None | Some a \<Rightarrow> map_option ((#) a) (collect xs))"

definition getExtensionProxyAddressRanges ::
    "qt_net \<Rightarrow> bool \<Rightarrow> SettingsState \<Rightarrow> Server \<Rightarrow> dnsData option \<Rightarrow> IPAddress list option" where
  "getExtensionProxyAddressRanges Q customDNS st exitServer dnsServer =
     (let ranges = [ip_of_text Q (m_ipv4Gateway exitServer) 32,
                    ip_of_text Q (Some MULLVAD_PROXY_RANGE) MULLVAD_PROXY_RANGE_LENGTH] @
                   (if \<not> qIsEmpty (m_ipv6Gateway exitServer) then [ip_of_text Q (m_ipv6Gateway exitServer) 128] else [])
      in case (case dnsServer of Some d \<Rightarrow> Inr d | None \<Rightarrow> getDNSDetails Q customDNS st (m_ipv4Gateway exitServer)) of
           Inl _ \<Rightarrow> None
         | Inr dns \<Rightarrow>
             if dnsType dns = ''Default'' then collect ranges
             else if dnsType dns \<noteq> ''Custom'' then collect (ranges @ [ip_of_text Q (ipAddress dns) 32])
             else
               let addr = qHostAddress Q (qtext (ipAddress dns)) in
               if \<not> RFC1918_contains Q addr \<and> \<not> RFC4193_contains Q addr \<and> \<not> qIsLoopback Q addr
               then collect (ranges @ [ip_of_text Q (ipAddress dns) 32])
               else collect ranges)"

subsection \<open>Facts\<close>

definition filter_flags :: "int set" where
  "filter_flags = {2, 4, 6, 8, 10, 12, 14}"

lemma dnsMap_lookup:
  "map_of dnsMap f = (if f \<in> filter_flags then Some (the (map_of dnsMap f)) else None)"
  by (auto simp: dnsMap_def dns_flags filter_flags_def)

lemma getDNSDetails_flags:
  "getDNSDetails Q True st fb = Inl Assertion_failed \<longleftrightarrow>
     vToInt (Setting_get dnsProviderFlagsSetting st) \<notin> {0, 1} \<union> filter_flags"
  by (auto simp: getDNSDetails_def Let_def dns_flags dnsMap_def filter_flags_def)

lemma remove_other_get [simp]:
  "Setting_get dnsProviderFlagsSetting (Setting_remove dnsProviderDeprecated st) = Setting_get dnsProviderFlagsSetting st"
  by (simp add: Setting_get_def Setting_remove_def getValue_store_remove removed_by_def groupPrefix_def prefix_def)

lemma remove_unset: "\<not> Setting_isSet s (Setting_remove s st)"
  by (auto simp: Setting_remove_def Setting_isSet_def contains_iff store_remove_def)

lemma collect_map: "collect xs = Some ys \<Longrightarrow> xs = map Some ys"
  by (induction xs arbitrary: ys) (auto split: option.splits)

subsection \<open>Properties\<close>

text \<open>
  The DNS choice is a total function of the provider flags on the values the user interface can
  set: the gateway, the custom server when it is a valid IPv4 address (else the gateway), and for
  every combination of block lists the filtering server \<open>100.64.0.n\<close> with \<open>n\<close> half the flags.  For
  any other flags the assertion fails.
\<close>

theorem getDNS_by_flags:
  "getDNS Q True st fallback =
     (let flags = vToInt (Setting_get dnsProviderFlagsSetting st); user = vToString (Setting_get userDNSSetting st) in
      if flags = Gateway then Inr fallback
      else if flags = Custom then
        Inr (if user \<noteq> [] \<and> protocol (qHostAddress Q user) = IPv4Protocol then Some user else fallback)
      else if flags \<in> filter_flags then Inr (Some (''100.64.0.'' @ [''01234567'' ! nat (flags div 2)]))
      else Inl Assertion_failed)"
proof -
  let ?f = "vToInt (Setting_get dnsProviderFlagsSetting st)"
  have v: "validateUserDNS Q u \<longleftrightarrow> protocol (qHostAddress Q u) = IPv4Protocol" for u
    by (cases "qHostAddress Q u") (simp_all add: validateUserDNS_def)
  have "\<exists>d. map_of dnsMap ?f = Some d \<and> ipAddress d = Some (''100.64.0.'' @ [''01234567'' ! nat (?f div 2)])"
    if "?f \<in> filter_flags"
    using that by (auto simp: filter_flags_def dnsMap_def dns_flags dns_addresses)
  then show ?thesis
    using dnsMap_lookup [of ?f]
    by (auto simp: getDNS_def getDNSDetails_def Let_def v split: option.splits)
qed

text \<open>
  C40. The migration of the old provider setting removes that setting and never produces flags for
  which \<open>getDNSDetails\<close> fails: when the flags were valid before, they are valid afterwards, and
  the old values 2, 3 and 4 are translated to the ad, tracker and custom choice.
\<close>

theorem migrate_keeps_dns_valid:
  assumes "vToInt (Setting_get dnsProviderFlagsSetting st) \<in> {0, 1} \<union> filter_flags"
  shows "\<not> Setting_isSet dnsProviderDeprecated (maybeMigrateDNSProviderFlags st) \<and>
    getDNSDetails Q True (maybeMigrateDNSProviderFlags st) fallback \<noteq> Inl Assertion_failed \<and>
    (Setting_isSet dnsProviderDeprecated st \<longrightarrow>
      (\<forall>(old, new)\<in>set [(2, BlockAds), (3, BlockTrackers), (4, Custom)].
         vToInt (Setting_get dnsProviderDeprecated st) = old \<longrightarrow>
         vToInt (Setting_get dnsProviderFlagsSetting (maybeMigrateDNSProviderFlags st)) = new))"
proof -
  let ?f = "vToInt (Setting_get dnsProviderFlagsSetting (maybeMigrateDNSProviderFlags st))"
  have "?f \<in> {0, 1} \<union> filter_flags"
    using assms by (simp add: maybeMigrateDNSProviderFlags_def Let_def dns_flags filter_flags_def)
  then have "getDNSDetails Q True (maybeMigrateDNSProviderFlags st) fallback \<noteq> Inl Assertion_failed"
    by (simp only: getDNSDetails_flags not_not)
  moreover have "\<not> Setting_isSet dnsProviderDeprecated (maybeMigrateDNSProviderFlags st)"
    by (simp add: maybeMigrateDNSProviderFlags_def Let_def remove_unset)
  ultimately show ?thesis by (simp add: maybeMigrateDNSProviderFlags_def Let_def)
qed

definition oldDnsSettings :: "int \<Rightarrow> SettingsState" where
  "oldDnsSettings n = \<lparr>m_store = [(''dnsProvider'', VInt n)], m_registeredSettings = [], m_connections = [],
     m_changed = [], m_groupChanged = []\<rparr>"

theorem migrate_keeps_dns_valid_witness:
  "vToInt (Setting_get dnsProviderFlagsSetting (maybeMigrateDNSProviderFlags (oldDnsSettings 3))) = BlockTrackers"
proof -
  have "vToInt (Setting_get dnsProviderFlagsSetting (oldDnsSettings 3)) \<in> {0, 1} \<union> filter_flags"
      "Setting_isSet dnsProviderDeprecated (oldDnsSettings 3)"
      "vToInt (Setting_get dnsProviderDeprecated (oldDnsSettings 3)) = 3"
    by (simp_all add: oldDnsSettings_def Setting_get_def getValue_def holderSetting_def Setting_isSet_def store_contains_def)
  then show ?thesis using migrate_keeps_dns_valid [of "oldDnsSettings 3"] by auto
qed

text \<open>
  The old value 1 meant blocking ads and trackers; the code combines the two flags with a bitwise
  and, which is the gateway choice, so nothing is blocked any more.
\<close>

lemma migrate_block_all_blocks_nothing:
  "vToInt (Setting_get dnsProviderFlagsSetting (maybeMigrateDNSProviderFlags (oldDnsSettings 1))) = Gateway"
  "BlockAds + BlockTrackers \<noteq> Gateway"
proof -
  have "Setting_isSet dnsProviderDeprecated (oldDnsSettings 1)" "vToInt (Setting_get dnsProviderDeprecated (oldDnsSettings 1)) = 1"
    by (simp_all add: oldDnsSettings_def Setting_get_def getValue_def holderSetting_def Setting_isSet_def store_contains_def)
  then show "vToInt (Setting_get dnsProviderFlagsSetting (maybeMigrateDNSProviderFlags (oldDnsSettings 1))) = Gateway"
    by (simp add: maybeMigrateDNSProviderFlags_def Let_def dns_flags)
qed (simp add: dns_flags)

definition exampleDnsNet :: qt_net where
  "exampleDnsNet = \<lparr>
     qHostAddress = (\<lambda>s. if s = ''10.64.0.1'' then IPv4Address 0x0A400001
                         else if s = ''10.124.0.0'' then IPv4Address 0x0A7C0000
                         else if s = ''8.8.8.8'' then IPv4Address 0x08080808 else NullAddress),
     qParseSubnet = (\<lambda>s. (NullAddress, -1)), qAddrToString = (\<lambda>a. []), qIsLoopback = (\<lambda>a. False),
     qNumber = (\<lambda>n. []), qToInt = (\<lambda>s. None)\<rparr>"

text \<open>
  For the browser extension a custom DNS server is routed into the tunnel only when it is a
  public address: whenever the ranges are computed, they start with the gateway and the proxy
  range, and a custom DNS address in a private range or on the loopback adds no range.
\<close>

lemma extension_ranges_custom_dns:
  assumes "getExtensionProxyAddressRanges Q customDNS st exitServer (Some \<lparr>ipAddress = Some dns, dnsType = ''Custom''\<rparr>) = Some rs"
  shows "\<exists>gw proxy v6. ip_of_text Q (m_ipv4Gateway exitServer) 32 = Some gw \<and>
    ip_of_text Q (Some MULLVAD_PROXY_RANGE) MULLVAD_PROXY_RANGE_LENGTH = Some proxy \<and>
    (if RFC1918_contains Q (qHostAddress Q dns) \<or> RFC4193_contains Q (qHostAddress Q dns) \<or> qIsLoopback Q (qHostAddress Q dns)
     then rs = [gw, proxy] @ v6
     else \<exists>d. ip_of_text Q (Some dns) 32 = Some d \<and> rs = [gw, proxy] @ v6 @ [d]) \<and>
    (v6 \<noteq> [] \<longleftrightarrow> \<not> qIsEmpty (m_ipv6Gateway exitServer)) \<and> length v6 \<le> 1"
  using assms
  by (auto simp: getExtensionProxyAddressRanges_def Let_def split: if_splits option.splits)

end
