(* ===== verification/Ping_Window.thy ===== *)
theory Ping_Window
  imports IP_Address "HOL-Library.Multiset"
begin

text \<open>
  \<^verbatim>\<open>src/src/pinghelper.cpp\<close> and \<^verbatim>\<open>pinghelper.h\<close>: the ping sender of an active connection and
  its statistics.  The data of the last 32 pings is kept in a circular buffer indexed by the 16 bit
  sequence number; the buffer is shown to refine the log of all pings sent.  Which kinds of ping
  sender can be opened, and the clock, are arguments.  The standard deviation, which is only logged,
  is not modelled.
\<close>

subsection \<open>State\<close>

definition PING_STATS_WINDOW :: nat where
  "PING_STATS_WINDOW = 32"

definition PING_TIMEOUT :: int where
  "PING_TIMEOUT = 1000"

record PingSendData =
  timestamp :: int
  latency :: int
  sequence :: "16 word"

definition emptyPing :: PingSendData where
  "emptyPing = \<lparr>timestamp = -1, latency = -1, sequence = 0\<rparr>"

datatype PingSender = FactoryPingSender QHostAddress | DnsPingSender QHostAddress | DummyPingSender QHostAddress

record PingHelper =
  m_gateway :: QHostAddress
  m_source :: QHostAddress
  m_sequence :: "16 word"
  m_pingData :: "PingSendData list"
  m_pingTimer :: bool
  m_pingSender :: "PingSender option"
  ping_sent :: "(QHostAddress \<times> 16 word) list"
  ping_emitted :: "int list"

definition newPingHelper :: PingHelper where
  "newPingHelper = \<lparr>m_gateway = NullAddress, m_source = NullAddress, m_sequence = 0,
     m_pingData = replicate PING_STATS_WINDOW emptyPing, m_pingTimer = False, m_pingSender = None,
     ping_sent = [], ping_emitted = []\<rparr>"

subsection \<open>Operations\<close>

text \<open>The fall-back from the platform's sender to DNS queries to the dummy.\<close>

definition createPingSender :: "bool \<Rightarrow> bool \<Rightarrow> QHostAddress \<Rightarrow> PingSender" where
  "createPingSender factoryValid dnsValid source =
     (if factoryValid then FactoryPingSender source
      else if dnsValid then DnsPingSender source else DummyPingSender source)"

definition ping_start :: "qt_net \<Rightarrow> bool \<Rightarrow> bool \<Rightarrow> string \<Rightarrow> string \<Rightarrow> PingHelper \<Rightarrow> PingHelper" where
  "ping_start Q factoryValid dnsValid serverGateway deviceAddress h =
     (let source = qHostAddress Q (firstSection deviceAddress (CHR ''/'')) in
      h\<lparr>m_gateway := qHostAddress Q serverGateway, m_source := source,
        m_pingSender := Some (createPingSender factoryValid dnsValid source),
        m_sequence := 0, m_pingData := replicate PING_STATS_WINDOW emptyPing, m_pingTimer := True\<rparr>)"

definition ping_stop :: "PingHelper \<Rightarrow> PingHelper" where
  "ping_stop h = h\<lparr>m_pingSender := None, m_pingTimer := False\<rparr>"

definition pingSlot :: "16 word \<Rightarrow> nat" where
  "pingSlot s = unat s mod PING_STATS_WINDOW"

definition nextPing :: "int \<Rightarrow> PingHelper \<Rightarrow> fault + PingHelper" where
  "nextPing now h =
     (let h = h\<lparr>m_pingData := (m_pingData h)[pingSlot (m_sequence h) :=
                  \<lparr>timestamp = now, latency = -1, sequence = m_sequence h\<rparr>]\<rparr>
      in fpointer (m_pingSender h \<noteq> None)
           (Inr (h\<lparr>ping_sent := ping_sent h @ [(m_gateway h, m_sequence h)], m_sequence := m_sequence h + 1\<rparr>)))"

definition pingReceived :: "int \<Rightarrow> 16 word \<Rightarrow> PingHelper \<Rightarrow> PingHelper" where
  "pingReceived now seq h =
     (let index = pingSlot seq; data = m_pingData h ! index in
      if sequence data = seq then
        h\<lparr>m_pingData := (m_pingData h)[index := data\<lparr>latency := now - timestamp data\<rparr>],
          ping_emitted := ping_emitted h @ [now - timestamp data]\<rparr>
      else h)"

subsection \<open>Statistics\<close>

fun latency_loop :: "PingSendData list \<Rightarrow> int \<Rightarrow> int \<Rightarrow> int \<times> int" where
  "latency_loop [] recvCount totalMsec = (recvCount, totalMsec)"
| "latency_loop (data # rest) recvCount totalMsec =
     (if latency data < 0 then latency_loop rest recvCount totalMsec
      else latency_loop rest (recvCount + 1) (totalMsec + latency data))"

definition ping_latency :: "PingHelper \<Rightarrow> 32 word" where
  "ping_latency h =
     (let (recvCount, totalMsec) = latency_loop (m_pingData h) 0 0 in
      if recvCount \<le> 0 then 0 else word_of_int ((totalMsec + recvCount div 2) div recvCount))"

fun maximum_loop :: "PingSendData list \<Rightarrow> 32 word \<Rightarrow> 32 word" where
  "maximum_loop [] maxRtt = maxRtt"
| "maximum_loop (data # rest) maxRtt =
     (if latency data < 0 then maximum_loop rest maxRtt
      else if latency data > uint maxRtt \<and> latency data < 2^32 - 1
      then maximum_loop rest (word_of_int (latency data))
      else maximum_loop rest maxRtt)"

definition ping_maximum :: "PingHelper \<Rightarrow> 32 word" where
  "ping_maximum h = maximum_loop (m_pingData h) 0"

fun loss_loop :: "int \<Rightarrow> PingSendData list \<Rightarrow> int \<Rightarrow> int \<Rightarrow> int \<times> int" where
  "loss_loop sendBefore [] sendCount recvCount = (sendCount, recvCount)"
| "loss_loop sendBefore (data # rest) sendCount recvCount =
     (if latency data \<ge> 0 then loss_loop sendBefore rest (sendCount + 1) (recvCount + 1)
      else if timestamp data > 0 \<and> timestamp data < sendBefore
      then loss_loop sendBefore rest (sendCount + 1) recvCount
      else loss_loop sendBefore rest sendCount recvCount)"

definition ping_loss :: "int \<Rightarrow> PingHelper \<Rightarrow> rat" where
  "ping_loss now h =
     (let (sendCount, recvCount) = loss_loop (now - PING_TIMEOUT) (m_pingData h) 0 0 in
      if sendCount \<le> 0 then 0 else of_int (sendCount - recvCount) / of_nat PING_STATS_WINDOW)"

subsection \<open>The log of all pings\<close>

text \<open>
  The specification: a list of the pings sent since the start, the oldest first, the \<open>k\<close>-th with
  sequence number \<open>k\<close> modulo \<open>2^16\<close>.  An answer is credited to the ping with that sequence number
  among the last 32, if there is one.
\<close>

definition log_send :: "int \<Rightarrow> PingSendData list \<Rightarrow> PingSendData list" where
  "log_send now pings = pings @ [\<lparr>timestamp = now, latency = -1, sequence = of_nat (length pings)\<rparr>]"

definition log_answer :: "int \<Rightarrow> 16 word \<Rightarrow> PingSendData list \<Rightarrow> PingSendData list" where
  "log_answer now seq pings =
     (let old = take (length pings - 32) pings; recent = drop (length pings - 32) pings in
      old @ map (\<lambda>d. if sequence d = seq then d\<lparr>latency := now - timestamp d\<rparr> else d) recent)"

text \<open>The last ping that went to a slot.\<close>

definition slot_last :: "nat \<Rightarrow> nat \<Rightarrow> nat option" where
  "slot_last n i = (if i < n then Some (n - 1 - (n - 1 - i) mod 32) else None)"

definition window :: "PingSendData list \<Rightarrow> PingSendData list" where
  "window pings = map (\<lambda>i. case slot_last (length pings) i of None \<Rightarrow> emptyPing | Some j \<Rightarrow> pings ! j) [0..<32]"

definition log_ok :: "PingSendData list \<Rightarrow> bool" where
  "log_ok pings \<longleftrightarrow> (\<forall>j<length pings. sequence (pings ! j) = of_nat j)"

definition ring_refines :: "PingSendData list \<Rightarrow> PingHelper \<Rightarrow> bool" where
  "ring_refines pings h \<longleftrightarrow> log_ok pings \<and> m_sequence h = of_nat (length pings) \<and> m_pingData h = window pings"

lemma same_slot:
  assumes "j mod 32 = k mod (32::nat)" "j \<le> k" "k < j + 32"
  shows "j = k"
proof -
  have "32 dvd k - j" using assms by (metis mod_eq_dvd_iff_nat)
  moreover have "k - j < 32" using assms by simp
  ultimately have "k - j = 0" using nat_dvd_not_less by blast
  with assms(2) show ?thesis by simp
qed

lemma slot_last_Some:
  assumes "i < 32" "i < n"
  shows "\<exists>j. slot_last n i = Some j \<and> j < n \<and> n \<le> j + 32 \<and> j mod 32 = i"
proof -
  define d where "d = n - 1 - i"
  have n: "n - 1 = i + d" using assms(2) by (simp add: d_def)
  have "n - 1 - d mod 32 = i + 32 * (d div 32)"
    unfolding n using minus_mod_eq_mult_div [of d 32] mod_less_eq_dividend [of d 32] by linarith
  then have "(n - 1 - d mod 32) mod 32 = i" using assms(1) by simp
  moreover have "d mod 32 < 32" "d mod 32 \<le> d" by simp_all
  then have "n - 1 - d mod 32 < n" "n \<le> n - 1 - d mod 32 + 32" using assms(2) by (auto simp: d_def)
  moreover have "slot_last n i = Some (n - 1 - d mod 32)" using assms(2) by (simp add: slot_last_def d_def)
  ultimately show ?thesis by blast
qed

lemma slot_last_iff:
  assumes "i < 32"
  shows "slot_last n i = Some j \<longleftrightarrow> j < n \<and> n \<le> j + 32 \<and> j mod 32 = i"
proof
  assume s: "slot_last n i = Some j"
  then have "i < n" by (simp add: slot_last_def split: if_splits)
  then obtain k where "slot_last n i = Some k" "k < n \<and> n \<le> k + 32 \<and> k mod 32 = i"
    using slot_last_Some [OF assms] by blast
  with s show "j < n \<and> n \<le> j + 32 \<and> j mod 32 = i" by simp
next
  assume j: "j < n \<and> n \<le> j + 32 \<and> j mod 32 = i"
  then have "i < n" using mod_less_eq_dividend [of j 32] by linarith
  then obtain k where k: "slot_last n i = Some k" "k < n" "n \<le> k + 32" "k mod 32 = i"
    using slot_last_Some [OF assms] by blast
  have "j = k"
  proof (cases "j \<le> k")
    case True
    then show ?thesis using same_slot [of j k] j k by simp
  next
    case False
    then show ?thesis using same_slot [of k j] j k by simp
  qed
  with k(1) show "slot_last n i = Some j" by simp
qed

lemma slot_last_None: "slot_last n i = None \<longleftrightarrow> n \<le> i"
  by (auto simp: slot_last_def)

lemma slot_last_Suc:
  assumes i: "i < 32"
  shows "slot_last (Suc n) i = (if i = n mod 32 then Some n else slot_last n i)"
proof (cases "i = n mod 32")
  case True
  then have "slot_last (Suc n) i = Some n" unfolding slot_last_iff [OF i] by simp
  with True show ?thesis by simp
next
  case False
  have "slot_last (Suc n) i = Some j \<longleftrightarrow> slot_last n i = Some j" for j
  proof -
    have "n \<noteq> j" if "j mod 32 = i" using that False by auto
    moreover have "n \<noteq> j + 32" if "j mod 32 = i" using that False by auto
    ultimately show ?thesis unfolding slot_last_iff [OF i] by (auto simp: less_Suc_eq)
  qed
  then show ?thesis using False by (cases "slot_last n i") auto
qed

lemma length_window [simp]: "length (window pings) = 32"
  by (simp add: window_def)

lemma nth_window:
  "i < 32 \<Longrightarrow> window pings ! i = (case slot_last (length pings) i of None \<Rightarrow> emptyPing | Some j \<Rightarrow> pings ! j)"
  by (simp add: window_def)

lemma pingSlot_of_nat: "pingSlot (of_nat j) = j mod 32"
proof -
  have "pingSlot (of_nat j) = (j mod 2 ^ 16) mod 32"
    by (simp add: pingSlot_def PING_STATS_WINDOW_def unat_of_nat)
  also have "\<dots> = j mod 32"
    by (rule mod_mod_cancel) simp
  finally show ?thesis .
qed

lemma pingSlot_less: "pingSlot s < 32"
  by (simp add: pingSlot_def PING_STATS_WINDOW_def)

subsection \<open>Refinement\<close>

lemma window_snoc: "window (pings @ [x]) = (window pings)[length pings mod 32 := x]"
proof (rule nth_equalityI)
  fix i assume "i < length (window (pings @ [x]))"
  then have i: "i < 32" by simp
  show "window (pings @ [x]) ! i = (window pings)[length pings mod 32 := x] ! i"
  proof (cases "i = length pings mod 32")
    case True
    then show ?thesis using i by (simp add: nth_window slot_last_Suc)
  next
    case False
    then have same: "slot_last (Suc (length pings)) i = slot_last (length pings) i" by (simp add: slot_last_Suc [OF i])
    have "window (pings @ [x]) ! i = window pings ! i"
    proof (cases "slot_last (length pings) i")
      case (Some j)
      then have "j < length pings" by (simp add: slot_last_iff [OF i])
      with Some same show ?thesis by (simp add: nth_window i nth_append)
    qed (simp add: nth_window i same)
    then show ?thesis using False by simp
  qed
qed simp

lemma window_send:
  "window (log_send now pings) =
     (window pings)[length pings mod 32 := \<lparr>timestamp = now, latency = -1, sequence = of_nat (length pings)\<rparr>]"
  by (simp add: log_send_def window_snoc)

lemma log_ok_send: "log_ok pings \<Longrightarrow> log_ok (log_send now pings)"
  by (auto simp: log_ok_def log_send_def nth_append less_Suc_eq)

lemma nextPing_refines:
  assumes R: "ring_refines pings h" and s: "m_pingSender h \<noteq> None"
  shows "\<exists>h'. nextPing now h = Inr h' \<and> ring_refines (log_send now pings) h' \<and> ping_sent h' = ping_sent h @ [(m_gateway h, m_sequence h)]"
  using assms by (auto simp: nextPing_def ring_refines_def log_ok_send window_send pingSlot_of_nat Let_def)
     (simp add: log_send_def)

lemma length_log_answer [simp]: "length (log_answer now seq pings) = length pings"
  by (simp add: log_answer_def Let_def)

lemma nth_log_answer:
  assumes "j < length pings"
  shows "log_answer now seq pings ! j =
    (if length pings \<le> j + 32 \<and> sequence (pings ! j) = seq then (pings ! j)\<lparr>latency := now - timestamp (pings ! j)\<rparr> else pings ! j)"
  using assms by (auto simp: log_answer_def Let_def nth_append)

lemma log_ok_answer: "log_ok pings \<Longrightarrow> log_ok (log_answer now seq pings)"
  by (simp add: log_ok_def nth_log_answer)

text \<open>An empty slot has sequence number zero, so only the answer to ping zero could be taken for one.\<close>

lemma window_answer:
  assumes ok: "log_ok pings" and seq: "seq \<noteq> 0 \<or> pings \<noteq> []"
  shows "window (log_answer now seq pings) =
    (if sequence (window pings ! pingSlot seq) = seq
     then (window pings)[pingSlot seq := (window pings ! pingSlot seq)\<lparr>latency := now - timestamp (window pings ! pingSlot seq)\<rparr>]
     else window pings)"
proof (rule nth_equalityI)
  fix i assume "i < length (window (log_answer now seq pings))"
  then have i: "i < 32" by simp
  show "window (log_answer now seq pings) ! i = (if sequence (window pings ! pingSlot seq) = seq
     then (window pings)[pingSlot seq := (window pings ! pingSlot seq)\<lparr>latency := now - timestamp (window pings ! pingSlot seq)\<rparr>]
     else window pings) ! i"
  proof (cases "slot_last (length pings) i")
    case None
    have "sequence (window pings ! pingSlot seq) \<noteq> seq" if "i = pingSlot seq"
    proof
      assume "sequence (window pings ! pingSlot seq) = seq"
      then have "seq = 0" using None that i by (simp add: nth_window emptyPing_def)
      then have "pings \<noteq> []" "i = 0" using seq that by (auto simp: pingSlot_def)
      then show False using None by (simp add: slot_last_None)
    qed
    moreover have "window (log_answer now seq pings) ! i = window pings ! i" using None i by (simp add: nth_window)
    ultimately show ?thesis by (cases "i = pingSlot seq") auto
  next
    case (Some j)
    then have j: "j < length pings" "length pings \<le> j + 32" "j mod 32 = i" by (simp_all add: slot_last_iff [OF i])
    have sj: "sequence (pings ! j) = of_nat j" using ok j(1) by (simp add: log_ok_def)
    have slot: "sequence (pings ! j) = seq \<Longrightarrow> pingSlot seq = i" using sj j(3) pingSlot_of_nat [of j] by auto
    have old: "window pings ! i = pings ! j" using Some i by (simp add: nth_window)
    have new: "window (log_answer now seq pings) ! i =
        (if sequence (pings ! j) = seq then (pings ! j)\<lparr>latency := now - timestamp (pings ! j)\<rparr> else pings ! j)"
      using Some i j by (simp add: nth_window nth_log_answer)
    show ?thesis
    proof (cases "pingSlot seq = i")
      case True
      then show ?thesis using i by (simp add: new old)
    next
      case False
      then show ?thesis using slot by (auto simp: new old)
    qed
  qed
qed simp

lemma pingReceived_refines:
  assumes "ring_refines pings h" "seq \<noteq> 0 \<or> pings \<noteq> []"
  shows "ring_refines (log_answer now seq pings) (pingReceived now seq h)"
  using assms window_answer [of pings seq now]
  by (auto simp: ring_refines_def pingReceived_def log_ok_answer Let_def)

lemma ping_start_refines: "ring_refines [] (ping_start Q f v g a h)"
proof -
  have "window [] = replicate 32 emptyPing"
    by (rule nth_equalityI) (simp_all add: nth_window slot_last_def)
  then show ?thesis by (simp add: ring_refines_def log_ok_def ping_start_def PING_STATS_WINDOW_def Let_def)
qed

text \<open>The buffer holds the last 32 pings and nothing else, in whatever order.\<close>

lemma window_at_next:
  "window pings ! (length pings mod 32) = (if length pings < 32 then emptyPing else pings ! (length pings - 32))"
proof (cases "length pings < 32")
  case True
  then show ?thesis by (simp add: nth_window slot_last_def)
next
  case False
  then have "slot_last (length pings) (length pings mod 32) = Some (length pings - 32)"
    by (simp add: slot_last_iff le_mod_geq)
  then show ?thesis using False by (simp add: nth_window)
qed

lemma mset_window:
  "mset (window pings) = mset (drop (length pings - 32) pings) + replicate_mset (32 - length pings) emptyPing"
proof (induction pings rule: rev_induct)
  case Nil
  have "window [] = replicate 32 emptyPing"
    by (rule nth_equalityI) (simp_all add: nth_window slot_last_def)
  then show ?case by simp
next
  case (snoc x pings)
  define n where "n = length pings"
  have upd: "mset (window (pings @ [x])) = add_mset x (mset (window pings) - {#window pings ! (n mod 32)#})"
    by (simp add: window_snoc mset_update n_def)
  show ?case
  proof (cases "n < 32")
    case True
    then have "32 - n = Suc (31 - n)" by simp
    then have r: "replicate_mset (32 - n) emptyPing = add_mset emptyPing (replicate_mset (31 - n) emptyPing)"
      by (simp only: replicate_mset_Suc)
    have "window pings ! n = emptyPing" using True window_at_next [of pings] by (simp add: n_def)
    then show ?thesis
      using True snoc.IH by (simp add: upd n_def [symmetric] r)
  next
    case False
    then have "Suc (n - 32) = n - 31" "n - 32 < length pings" by (simp_all add: n_def)
    then have "drop (n - 32) pings = pings ! (n - 32) # drop (n - 31) pings"
      using Cons_nth_drop_Suc [of "n - 32" pings] by simp
    moreover have "window pings ! (n mod 32) = pings ! (n - 32)"
      using False window_at_next [of pings] by (simp add: n_def)
    ultimately show ?thesis
      using False snoc.IH by (simp add: upd n_def [symmetric])
  qed
qed

definition lost :: "int \<Rightarrow> PingSendData \<Rightarrow> bool" where
  "lost sendBefore d \<longleftrightarrow> latency d < 0 \<and> timestamp d > 0 \<and> timestamp d < sendBefore"

lemma loss_loop_eq:
  "loss_loop t ds a b = (a + int (length (filter (\<lambda>d. latency d \<ge> 0) ds)) + int (length (filter (lost t) ds)),
                         b + int (length (filter (\<lambda>d. latency d \<ge> 0) ds)))"
  by (induction ds arbitrary: a b) (auto simp: lost_def)

lemma ping_loss_eq: "ping_loss now h = of_nat (length (filter (lost (now - PING_TIMEOUT)) (m_pingData h))) / 32"
proof -
  define n where "n = length (filter (lost (now - PING_TIMEOUT)) (m_pingData h))"
  define r where "r = length (filter (\<lambda>d. latency d \<ge> 0) (m_pingData h))"
  have "loss_loop (now - PING_TIMEOUT) (m_pingData h) 0 0 = (int r + int n, int r)"
    by (simp add: loss_loop_eq n_def r_def)
  then have "ping_loss now h = of_nat n / 32"
    by (simp add: ping_loss_def PING_STATS_WINDOW_def)
  then show ?thesis by (simp add: n_def)
qed

lemma count_window:
  assumes "\<not> P emptyPing"
  shows "length (filter P (window pings)) = length (filter P (drop (length pings - 32) pings))"
proof -
  have "filter_mset P (mset (window pings)) = filter_mset P (mset (drop (length pings - 32) pings))"
    using assms by (simp add: mset_window)
  then show ?thesis by (metis mset_filter size_mset)
qed

subsection \<open>Runs\<close>

inductive ping_run :: "PingSendData list \<Rightarrow> PingHelper \<Rightarrow> bool" where
  run_start: "ping_run [] (ping_start Q factoryValid dnsValid serverGateway deviceAddress h)"
| run_send: "ping_run pings h \<Longrightarrow> nextPing now h = Inr h' \<Longrightarrow> ping_run (log_send now pings) h'"
| run_answer: "ping_run pings h \<Longrightarrow> seq \<noteq> 0 \<or> pings \<noteq> [] \<Longrightarrow> ping_run (log_answer now seq pings) (pingReceived now seq h)"

lemma ping_run_refines: "ping_run pings h \<Longrightarrow> ring_refines pings h \<and> m_pingSender h \<noteq> None"
proof (induction rule: ping_run.induct)
  case (run_start Q f v g a h)
  then show ?case by (simp add: ping_start_refines) (simp add: ping_start_def Let_def)
next
  case (run_send pings h now h')
  then show ?case using nextPing_refines [of pings h now] by (auto simp: nextPing_def Let_def)
next
  case (run_answer pings h seq now)
  then show ?case using pingReceived_refines [of pings h seq now] by (auto simp: pingReceived_def Let_def)
qed

subsection \<open>Properties\<close>

text \<open>
  C6. The circular buffer implements the log of pings: however many pings were sent and answered
  since the start, across the overflow of the 16 bit sequence number, sending never follows a null
  sender, the buffer with its empty slots is the multiset of the last 32 pings of the log, an answer
  is credited to the ping it belongs to, and the reported loss is the number of pings among those 32
  that are unanswered after a second, divided by 32.
\<close>

theorem ping_window_refines_log:
  assumes "ping_run pings h"
  shows "(\<exists>h'. nextPing now h = Inr h' \<and> ping_run (log_send now pings) h') \<and>
    mset (m_pingData h) = mset (drop (length pings - 32) pings) + replicate_mset (32 - length pings) emptyPing \<and>
    ping_loss now h = of_nat (length (filter (lost (now - 1000)) (drop (length pings - 32) pings))) / 32 \<and>
    0 \<le> ping_loss now h \<and> ping_loss now h \<le> 1"
proof -
  have R: "ring_refines pings h" "m_pingSender h \<noteq> None" using ping_run_refines [OF assms] by simp_all
  obtain h' where "nextPing now h = Inr h'" using nextPing_refines [OF R] by blast
  moreover have data: "m_pingData h = window pings" using R by (simp add: ring_refines_def)
  have loss: "ping_loss now h = of_nat (length (filter (lost (now - 1000)) (drop (length pings - 32) pings))) / 32"
    by (simp add: ping_loss_eq data count_window PING_TIMEOUT_def lost_def emptyPing_def)
  have "length (filter (lost (now - 1000)) (drop (length pings - 32) pings)) \<le> length (drop (length pings - 32) pings)"
    by (rule length_filter_le)
  then have "(of_nat (length (filter (lost (now - 1000)) (drop (length pings - 32) pings))) :: rat) \<le> 32"
    by simp
  ultimately show ?thesis
    using run_send [OF assms] by (auto simp: data mset_window loss)
qed

definition pingNet :: qt_net where
  "pingNet = \<lparr>qHostAddress = (\<lambda>s. NullAddress), qParseSubnet = (\<lambda>s. (NullAddress, -1)), qAddrToString = (\<lambda>a. []),
     qIsLoopback = (\<lambda>a. False), qNumber = (\<lambda>n. []), qToInt = (\<lambda>s. None)\<rparr>"

theorem ping_window_refines_log_witness:
  "\<exists>h1. nextPing 100 (ping_start pingNet True True [] [] newPingHelper) = Inr h1 \<and> ping_loss 5000 h1 = 1 / 32"
proof -
  have start: "ping_run [] (ping_start pingNet True True [] [] newPingHelper)" by (rule run_start)
  obtain h1 where h1: "nextPing 100 (ping_start pingNet True True [] [] newPingHelper) = Inr h1" "ping_run (log_send 100 []) h1"
    using ping_window_refines_log [OF start, of 100] by blast
  have "ping_loss 5000 h1 = of_nat (length (filter (lost (5000 - 1000)) (drop (length (log_send 100 []) - 32) (log_send 100 [])))) / 32"
    using ping_window_refines_log [OF h1(2), of 5000] by blast
  with h1(1) show ?thesis by (simp add: log_send_def lost_def)
qed

text \<open>
  An answer to ping zero that arrives before the first ping of a new run was sent is taken for an
  answer to the empty slot, with a latency counted from the time \<open>-1\<close>.
\<close>

lemma stale_answer_counted:
  "ping_emitted (pingReceived now 0 (ping_start Q f v g a h)) = ping_emitted h @ [now + 1]"
  by (simp add: pingReceived_def ping_start_def pingSlot_def PING_STATS_WINDOW_def emptyPing_def Let_def)

end
