(* ===== verification/Interface_Config.thy ===== *)
theory Interface_Config
  imports IP_Address
begin

text \<open>
  \<^verbatim>\<open>src/src/utils/interfaceconfig.cpp\<close> and \<^verbatim>\<open>interfaceconfig.h\<close>: the description of one
  WireGuard connection, its JSON form (what the client sends to the daemon) and its
  \<open>wg-quick\<close> text form.  String members are \<open>qstr\<close> because the code tells null from empty.
\<close>

subsection \<open>The configuration\<close>

datatype HopType = SingleHop | MultiHopEntry | MultiHopExit

text \<open>The numeric order of the enumeration, which \<open>QMap\<close> iterates by.\<close>

instantiation HopType :: linorder
begin

fun hop_index :: "HopType \<Rightarrow> nat" where
  "hop_index SingleHop = 0"
| "hop_index MultiHopEntry = 1"
| "hop_index MultiHopExit = 2"

definition less_eq_HopType :: "HopType \<Rightarrow> HopType \<Rightarrow> bool" where
  "less_eq_HopType a b \<longleftrightarrow> hop_index a \<le> hop_index b"

definition less_HopType :: "HopType \<Rightarrow> HopType \<Rightarrow> bool" where
  "less_HopType a b \<longleftrightarrow> hop_index a < hop_index b"

instance
proof
  fix x y :: HopType
  show "x \<le> y \<Longrightarrow> y \<le> x \<Longrightarrow> x = y"
    by (cases x; cases y) (simp_all add: less_eq_HopType_def)
qed (auto simp: less_eq_HopType_def less_HopType_def)

end

record InterfaceConfig =
  m_hopType :: HopType
  m_privateKey :: qstr
  m_deviceIpv4Address :: qstr
  m_deviceIpv6Address :: qstr
  m_serverIpv4Gateway :: qstr
  m_serverIpv6Gateway :: qstr
  m_serverPublicKey :: qstr
  m_serverIpv4AddrIn :: qstr
  m_serverIpv6AddrIn :: qstr
  m_dnsServer :: qstr
  m_entryCity :: qstr
  m_exitCity :: qstr
  m_serverPort :: int
  m_allowedIPAddressRanges :: "IPAddress list"
  m_vpnDisabledApps :: "string list"

text \<open>A default-constructed configuration; the code always assigns \<open>m_hopType\<close> before use.\<close>

definition emptyConfig :: InterfaceConfig where
  "emptyConfig = \<lparr>m_hopType = SingleHop, m_privateKey = None, m_deviceIpv4Address = None,
     m_deviceIpv6Address = None, m_serverIpv4Gateway = None, m_serverIpv6Gateway = None,
     m_serverPublicKey = None, m_serverIpv4AddrIn = None, m_serverIpv6AddrIn = None,
     m_dnsServer = None, m_entryCity = None, m_exitCity = None, m_serverPort = 0,
     m_allowedIPAddressRanges = [], m_vpnDisabledApps = []\<rparr>"

subsection \<open>The JSON form\<close>

text \<open>
  \<open>QMetaEnum::valueToKey\<close> and \<open>keyToValue\<close> for \<open>HopType\<close>; the latter also accepts a key
  with the scope of the class in front.
\<close>

fun hopTypeToKey :: "HopType \<Rightarrow> string" where
  "hopTypeToKey SingleHop = ''SingleHop''"
| "hopTypeToKey MultiHopEntry = ''MultiHopEntry''"
| "hopTypeToKey MultiHopExit = ''MultiHopExit''"

definition hopTypeFromKey :: "string \<Rightarrow> HopType option" where
  "hopTypeFromKey k =
     (let k = (if take 17 k = ''InterfaceConfig::'' then drop 17 k else k) in
      if k = ''SingleHop'' then Some SingleHop
      else if k = ''MultiHopEntry'' then Some MultiHopEntry
      else if k = ''MultiHopExit'' then Some MultiHopExit
      else None)"

definition jString :: "qstr \<Rightarrow> json" where
  "jString s = JString (qtext s)"

definition rangeToJson :: "qt_net \<Rightarrow> IPAddress \<Rightarrow> json" where
  "rangeToJson Q i = JObject
     (jInsert ''isIpv6'' (JBool (ip_type i = IPv6Protocol))
     (jInsert ''range'' (JDouble (of_int (m_prefixLength i)))
     (jInsert ''address'' (JString (qAddrToString Q (m_address i))) [])))"

definition config_toJson :: "qt_net \<Rightarrow> InterfaceConfig \<Rightarrow> json_object" where
  "config_toJson Q c =
     (let json = jInsert ''hopType'' (JString (hopTypeToKey (m_hopType c))) [];
          json = jInsert ''privateKey'' (jString (m_privateKey c)) json;
          json = jInsert ''deviceIpv4Address'' (jString (m_deviceIpv4Address c)) json;
          json = jInsert ''deviceIpv6Address'' (jString (m_deviceIpv6Address c)) json;
          json = jInsert ''serverPublicKey'' (jString (m_serverPublicKey c)) json;
          json = jInsert ''serverIpv4AddrIn'' (jString (m_serverIpv4AddrIn c)) json;
          json = jInsert ''serverIpv6AddrIn'' (jString (m_serverIpv6AddrIn c)) json;
          json = jInsert ''serverPort'' (JDouble (of_int (m_serverPort c))) json;
          json = (if m_hopType c = MultiHopExit \<or> m_hopType c = SingleHop then
                    jInsert ''dnsServer'' (jString (m_dnsServer c))
                   (jInsert ''serverIpv6Gateway'' (jString (m_serverIpv6Gateway c))
                   (jInsert ''serverIpv4Gateway'' (jString (m_serverIpv4Gateway c)) json))
                  else json);
          json = jInsert ''allowedIPAddressRanges''
                   (JArray (map (rangeToJson Q) (m_allowedIPAddressRanges c))) json;
          json = jInsert ''vpnDisabledApps'' (JArray (map JString (m_vpnDisabledApps c))) json
      in json)"

subsection \<open>The text form\<close>

abbreviation nl :: string where
  "nl \<equiv> [CHR 0x0A]"

definition hasNewline :: "qstr \<Rightarrow> bool" where
  "hasNewline s \<longleftrightarrow> CHR 0x0A \<in> set (qtext s)"

definition peerCommentLines :: "string \<Rightarrow> string" where
  "peerCommentLines peerComment =
     (if peerComment = [] then []
      else concat (map (\<lambda>line. ''# '' @ line @ nl) (qsplit (CHR 0x0A) peerComment)))"

definition endpointLine :: "qt_net \<Rightarrow> InterfaceConfig \<Rightarrow> string" where
  "endpointLine Q c =
     (if \<not> qIsNull (m_serverIpv4AddrIn c) then
        ''Endpoint = '' @ qtext (m_serverIpv4AddrIn c) @ '':'' @ qNumber Q (m_serverPort c) @ nl
      else if \<not> qIsNull (m_serverIpv6AddrIn c) then
        ''Endpoint = ['' @ qtext (m_serverIpv6AddrIn c) @ '']:'' @ qNumber Q (m_serverPort c) @ nl
      else [])"

definition allowedIPsLine :: "qt_net \<Rightarrow> InterfaceConfig \<Rightarrow> string" where
  "allowedIPsLine Q c =
     ''AllowedIPs = '' @ joinWith '', '' (map (ip_toString Q) (m_allowedIPAddressRanges c)) @ nl"

definition deviceAddresses :: "InterfaceConfig \<Rightarrow> string list" where
  "deviceAddresses c =
     (if \<not> qIsNull (m_deviceIpv4Address c) then [qtext (m_deviceIpv4Address c)] else []) @
     (if \<not> qIsNull (m_deviceIpv6Address c) then [qtext (m_deviceIpv6Address c)] else [])"

definition dnsLine :: "InterfaceConfig \<Rightarrow> string" where
  "dnsLine c =
     (if \<not> qIsNull (m_dnsServer c) then
        (let dnsServers = [qtext (m_dnsServer c)] @
               (if qEq (m_dnsServer c) (m_serverIpv4Gateway c) then [qtext (m_serverIpv6Gateway c)] else [])
         in ''DNS = '' @ joinWith '', '' dnsServers @ nl)
      else [])"

definition toWgConf :: "qt_net \<Rightarrow> InterfaceConfig \<Rightarrow> (string \<times> string) list \<Rightarrow> string \<Rightarrow> string" where
  "toWgConf Q c extra peerComment =
     (if hasNewline (m_privateKey c) \<or> hasNewline (m_deviceIpv4Address c) \<or>
         hasNewline (m_deviceIpv6Address c) \<or> hasNewline (m_serverIpv4Gateway c) \<or>
         hasNewline (m_serverIpv6Gateway c) \<or> hasNewline (m_serverPublicKey c) \<or>
         hasNewline (m_serverIpv4AddrIn c) \<or> hasNewline (m_serverIpv6AddrIn c) then []
      else if deviceAddresses c = [] then []
      else
        ''[Interface]'' @ nl @
        ''PrivateKey = '' @ qtext (m_privateKey c) @ nl @
        ''Address = '' @ joinWith '', '' (deviceAddresses c) @ nl @
        dnsLine c @
        concat (map (\<lambda>(k, v). k @ '' = '' @ v @ nl) extra) @
        nl @ ''[Peer]'' @ nl @
        peerCommentLines peerComment @
        ''PublicKey = '' @ qtext (m_serverPublicKey c) @ nl @
        endpointLine Q c @
        allowedIPsLine Q c)"

definition toMultiHopWgConf ::
    "qt_net \<Rightarrow> InterfaceConfig \<Rightarrow> InterfaceConfig \<Rightarrow> (string \<times> string) list \<Rightarrow> string \<Rightarrow> string \<Rightarrow> string" where
  "toMultiHopWgConf Q c exitConfig extra exitPeerComment entryPeerComment =
     (let content = toWgConf Q c extra entryPeerComment in
      if hasNewline (m_serverPublicKey exitConfig) \<or> hasNewline (m_serverIpv4AddrIn exitConfig) then []
      else content @
        nl @ ''[Peer]'' @ nl @
        peerCommentLines exitPeerComment @
        ''PublicKey = '' @ qtext (m_serverPublicKey exitConfig) @ nl @
        endpointLine Q exitConfig @
        allowedIPsLine Q exitConfig)"

lemma hopTypeFromKey_toKey [simp]: "hopTypeFromKey (hopTypeToKey h) = Some h"
  by (cases h) (simp_all add: hopTypeFromKey_def)

end
