(* ===== verification/VPN_Controller.thy ===== *)
theory VPN_Controller
  imports DNS_Helper Interface_Config
begin

text \<open>
  \<^verbatim>\<open>src/src/controller.cpp\<close> and \<^verbatim>\<open>controller.h\<close>: the client's connection state
  machine, as built for Linux.  The record \<open>Controller\<close> has the members of the class; signals,
  calls on the platform controller \<open>m_impl\<close> and calls on other objects are recorded in order in
  \<open>m_actions\<close>.  \<open>ctl_env\<close> holds what a call reads from other objects while it runs (profiles,
  device, features, the random draws, the clock).  A failed assertion is the value \<open>Inl\<close>.
\<close>

subsection \<open>Enumerations\<close>

datatype State =
    StateInitializing | StatePermissionRequired | StateOff | StateDisconnecting | StateRegeneratingKey
  | StateConnectionError | StateConnecting | StateConfirming | StateSwitching | StateSilentSwitching
  | StateOnPartial | StateOn

text \<open>The states are ordered from least to most active, and the code compares them.\<close>

instantiation State :: linorder
begin

fun state_index :: "State \<Rightarrow> nat" where
  "state_index StateInitializing = 0"
| "state_index StatePermissionRequired = 1"
| "state_index StateOff = 2"
| "state_index StateDisconnecting = 3"
| "state_index StateRegeneratingKey = 4"
| "state_index StateConnectionError = 5"
| "state_index StateConnecting = 6"
| "state_index StateConfirming = 7"
| "state_index StateSwitching = 8"
| "state_index StateSilentSwitching = 9"
| "state_index StateOnPartial = 10"
| "state_index StateOn = 11"

definition less_eq_State :: "State \<Rightarrow> State \<Rightarrow> bool" where
  "less_eq_State a b \<longleftrightarrow> state_index a \<le> state_index b"

definition less_State :: "State \<Rightarrow> State \<Rightarrow> bool" where
  "less_State a b \<longleftrightarrow> state_index a < state_index b"

instance
proof
  fix x y :: State
  show "x \<le> y \<Longrightarrow> y \<le> x \<Longrightarrow> x = y"
    by (cases x; cases y) (simp_all add: less_eq_State_def)
qed (auto simp: less_eq_State_def less_State_def)

end

datatype Reason = ReasonNone | ReasonSwitching | ReasonConfirming | ReasonUpdating

datatype ErrorCode =
    ErrorNone | ErrorFatal | ErrorSplitTunnelInit | ErrorSplitTunnelStart | ErrorSplitTunnelExclude
  | ErrorServerTimeout | ErrorNoServerAvailable

datatype ActivationPrincipal = NullPrincipal | ExtensionUser | ClientUser

instantiation ActivationPrincipal :: linorder
begin

fun principal_index :: "ActivationPrincipal \<Rightarrow> nat" where
  "principal_index NullPrincipal = 0"
| "principal_index ExtensionUser = 1"
| "principal_index ClientUser = 2"

definition less_eq_ActivationPrincipal :: "ActivationPrincipal \<Rightarrow> ActivationPrincipal \<Rightarrow> bool" where
  "less_eq_ActivationPrincipal a b \<longleftrightarrow> principal_index a \<le> principal_index b"

definition less_ActivationPrincipal :: "ActivationPrincipal \<Rightarrow> ActivationPrincipal \<Rightarrow> bool" where
  "less_ActivationPrincipal a b \<longleftrightarrow> principal_index a < principal_index b"

instance
proof
  fix x y :: ActivationPrincipal
  show "x \<le> y \<Longrightarrow> y \<le> x \<Longrightarrow> x = y"
    by (cases x; cases y) (simp_all add: less_eq_ActivationPrincipal_def)
qed (auto simp: less_eq_ActivationPrincipal_def less_ActivationPrincipal_def)

end

datatype NextStep = NoStep | Quit | Update | Reconnect | Disconnect
datatype DNSPortPolicy = ForceDNSPort | DoNotForceDNSPort
datatype ServerSelectionPolicy = RandomizeServerSelection | DoNotRandomizeServerSelection
datatype CoolDownPolicy = ServerCoolDownNeeded | ServerCoolDownNotNeeded

definition CONNECTION_MAX_RETRY :: int where "CONNECTION_MAX_RETRY = 9"
definition SERVER_UNRESPONSIVE_COOLDOWN_SEC :: int where "SERVER_UNRESPONSIVE_COOLDOWN_SEC = 300"

definition stateToReason :: "State \<Rightarrow> Reason" where
  "stateToReason s =
     (if s = StateSwitching \<or> s = StateSilentSwitching then ReasonSwitching
      else if s = StateConfirming then ReasonConfirming
      else ReasonNone)"

subsection \<open>Status, state and environment\<close>

record ControllerStatus =
  st_connected :: bool
  st_timestamp :: "int option"
  st_ipv4Address :: QHostAddress
  st_ipv6Address :: QHostAddress
  st_ipv4Gateway :: QHostAddress
  st_ipv6Gateway :: QHostAddress
  st_rxBytes :: "64 word"
  st_txBytes :: "64 word"

definition clearStatus :: ControllerStatus where
  "clearStatus = \<lparr>st_connected = False, st_timestamp = None, st_ipv4Address = NullAddress,
     st_ipv6Address = NullAddress, st_ipv4Gateway = NullAddress, st_ipv6Gateway = NullAddress,
     st_rxBytes = 0, st_txBytes = 0\<rparr>"

definition jToInteger :: "json option \<Rightarrow> int" where
  "jToInteger v = (case v of
       Some (JDouble r) \<Rightarrow> (let n = floor r in if of_int n = r \<and> - (2^63) \<le> n \<and> n < 2^63 then n else 0)
     | _ \<Rightarrow> 0)"

text \<open>\<open>ControllerStatus(QJsonObject)\<close>; the ISO date parser is an argument.\<close>

definition status_fromJson :: "qt_net \<Rightarrow> (string \<Rightarrow> int option) \<Rightarrow> json_object \<Rightarrow> ControllerStatus" where
  "status_fromJson Q isoDate obj =
     (let connected = jToBool (jValue obj ''connected'') in
      \<lparr>st_connected = connected,
       st_timestamp = (if connected then isoDate (qtext (jToString (jValue obj ''date''))) else None),
       st_ipv4Address = qHostAddress Q (qtext (jToString (jValue obj ''deviceIpv4Address''))),
       st_ipv6Address = qHostAddress Q (qtext (jToString (jValue obj ''deviceIpv6Address''))),
       st_ipv4Gateway = qHostAddress Q (qtext (jToString (jValue obj ''serverIpv4Gateway''))),
       st_ipv6Gateway = qHostAddress Q (qtext (jToString (jValue obj ''serverIpv6Gateway''))),
       st_rxBytes = word_of_int (jToInteger (jValue obj ''rxBytes'')),
       st_txBytes = word_of_int (jToInteger (jValue obj ''txBytes''))\<rparr>)"

datatype ctl_action =
    StateChanged State
  | ErrorChanged
  | StatusUpdated ControllerStatus
  | TimestampChanged
  | EnableDisconnectInConfirmingChanged
  | ConnectionRetryChanged
  | ReadyToQuit
  | ReadyToUpdate
  | ReadyToServerUnavailable bool
  | ActivationBlockedForCaptivePortal
  | IsDeviceConnectedChanged
  | CurrentServerChanged
  | ReportControllerError
  | ReportSplitTunnelError
  | ReportAuthenticationError
  | RequestScreenCaptivePortal
  | VpnReset
  | SetCooldown string int
  | DeleteTasks
  | ScheduleSwitchTask
  | ImplDestroyed
  | ImplInitialize bool
  | ImplActivate InterfaceConfig Reason
  | ImplDeactivate
  | ImplCheckStatus
  | ImplForceDaemonCrash
  | ImplDeleteOSTunnelConfig
  | ImplCleanupBackendLogs
  | ImplSendUpdatedConfig InterfaceConfig InterfaceConfig

record Controller =
  m_confirmingTimer :: bool
  m_handshakeTimer :: bool
  m_connectedTimeInUTC :: "int option"
  m_status :: ControllerStatus
  m_state :: State
  m_initiator :: ActivationPrincipal
  m_enableDisconnectInConfirming :: bool
  m_activationQueue :: "InterfaceConfig list"
  m_connectionRetry :: int
  m_impl :: bool
  m_backendAvailable :: bool
  m_portalDetected :: bool
  m_isDeviceConnected :: bool
  m_errorCode :: ErrorCode
  m_nextStep :: NextStep
  m_serverData :: ServerData
  m_nextServerData :: ServerData
  m_pingCanary :: "(string \<times> string) option"
  m_pingReceived :: bool
  m_stateSlots :: nat
  m_actions :: "ctl_action list"

definition newController :: Controller where
  "newController = \<lparr>m_confirmingTimer = False, m_handshakeTimer = False, m_connectedTimeInUTC = None,
     m_status = clearStatus, m_state = StateInitializing, m_initiator = NullPrincipal,
     m_enableDisconnectInConfirming = False, m_activationQueue = [], m_connectionRetry = 0, m_impl = False,
     m_backendAvailable = False, m_portalDetected = False, m_isDeviceConnected = True, m_errorCode = ErrorNone,
     m_nextStep = NoStep, m_serverData = emptyServerData, m_nextServerData = emptyServerData,
     m_pingCanary = None, m_pingReceived = False, m_stateSlots = 0, m_actions = []\<rparr>"

record ctl_env =
  e_hasProfiles :: bool
  e_device :: "(qstr \<times> qstr) option"
  e_privateKey :: qstr
  e_serverData :: ServerData
  e_scm :: ServerCountryModel
  e_getCooldown :: "string \<Rightarrow> int"
  e_nowSecs :: int
  e_nowUTC :: int
  e_settings :: SettingsState
  e_net :: qt_net
  e_translateCity :: "qstr \<Rightarrow> qstr"
  e_exitDraw :: "32 word"
  e_entryDraw :: "32 word"
  e_exitPortDraw :: "32 word"
  e_entryPortDraw :: "32 word"
  e_customDNS :: bool
  e_multiHop :: bool
  e_alwaysPort53 :: bool
  e_checkConnectivity :: bool
  e_unreachable :: bool
  e_splitTunnelSupported :: bool
  e_multihopSupported :: bool
  e_canSendUpdatedConfig :: bool

subsection \<open>State, errors, timers\<close>

definition act :: "ctl_action \<Rightarrow> Controller \<Rightarrow> Controller" where
  "act a c = c\<lparr>m_actions := m_actions c @ [a]\<rparr>"

definition isActive :: "Controller \<Rightarrow> bool" where
  "isActive c \<longleftrightarrow> m_state c > StateOff"

definition isInitialized :: "Controller \<Rightarrow> bool" where
  "isInitialized c \<longleftrightarrow> m_state c \<ge> StateOff"

definition maybeEnableDisconnectInConfirming :: "Controller \<Rightarrow> Controller" where
  "maybeEnableDisconnectInConfirming c =
     (if m_state c = StateConfirming then
        (act EnableDisconnectInConfirmingChanged (c\<lparr>m_enableDisconnectInConfirming := False\<rparr>))
          \<lparr>m_confirmingTimer := True\<rparr>
      else
        (act EnableDisconnectInConfirmingChanged (c\<lparr>m_enableDisconnectInConfirming := False\<rparr>))
          \<lparr>m_confirmingTimer := False\<rparr>)"

text \<open>
  \<open>stateChanged\<close> runs the slot \<open>maybeEnableDisconnectInConfirming\<close> once for every time
  \<open>initialize\<close> connected it.
\<close>

definition setState :: "State \<Rightarrow> Controller \<Rightarrow> Controller" where
  "setState s c =
     (if m_state c = s then c
      else (maybeEnableDisconnectInConfirming ^^ m_stateSlots c) (act (StateChanged s) (c\<lparr>m_state := s\<rparr>)))"

definition setError :: "ErrorCode \<Rightarrow> Controller \<Rightarrow> Controller" where
  "setError code c = (if m_errorCode c = code then c else act ErrorChanged (c\<lparr>m_errorCode := code\<rparr>))"

definition clearRetryCounter :: "Controller \<Rightarrow> Controller" where
  "clearRetryCounter c = act ConnectionRetryChanged (c\<lparr>m_connectionRetry := 0\<rparr>)"

definition startHandshakeTimer :: "Controller \<Rightarrow> Controller" where
  "startHandshakeTimer c = c\<lparr>m_handshakeTimer := True\<rparr>"

definition serverUnavailable :: "Controller \<Rightarrow> Controller" where
  "serverUnavailable c =
     (let c = act (ReadyToServerUnavailable (m_pingReceived c)) c;
          c = (if m_state c = StateConnecting then setError ErrorNoServerAvailable c else setError ErrorServerTimeout c)
      in setState StateConnectionError c)"

definition confirmingTimeout :: "Controller \<Rightarrow> Controller" where
  "confirmingTimeout c =
     act EnableDisconnectInConfirmingChanged (c\<lparr>m_confirmingTimer := False, m_enableDisconnectInConfirming := True\<rparr>)"

definition pingSentAndReceived :: "Controller \<Rightarrow> Controller" where
  "pingSentAndReceived c = c\<lparr>m_pingCanary := None, m_pingReceived := True\<rparr>"

definition connectionTimestamp :: "int \<Rightarrow> Controller \<Rightarrow> int" where
  "connectionTimestamp now c =
     (case m_state c of
        StateOn \<Rightarrow> (case m_connectedTimeInUTC c of Some t \<Rightarrow> t | None \<Rightarrow> now)
      | StateOnPartial \<Rightarrow> (case m_connectedTimeInUTC c of Some t \<Rightarrow> t | None \<Rightarrow> now)
      | StateSilentSwitching \<Rightarrow> (case m_connectedTimeInUTC c of Some t \<Rightarrow> t | None \<Rightarrow> now)
      | StateSwitching \<Rightarrow> (case m_connectedTimeInUTC c of Some t \<Rightarrow> t | None \<Rightarrow> now)
      | _ \<Rightarrow> 0)"

subsection \<open>Connection configurations\<close>

definition getAllowedIPAddressRanges :: "qt_net \<Rightarrow> Server \<Rightarrow> IPAddress list option" where
  "getAllowedIPAddressRanges Q exitServer =
     collect ([IPAddress_fromString Q ''0.0.0.0/0'', IPAddress_fromString Q ''::0/0'',
               ip_of_text Q (m_ipv4Gateway exitServer) 32] @
              (if \<not> qIsEmpty (m_ipv6Gateway exitServer) then [ip_of_text Q (m_ipv6Gateway exitServer) 128] else []) @
              [ip_of_text Q (Some MULLVAD_PROXY_RANGE) MULLVAD_PROXY_RANGE_LENGTH])"

definition chooseExitServer :: "ctl_env \<Rightarrow> ServerSelectionPolicy \<Rightarrow> Controller \<Rightarrow> fault + Server" where
  "chooseExitServer E policy c =
     (if policy = DoNotRandomizeServerSelection \<and> m_exitServerPublicKey (m_serverData c) \<noteq> []
      then Inr (model_server (e_scm E) (m_exitServerPublicKey (m_serverData c)))
      else weightChooser (e_exitDraw E) (exitServers (e_scm E) (e_getCooldown E) (e_nowSecs E) (m_serverData c)))"

definition chooseEntryServer :: "ctl_env \<Rightarrow> ServerSelectionPolicy \<Rightarrow> Controller \<Rightarrow> fault + Server" where
  "chooseEntryServer E policy c =
     (if policy = DoNotRandomizeServerSelection \<and> m_entryServerPublicKey (m_serverData c) \<noteq> []
      then Inr (model_server (e_scm E) (m_entryServerPublicKey (m_serverData c)))
      else weightChooser (e_entryDraw E) (entryServers (e_scm E) (e_getCooldown E) (e_nowSecs E) (m_serverData c)))"

text \<open>The members of the exit configuration that do not depend on the number of hops.\<close>

definition baseExitConfig :: "ctl_env \<Rightarrow> qstr \<times> qstr \<Rightarrow> Server \<Rightarrow> Controller \<Rightarrow> fault + InterfaceConfig" where
  "baseExitConfig E device exitServer c =
     fbind (ffrom (if m_initiator c = ExtensionUser
                   then getExtensionProxyAddressRanges (e_net E) (e_customDNS E) (e_settings E) exitServer None
                   else getAllowedIPAddressRanges (e_net E) exitServer)) (\<lambda>allowedIPList.
     fbind (choosePort (e_exitPortDraw E) exitServer) (\<lambda>port.
     fbind (getDNS (e_net E) (e_customDNS E) (e_settings E) (m_ipv4Gateway exitServer)) (\<lambda>dns.
       Inr (emptyConfig\<lparr>m_privateKey := e_privateKey E,
         m_deviceIpv4Address := fst device, m_deviceIpv6Address := snd device,
         m_serverIpv4Gateway := m_ipv4Gateway exitServer, m_serverIpv6Gateway := m_ipv6Gateway exitServer,
         m_serverPublicKey := m_publicKey exitServer, m_serverIpv4AddrIn := m_ipv4AddrIn exitServer,
         m_serverIpv6AddrIn := m_ipv6AddrIn exitServer, m_serverPort := sint port,
         m_allowedIPAddressRanges := allowedIPList, m_dnsServer := dns,
         m_exitCity := e_translateCity E (m_cityName exitServer),
         m_vpnDisabledApps := (if e_splitTunnelSupported E
           then vToStringList (Setting_get vpnDisabledAppsSetting (e_settings E)) else [])\<rparr>))))"

definition entryConfigFor ::
    "ctl_env \<Rightarrow> qstr \<times> qstr \<Rightarrow> Server \<Rightarrow> Server \<Rightarrow> DNSPortPolicy \<Rightarrow> fault + InterfaceConfig" where
  "entryConfigFor E device exitServer entryServer dnsPort =
     fbind (choosePort (e_entryPortDraw E) entryServer) (\<lambda>port.
     fbind (ffrom (collect ([IPAddress_fromString (e_net E) (qtext (m_ipv4AddrIn exitServer))] @
              (if \<not> qIsEmpty (m_ipv6AddrIn exitServer)
               then [IPAddress_fromString (e_net E) (qtext (m_ipv6AddrIn exitServer))] else [])))) (\<lambda>ranges.
       Inr (emptyConfig\<lparr>m_privateKey := e_privateKey E,
         m_deviceIpv4Address := fst device, m_deviceIpv6Address := snd device,
         m_serverPublicKey := m_publicKey entryServer, m_serverIpv4AddrIn := m_ipv4AddrIn entryServer,
         m_serverIpv6AddrIn := m_ipv6AddrIn entryServer,
         m_serverPort := (if dnsPort = ForceDNSPort then 53 else sint port),
         m_hopType := MultiHopEntry, m_allowedIPAddressRanges := ranges\<rparr>)))"

text \<open>The part of \<open>setupConfigs\<close> after the exit configuration is known.\<close>

definition finishConfigs ::
    "ctl_env \<Rightarrow> qstr \<times> qstr \<Rightarrow> Server \<Rightarrow> DNSPortPolicy \<Rightarrow> ServerSelectionPolicy \<Rightarrow> InterfaceConfig \<Rightarrow> Controller \<Rightarrow>
     fault + (InterfaceConfig list \<times> Controller)" where
  "finishConfigs E device exitServer dnsPort policy exitConfig c =
     (if \<not> e_multiHop E \<or> \<not> multihop (m_serverData c) then
            Inr ([exitConfig\<lparr>m_hopType := SingleHop,
                    m_serverPort := (if dnsPort = ForceDNSPort then 53 else m_serverPort exitConfig)\<rparr>], c)
          else if e_multihopSupported E then
            fbind (chooseEntryServer E policy c) (\<lambda>entryServer.
             if \<not> server_initialized entryServer then Inr ([], serverUnavailable c)
             else fbind (entryConfigFor E device exitServer entryServer dnsPort) (\<lambda>entryConfig.
               Inr ([entryConfig, exitConfig\<lparr>m_hopType := MultiHopExit,
                       m_entryCity := e_translateCity E (m_cityName entryServer)\<rparr>], c)))
          else
            fbind (chooseEntryServer E policy c) (\<lambda>entryServer.
             if \<not> server_initialized entryServer then Inr ([], serverUnavailable c)
             else Inr ([exitConfig\<lparr>m_hopType := SingleHop, m_serverPort := sint (m_multihopPort exitServer),
                         m_serverIpv4AddrIn := m_ipv4AddrIn entryServer, m_serverIpv6AddrIn := m_ipv6AddrIn entryServer,
                         m_entryCity := e_translateCity E (m_cityName entryServer)\<rparr>], c)))"

definition setupConfigs ::
    "ctl_env \<Rightarrow> DNSPortPolicy \<Rightarrow> ServerSelectionPolicy \<Rightarrow> Controller \<Rightarrow> fault + (InterfaceConfig list \<times> Controller)" where
  "setupConfigs E dnsPort policy c =
     fbind (chooseExitServer E policy c) (\<lambda>exitServer.
      if \<not> server_initialized exitServer then Inr ([], serverUnavailable c)
      else case e_device E of
        None \<Rightarrow> Inr ([], c\<lparr>m_nextStep := Disconnect\<rparr>)
      | Some device \<Rightarrow>
          fbind (baseExitConfig E device exitServer c) (\<lambda>exitConfig.
            finishConfigs E device exitServer (if e_alwaysPort53 E then ForceDNSPort else dnsPort) policy exitConfig c))"

subsection \<open>Activation\<close>

definition activateNext :: "ctl_env \<Rightarrow> Controller \<Rightarrow> Controller" where
  "activateNext E c =
     (case m_activationQueue c of
        [] \<Rightarrow> setState StateConnectionError (setError ErrorFatal c)
      | config # _ \<Rightarrow>
          if \<not> e_hasProfiles E \<and> e_device E = None then act VpnReset (act ReportAuthenticationError c)
          else
            let c = act (ImplActivate config (stateToReason (m_state c))) (startHandshakeTimer c) in
            if m_initiator c = ExtensionUser then c
            else if m_state c \<noteq> StateSwitching \<and> m_state c \<noteq> StateSilentSwitching then setState StateConfirming c
            else c)"

definition set_server_keys :: "string \<Rightarrow> string \<Rightarrow> Controller \<Rightarrow> Controller" where
  "set_server_keys entryKey exitKey c =
     c\<lparr>m_serverData := (m_serverData c)\<lparr>m_entryServerPublicKey := entryKey, m_exitServerPublicKey := exitKey\<rparr>\<rparr>"

definition activateInternal ::
    "ctl_env \<Rightarrow> DNSPortPolicy \<Rightarrow> ServerSelectionPolicy \<Rightarrow> ActivationPrincipal \<Rightarrow> Controller \<Rightarrow> fault + Controller" where
  "activateInternal E dnsPort policy initiator c =
     fassert (m_impl c)
      (let c = c\<lparr>m_initiator := initiator, m_handshakeTimer := False, m_activationQueue := []\<rparr> in
       fbind (setupConfigs E dnsPort policy c) (\<lambda>(serverConfigs, c).
        if serverConfigs = [] then Inr c
        else fassert (length serverConfigs = 1 \<or> length serverConfigs = 2)
          (let first = hd serverConfigs; c = c\<lparr>m_activationQueue := serverConfigs\<rparr>;
               c = set_server_keys (qtext (m_serverPublicKey first)) (qtext (m_serverPublicKey (last serverConfigs))) c;
               c = c\<lparr>m_pingReceived := False, m_pingCanary :=
                     Some (if qIsNull (m_serverIpv4AddrIn first)
                           then (qtext (m_serverIpv6AddrIn first), ''::/0'')
                           else (qtext (m_serverIpv4AddrIn first), ''0.0.0.0/0''))\<rparr>
           in Inr (activateNext E c))))"

definition activatable :: "Controller \<Rightarrow> bool" where
  "activatable c \<longleftrightarrow> m_state c \<in> {StateOff, StateOnPartial, StateSwitching, StateSilentSwitching, StateRegeneratingKey}"

text \<open>The connectivity check: \<open>True\<close> when the device is offline and the activation stops.\<close>

definition connectivityCheck :: "ctl_env \<Rightarrow> Controller \<Rightarrow> bool \<times> Controller" where
  "connectivityCheck E c =
     (if e_checkConnectivity E then
        (if e_unreachable E then (True, act IsDeviceConnectedChanged (c\<lparr>m_isDeviceConnected := False\<rparr>))
         else if \<not> m_isDeviceConnected c then (False, act IsDeviceConnectedChanged (c\<lparr>m_isDeviceConnected := True\<rparr>))
         else (False, c))
      else (False, c))"

definition activate_server ::
    "ctl_env \<Rightarrow> ServerData \<Rightarrow> ActivationPrincipal \<Rightarrow> ServerSelectionPolicy \<Rightarrow> Controller \<Rightarrow> fault + (bool \<times> Controller)" where
  "activate_server E serverData initiator policy c =
     (if \<not> activatable c then Inr (False, c)
      else
        let c = setError ErrorNone c;
            c = act CurrentServerChanged (c\<lparr>m_serverData := sd_assign (m_serverData c) serverData\<rparr>) in
        if m_state c = StateOff then
          (if m_portalDetected c then
             Inr (True, (act RequestScreenCaptivePortal (act ActivationBlockedForCaptivePortal c))\<lparr>m_portalDetected := False\<rparr>)
           else
             let (offline, c) = connectivityCheck E c in
             if offline then Inr (False, c)
             else
               let c = (if initiator \<noteq> ExtensionUser then setState StateConnecting c else c) in
               fbind (activateInternal E DoNotForceDNSPort policy initiator (clearRetryCounter c)) (\<lambda>c. Inr (True, c)))
        else
          let c = (if initiator \<noteq> ExtensionUser then setState StateConnecting c else c) in
          fbind (activateInternal E DoNotForceDNSPort policy initiator (clearRetryCounter c)) (\<lambda>c. Inr (True, c)))"

definition activate_config ::
    "ctl_env \<Rightarrow> InterfaceConfig \<Rightarrow> ActivationPrincipal \<Rightarrow> Controller \<Rightarrow> bool \<times> Controller" where
  "activate_config E config initiator c =
     (if \<not> activatable c then (False, c)
      else
        let c = setError ErrorNone c in
        if \<not> m_impl c \<or> \<not> m_backendAvailable c
        then (False, setState StateConnectionError (setError ErrorNoServerAvailable c))
        else
          let (offline, c) = (if m_state c = StateOff then connectivityCheck E c else (False, c)) in
          if offline then (False, c)
          else
            let localConfig = (if e_splitTunnelSupported E
                  then config\<lparr>m_vpnDisabledApps := vToStringList (Setting_get vpnDisabledAppsSetting (e_settings E))\<rparr>
                  else config);
                c = (if initiator \<noteq> ExtensionUser then setState StateConnecting c else c);
                c = (clearRetryCounter c)\<lparr>m_initiator := initiator, m_handshakeTimer := False,
                       m_activationQueue := [localConfig], m_pingReceived := False\<rparr>;
                c = (if \<not> qIsEmpty (m_serverIpv4AddrIn localConfig)
                     then c\<lparr>m_pingCanary := Some (qtext (m_serverIpv4AddrIn localConfig), ''0.0.0.0/0'')\<rparr>
                     else if \<not> qIsEmpty (m_serverIpv6AddrIn localConfig)
                     then c\<lparr>m_pingCanary := Some (qtext (m_serverIpv6AddrIn localConfig), ''::/0'')\<rparr>
                     else c)
            in (True, activateNext E c))"

subsection \<open>Deactivation\<close>

definition deactivate :: "ActivationPrincipal \<Rightarrow> Controller \<Rightarrow> fault + (bool \<times> Controller)" where
  "deactivate user c =
     (if m_initiator c > user then Inr (False, c)
      else if m_state c = StateConnectionError \<and> m_errorCode c = ErrorNoServerAvailable
      then Inr (True, setState StateOff c)
      else if \<not> isActive c then Inr (False, c)
      else
        let c = (if m_portalDetected c
                 then (act RequestScreenCaptivePortal (act ActivationBlockedForCaptivePortal c))\<lparr>m_portalDetected := False\<rparr>
                 else c);
            c = (if m_state c \<noteq> StateSwitching \<and> m_state c \<noteq> StateSilentSwitching
                 then setState StateDisconnecting c else c);
            c = c\<lparr>m_pingCanary := None, m_handshakeTimer := False, m_activationQueue := []\<rparr>;
            c = setError ErrorNone (clearRetryCounter c)
        in fassert (m_impl c) (Inr (True, act ImplDeactivate c)))"

text \<open>Calls that ignore the answer of \<open>deactivate()\<close>.\<close>

definition deactivate_ignored :: "Controller \<Rightarrow> fault + Controller" where
  "deactivate_ignored c = fbind (deactivate ClientUser c) (\<lambda>r. Inr (snd r))"

definition disconnected :: "ctl_env \<Rightarrow> Controller \<Rightarrow> fault + Controller" where
  "disconnected E c =
     (let c = clearRetryCounter (c\<lparr>m_pingCanary := None, m_handshakeTimer := False, m_activationQueue := []\<rparr>);
          next = m_nextStep c;
          c = c\<lparr>m_nextStep := NoStep\<rparr> in
      if next = Quit then Inr (setState StateOff (act ReadyToQuit c))
      else if next = Update then Inr (setState StateOff (act ReadyToUpdate c))
      else if next = Reconnect then
        activateInternal E DoNotForceDNSPort RandomizeServerSelection (m_initiator c)
          (act CurrentServerChanged (c\<lparr>m_serverData := sd_assign (m_serverData c) (m_nextServerData c)\<rparr>))
      else
        let c = act (StatusUpdated clearStatus) (act TimestampChanged
                  (c\<lparr>m_status := clearStatus, m_connectedTimeInUTC := None\<rparr>))
        in Inr (setState StateOff (c\<lparr>m_initiator := NullPrincipal\<rparr>)))"

definition quit :: "Controller \<Rightarrow> fault + Controller" where
  "quit c =
     (if \<not> isActive c then Inr (act ReadyToQuit c)
      else let c = c\<lparr>m_nextStep := Quit\<rparr> in
           if m_state c > StateDisconnecting then deactivate_ignored c else Inr c)"

definition updateRequired :: "Controller \<Rightarrow> fault + Controller" where
  "updateRequired c =
     (if \<not> isActive c then Inr (act ReadyToUpdate c)
      else let c = c\<lparr>m_nextStep := Update\<rparr> in
           if m_state c = StateOn \<or> m_state c = StateOnPartial then deactivate_ignored c else Inr c)"

subsection \<open>Handshakes\<close>

definition handshakeTimeout :: "ctl_env \<Rightarrow> Controller \<Rightarrow> fault + Controller" where
  "handshakeTimeout E c =
     fassert (m_activationQueue c \<noteq> [])
      (if e_hasProfiles E then
         (let c = setState StateConnectionError (setError ErrorServerTimeout c);
              c = c\<lparr>m_handshakeTimer := False, m_pingCanary := None\<rparr>
          in Inr (if m_impl c then act ImplDeactivate c else c))
       else
         let c = act (SetCooldown (qtext (m_serverPublicKey (hd (m_activationQueue c)))) SERVER_UNRESPONSIVE_COOLDOWN_SEC) c in
         if m_nextStep c = Quit \<or> m_nextStep c = Disconnect \<or> m_nextStep c = Update then deactivate_ignored c
         else
           let c = act ConnectionRetryChanged (c\<lparr>m_connectionRetry := m_connectionRetry c + 1\<rparr>) in
           fassert (m_hopType (last (m_activationQueue c)) \<noteq> MultiHopEntry)
            (if m_connectionRetry c = 1 then activateInternal E ForceDNSPort RandomizeServerSelection (m_initiator c) c
             else if m_connectionRetry c < CONNECTION_MAX_RETRY
             then activateInternal E DoNotForceDNSPort RandomizeServerSelection (m_initiator c) c
             else Inr (serverUnavailable c)))"

text \<open>The single-shot timer is inactive when its slot runs.\<close>

definition fire_handshakeTimer :: "ctl_env \<Rightarrow> Controller \<Rightarrow> fault + Controller" where
  "fire_handshakeTimer E c = handshakeTimeout E (c\<lparr>m_handshakeTimer := False\<rparr>)"

text \<open>The part of \<open>connected\<close> after all pending handshakes have completed.\<close>

definition all_connected :: "ctl_env \<Rightarrow> Controller \<Rightarrow> fault + Controller" where
  "all_connected E c =
     (let c = act ConnectionRetryChanged (c\<lparr>m_handshakeTimer := False, m_pingCanary := None, m_connectionRetry := 0\<rparr>);
          isSwitchingServer = (m_state c = StateSwitching \<or> m_state c = StateSilentSwitching);
          c = (if m_initiator c = ExtensionUser then setState StateOnPartial c else setState StateOn c);
          c = setError ErrorNone c;
          c = (if \<not> isSwitchingServer \<or> m_connectedTimeInUTC c = None
               then act TimestampChanged (c\<lparr>m_connectedTimeInUTC := Some (e_nowUTC E)\<rparr>) else c)
      in if m_nextStep c = Quit \<or> m_nextStep c = Disconnect \<or> m_nextStep c = Update
         then deactivate_ignored c else Inr c)"

definition connected :: "ctl_env \<Rightarrow> string \<Rightarrow> Controller \<Rightarrow> fault + Controller" where
  "connected E pubkey c =
     (case m_activationQueue c of
        [] \<Rightarrow> if m_exitServerPublicKey (m_serverData c) \<noteq> pubkey then Inr c else all_connected E c
      | first # rest \<Rightarrow>
          if qtext (m_serverPublicKey first) \<noteq> pubkey then Inr c
          else let c = c\<lparr>m_activationQueue := rest\<rparr> in
               if rest \<noteq> [] then Inr (activateNext E c) else all_connected E c)"

subsection \<open>Switching\<close>

definition silentSwitchServers :: "ctl_env \<Rightarrow> CoolDownPolicy \<Rightarrow> Controller \<Rightarrow> fault + (bool \<times> Controller)" where
  "silentSwitchServers E policy c =
     (if m_state c \<noteq> StateOn then Inr (False, c)
      else
        let servers = exitServers (e_scm E) (e_getCooldown E) (e_nowSecs E) (m_serverData c) in
        fassert (policy = ServerCoolDownNeeded \<longrightarrow> servers \<noteq> [])
         (if policy = ServerCoolDownNeeded \<and> length servers \<le> 1 then Inr (False, c)
          else
            let c = (if policy = ServerCoolDownNeeded
                     then act (SetCooldown (m_exitServerPublicKey (m_serverData c)) SERVER_UNRESPONSIVE_COOLDOWN_SEC) c
                     else c);
                selectionPolicy = (if policy = ServerCoolDownNeeded then RandomizeServerSelection
                                   else DoNotRandomizeServerSelection);
                c = setState StateSilentSwitching (clearRetryCounter c)
            in fbind (activateInternal E DoNotForceDNSPort selectionPolicy (m_initiator c) c) (\<lambda>c. Inr (True, c))))"

definition maybeSendUpdatedConfig :: "ctl_env \<Rightarrow> ServerData \<Rightarrow> Controller \<Rightarrow> fault + Controller" where
  "maybeSendUpdatedConfig E serverData c =
     fpointer (m_impl c) (if e_canSendUpdatedConfig E then
        let c = c\<lparr>m_serverData := sd_assign (m_serverData c) serverData\<rparr> in
        fbind (setupConfigs E DoNotForceDNSPort RandomizeServerSelection c) (\<lambda>(serverConfigs, c).
         if serverConfigs = [] then Inr c
         else fassert (length serverConfigs = 1 \<or> length serverConfigs = 2)
           (let exitConfig = last serverConfigs; exitKey = qtext (m_serverPublicKey exitConfig) in
            if butlast serverConfigs \<noteq> [] then
              (let entryConfig = hd serverConfigs;
                   c = c\<lparr>m_activationQueue := m_activationQueue c @ [entryConfig]\<rparr>
               in Inr (act (ImplSendUpdatedConfig entryConfig exitConfig)
                         (set_server_keys (qtext (m_serverPublicKey entryConfig)) exitKey c)))
            else Inr (act (ImplSendUpdatedConfig emptyConfig exitConfig) (set_server_keys exitKey exitKey c))))
      else Inr c)"

definition switchServers :: "ctl_env \<Rightarrow> ServerData \<Rightarrow> Controller \<Rightarrow> fault + (bool \<times> Controller)" where
  "switchServers E serverData c =
     (if \<not> isActive c then fbind (maybeSendUpdatedConfig E serverData c) (\<lambda>c. Inr (False, c))
      else
        let c = clearRetryCounter (c\<lparr>m_nextServerData := sd_assign (m_nextServerData c) serverData\<rparr>);
            c = (if m_state c \<noteq> StateConnecting then setState StateSwitching c else c) in
        fpointer (m_impl c)
        (if e_multihopSupported E \<and> multihop (m_nextServerData c) \<noteq> multihop (m_serverData c) then
          fbind (deactivate_ignored (c\<lparr>m_nextStep := Reconnect\<rparr>)) (\<lambda>c. Inr (True, c))
        else
          let c = act CurrentServerChanged (c\<lparr>m_serverData := sd_assign (m_serverData c) serverData\<rparr>) in
          fbind (activateInternal E DoNotForceDNSPort RandomizeServerSelection (m_initiator c) c) (\<lambda>c. Inr (True, c))))"

definition serverDataChanged :: "Controller \<Rightarrow> Controller" where
  "serverDataChanged c =
     (if \<not> isActive c \<or> m_state c = StateDisconnecting then c
      else act ScheduleSwitchTask (act DeleteTasks c))"

subsection \<open>Initialisation and the remaining slots\<close>

definition initialize :: "ctl_env \<Rightarrow> Controller \<Rightarrow> Controller" where
  "initialize E c =
     (let c = (if m_state c \<noteq> StateInitializing then setState StateInitializing c else c);
          c = c\<lparr>m_backendAvailable := False\<rparr>;
          c = (if m_impl c then act ImplDestroyed (c\<lparr>m_impl := False\<rparr>) else c);
          c = c\<lparr>m_serverData := sd_assign (m_serverData c) (e_serverData E),
                m_nextServerData := sd_assign (m_nextServerData c) (e_serverData E),
                m_impl := True, m_stateSlots := m_stateSlots c + 1\<rparr>
      in act (ImplInitialize (\<not> e_hasProfiles E \<and> e_device E \<noteq> None)) c)"

definition implPermRequired :: "Controller \<Rightarrow> Controller" where
  "implPermRequired c = setState StatePermissionRequired (c\<lparr>m_backendAvailable := False\<rparr>)"

definition implInitialized :: "ctl_env \<Rightarrow> bool \<Rightarrow> bool \<Rightarrow> int option \<Rightarrow> Controller \<Rightarrow> Controller" where
  "implInitialized E status a_connected connectionDate c =
     (if \<not> status then setState StateOff (act ReportControllerError (c\<lparr>m_backendAvailable := False\<rparr>))
      else
        let c = setState (if a_connected then StateOn else StateOff) (c\<lparr>m_backendAvailable := True\<rparr>);
            s = clearStatus\<lparr>st_connected := a_connected, st_timestamp := connectionDate\<rparr>;
            c = act (StatusUpdated s) (c\<lparr>m_status := s\<rparr>)
        in if a_connected then
             act TimestampChanged (c\<lparr>m_connectedTimeInUTC :=
               (case connectionDate of Some t \<Rightarrow> Some t | None \<Rightarrow> Some (e_nowUTC E))\<rparr>)
           else c)"

definition statusUpdated :: "ControllerStatus \<Rightarrow> Controller \<Rightarrow> Controller" where
  "statusUpdated s c = act (StatusUpdated s) (c\<lparr>m_status := s\<rparr>)"

definition handleBackendFailure :: "ErrorCode \<Rightarrow> Controller \<Rightarrow> fault + Controller" where
  "handleBackendFailure code c =
     (let c = setError code c in
      case code of
        ErrorNone \<Rightarrow> Inr (act ReportControllerError c)
      | ErrorFatal \<Rightarrow> Inr (act ReportControllerError c)
      | ErrorSplitTunnelInit \<Rightarrow> Inr (act ReportSplitTunnelError c)
      | ErrorSplitTunnelStart \<Rightarrow> Inr (act ReportSplitTunnelError c)
      | ErrorSplitTunnelExclude \<Rightarrow> Inr (act ReportSplitTunnelError c)
      | _ \<Rightarrow> Inl Assertion_failed)"

definition deleteOSTunnelConfig :: "Controller \<Rightarrow> Controller" where
  "deleteOSTunnelConfig c = setState StateInitializing (if m_impl c then act ImplDeleteOSTunnelConfig c else c)"

definition forceDaemonCrash :: "Controller \<Rightarrow> Controller" where
  "forceDaemonCrash c = (if m_impl c then act ImplForceDaemonCrash c else c)"

definition cleanupBackendLogs :: "Controller \<Rightarrow> Controller" where
  "cleanupBackendLogs c = (if m_impl c then act ImplCleanupBackendLogs c else c)"

definition refreshStatus :: "Controller \<Rightarrow> Controller" where
  "refreshStatus c = (if m_impl c then act ImplCheckStatus c else act (StatusUpdated (m_status c)) c)"

definition startKeyRegeneration :: "Controller \<Rightarrow> Controller" where
  "startKeyRegeneration c = setState StateRegeneratingKey c"

definition captivePortalGone :: "Controller \<Rightarrow> Controller" where
  "captivePortalGone c = c\<lparr>m_portalDetected := False\<rparr>"

definition captivePortalPresent :: "Controller \<Rightarrow> Controller" where
  "captivePortalPresent c = (if m_portalDetected c then c else c\<lparr>m_portalDetected := True\<rparr>)"

definition localeChanged :: "ctl_env \<Rightarrow> bool \<Rightarrow> Controller \<Rightarrow> fault + Controller" where
  "localeChanged E languageCodeEmpty c =
     (if languageCodeEmpty then Inr c else maybeSendUpdatedConfig E (e_serverData E) c)"

definition splitTunnelSupported :: "ctl_env \<Rightarrow> Controller \<Rightarrow> bool" where
  "splitTunnelSupported E c \<longleftrightarrow> (if m_impl c then e_splitTunnelSupported E else False)"

definition currentServerString :: "Controller \<Rightarrow> string" where
  "currentServerString c = (let d = m_serverData c in
     m_exitCountryCode d @ ''-'' @ m_exitCityName d @ ''-'' @ m_entryCountryCode d @ ''-'' @ m_entryCityName d)"

subsection \<open>What the helpers leave alone\<close>

named_theorems ctl_frame "members that an operation of the controller does not touch"

lemma act_frame [ctl_frame, simp]:
  "m_handshakeTimer (act a c) = m_handshakeTimer c" "m_activationQueue (act a c) = m_activationQueue c"
  "m_connectionRetry (act a c) = m_connectionRetry c" "m_impl (act a c) = m_impl c"
  "m_state (act a c) = m_state c" "m_initiator (act a c) = m_initiator c" "m_nextStep (act a c) = m_nextStep c"
  "m_serverData (act a c) = m_serverData c" "m_nextServerData (act a c) = m_nextServerData c"
  "m_pingCanary (act a c) = m_pingCanary c" "m_errorCode (act a c) = m_errorCode c"
  "m_stateSlots (act a c) = m_stateSlots c" "m_portalDetected (act a c) = m_portalDetected c"
  "m_connectedTimeInUTC (act a c) = m_connectedTimeInUTC c" "m_backendAvailable (act a c) = m_backendAvailable c"
  "m_status (act a c) = m_status c" "m_pingReceived (act a c) = m_pingReceived c"
  "m_isDeviceConnected (act a c) = m_isDeviceConnected c" "m_confirmingTimer (act a c) = m_confirmingTimer c"
  by (simp_all add: act_def)

lemma slots_frame:
  "m_handshakeTimer ((maybeEnableDisconnectInConfirming ^^ n) c) = m_handshakeTimer c \<and>
   m_activationQueue ((maybeEnableDisconnectInConfirming ^^ n) c) = m_activationQueue c \<and>
   m_connectionRetry ((maybeEnableDisconnectInConfirming ^^ n) c) = m_connectionRetry c \<and>
   m_impl ((maybeEnableDisconnectInConfirming ^^ n) c) = m_impl c \<and>
   m_state ((maybeEnableDisconnectInConfirming ^^ n) c) = m_state c \<and>
   m_initiator ((maybeEnableDisconnectInConfirming ^^ n) c) = m_initiator c \<and>
   m_nextStep ((maybeEnableDisconnectInConfirming ^^ n) c) = m_nextStep c \<and>
   m_serverData ((maybeEnableDisconnectInConfirming ^^ n) c) = m_serverData c \<and>
   m_nextServerData ((maybeEnableDisconnectInConfirming ^^ n) c) = m_nextServerData c \<and>
   m_pingCanary ((maybeEnableDisconnectInConfirming ^^ n) c) = m_pingCanary c \<and>
   m_errorCode ((maybeEnableDisconnectInConfirming ^^ n) c) = m_errorCode c \<and>
   m_stateSlots ((maybeEnableDisconnectInConfirming ^^ n) c) = m_stateSlots c \<and>
   m_portalDetected ((maybeEnableDisconnectInConfirming ^^ n) c) = m_portalDetected c \<and>
   m_connectedTimeInUTC ((maybeEnableDisconnectInConfirming ^^ n) c) = m_connectedTimeInUTC c \<and>
   m_backendAvailable ((maybeEnableDisconnectInConfirming ^^ n) c) = m_backendAvailable c \<and>
   m_status ((maybeEnableDisconnectInConfirming ^^ n) c) = m_status c \<and>
   m_pingReceived ((maybeEnableDisconnectInConfirming ^^ n) c) = m_pingReceived c \<and>
   m_isDeviceConnected ((maybeEnableDisconnectInConfirming ^^ n) c) = m_isDeviceConnected c"
  by (induction n) (simp_all add: maybeEnableDisconnectInConfirming_def)

lemma setState_frame [ctl_frame, simp]:
  "m_handshakeTimer (setState s c) = m_handshakeTimer c" "m_activationQueue (setState s c) = m_activationQueue c"
  "m_connectionRetry (setState s c) = m_connectionRetry c" "m_impl (setState s c) = m_impl c"
  "m_state (setState s c) = s" "m_initiator (setState s c) = m_initiator c" "m_nextStep (setState s c) = m_nextStep c"
  "m_serverData (setState s c) = m_serverData c" "m_nextServerData (setState s c) = m_nextServerData c"
  "m_pingCanary (setState s c) = m_pingCanary c" "m_errorCode (setState s c) = m_errorCode c"
  "m_stateSlots (setState s c) = m_stateSlots c" "m_portalDetected (setState s c) = m_portalDetected c"
  "m_connectedTimeInUTC (setState s c) = m_connectedTimeInUTC c" "m_backendAvailable (setState s c) = m_backendAvailable c"
  "m_status (setState s c) = m_status c" "m_pingReceived (setState s c) = m_pingReceived c"
  "m_isDeviceConnected (setState s c) = m_isDeviceConnected c"
  by (simp_all add: setState_def slots_frame)

lemma setError_frame [ctl_frame, simp]:
  "m_handshakeTimer (setError e c) = m_handshakeTimer c" "m_activationQueue (setError e c) = m_activationQueue c"
  "m_connectionRetry (setError e c) = m_connectionRetry c" "m_impl (setError e c) = m_impl c"
  "m_state (setError e c) = m_state c" "m_initiator (setError e c) = m_initiator c" "m_nextStep (setError e c) = m_nextStep c"
  "m_serverData (setError e c) = m_serverData c" "m_nextServerData (setError e c) = m_nextServerData c"
  "m_pingCanary (setError e c) = m_pingCanary c" "m_errorCode (setError e c) = e"
  "m_stateSlots (setError e c) = m_stateSlots c" "m_portalDetected (setError e c) = m_portalDetected c"
  "m_connectedTimeInUTC (setError e c) = m_connectedTimeInUTC c" "m_backendAvailable (setError e c) = m_backendAvailable c"
  "m_status (setError e c) = m_status c" "m_pingReceived (setError e c) = m_pingReceived c"
  "m_isDeviceConnected (setError e c) = m_isDeviceConnected c"
  by (simp_all add: setError_def)

lemma clearRetryCounter_frame [ctl_frame, simp]:
  "m_handshakeTimer (clearRetryCounter c) = m_handshakeTimer c" "m_activationQueue (clearRetryCounter c) = m_activationQueue c"
  "m_connectionRetry (clearRetryCounter c) = 0" "m_impl (clearRetryCounter c) = m_impl c"
  "m_state (clearRetryCounter c) = m_state c" "m_initiator (clearRetryCounter c) = m_initiator c"
  "m_nextStep (clearRetryCounter c) = m_nextStep c" "m_serverData (clearRetryCounter c) = m_serverData c"
  "m_nextServerData (clearRetryCounter c) = m_nextServerData c" "m_pingCanary (clearRetryCounter c) = m_pingCanary c"
  "m_errorCode (clearRetryCounter c) = m_errorCode c" "m_connectedTimeInUTC (clearRetryCounter c) = m_connectedTimeInUTC c"
  "m_status (clearRetryCounter c) = m_status c" "m_portalDetected (clearRetryCounter c) = m_portalDetected c"
  by (simp_all add: clearRetryCounter_def)

lemma serverUnavailable_frame [ctl_frame, simp]:
  "m_handshakeTimer (serverUnavailable c) = m_handshakeTimer c" "m_activationQueue (serverUnavailable c) = m_activationQueue c"
  "m_connectionRetry (serverUnavailable c) = m_connectionRetry c" "m_impl (serverUnavailable c) = m_impl c"
  "m_state (serverUnavailable c) = StateConnectionError" "m_initiator (serverUnavailable c) = m_initiator c"
  "m_nextStep (serverUnavailable c) = m_nextStep c" "m_serverData (serverUnavailable c) = m_serverData c"
  by (simp_all add: serverUnavailable_def Let_def)

lemma connectivityCheck_frame:
  assumes "connectivityCheck E c = (off, c')"
  shows "m_handshakeTimer c' = m_handshakeTimer c" "m_activationQueue c' = m_activationQueue c"
    "m_connectionRetry c' = m_connectionRetry c" "m_impl c' = m_impl c" "m_state c' = m_state c"
    "m_initiator c' = m_initiator c" "m_nextStep c' = m_nextStep c" "m_serverData c' = m_serverData c"
  using assms by (auto simp: connectivityCheck_def split: if_splits)

subsection \<open>Configurations\<close>

text \<open>What \<open>setupConfigs\<close> can answer.\<close>

definition hop_list :: "InterfaceConfig list \<Rightarrow> bool" where
  "hop_list cs \<longleftrightarrow> (\<exists>x. cs = [x] \<and> m_hopType x = SingleHop) \<or>
     (\<exists>entry exit. cs = [entry, exit] \<and> m_hopType entry = MultiHopEntry \<and> m_hopType exit = MultiHopExit)"

lemma hop_list_facts:
  "hop_list cs \<Longrightarrow> cs \<noteq> [] \<and> (length cs = 1 \<or> length cs = 2) \<and> m_hopType (last cs) \<noteq> MultiHopEntry"
  by (auto simp: hop_list_def)

lemma entryConfigFor_hop: "entryConfigFor E dev ex en p = Inr x \<Longrightarrow> m_hopType x = MultiHopEntry"
  by (auto simp: entryConfigFor_def dest!: fbind_InrD)

lemma finishConfigs_cases:
  assumes "finishConfigs E dev ex p pol xc c = Inr (cs, c')"
  shows "(cs = [] \<and> c' = serverUnavailable c) \<or> (hop_list cs \<and> c' = c)"
proof -
  consider (single) "\<not> e_multiHop E \<or> \<not> multihop (m_serverData c)"
    | (multi) en where "e_multiHop E" "multihop (m_serverData c)" "e_multihopSupported E" "chooseEntryServer E pol c = Inr en"
    | (port) en where "e_multiHop E" "multihop (m_serverData c)" "\<not> e_multihopSupported E" "chooseEntryServer E pol c = Inr en"
    using assms by (cases "chooseEntryServer E pol c") (auto simp: finishConfigs_def split: if_splits)
  then show ?thesis
  proof cases
    case single
    then show ?thesis using assms by (auto simp: finishConfigs_def hop_list_def)
  next
    case multi
    then show ?thesis using assms
      by (cases "entryConfigFor E dev ex en p")
         (auto simp: finishConfigs_def hop_list_def dest: entryConfigFor_hop split: if_splits)
  next
    case port
    then show ?thesis using assms by (auto simp: finishConfigs_def hop_list_def split: if_splits)
  qed
qed

lemma setupConfigs_cases:
  assumes "setupConfigs E p pol c = Inr (cs, c')"
  shows "(cs = [] \<and> (c' = serverUnavailable c \<or> c' = c\<lparr>m_nextStep := Disconnect\<rparr>)) \<or> (hop_list cs \<and> c' = c)"
proof -
  obtain ex where ex: "chooseExitServer E pol c = Inr ex"
    using assms by (cases "chooseExitServer E pol c") (auto simp: setupConfigs_def)
  consider (uninit) "\<not> server_initialized ex" | (nodev) "server_initialized ex" "e_device E = None"
    | (dev) dev where "server_initialized ex" "e_device E = Some dev"
    by (cases "e_device E") auto
  then show ?thesis
  proof cases
    case dev
    then obtain xc where "baseExitConfig E dev ex c = Inr xc"
      using assms ex by (cases "baseExitConfig E dev ex c") (auto simp: setupConfigs_def)
    then show ?thesis using assms ex dev finishConfigs_cases by (fastforce simp: setupConfigs_def)
  qed (use assms ex in \<open>auto simp: setupConfigs_def\<close>)
qed

text \<open>The entry hop carries traffic to the exit server only.\<close>

definition routes_only_to :: "qt_net \<Rightarrow> Server \<Rightarrow> InterfaceConfig \<Rightarrow> bool" where
  "routes_only_to Q server config \<longleftrightarrow> (\<forall>ip\<in>set (m_allowedIPAddressRanges config).
     IPAddress_fromString Q (qtext (m_ipv4AddrIn server)) = Some ip \<or>
     IPAddress_fromString Q (qtext (m_ipv6AddrIn server)) = Some ip)"

lemma entryConfigFor_routes:
  "entryConfigFor E dev ex en p = Inr x \<Longrightarrow> routes_only_to (e_net E) ex x"
  by (auto simp: entryConfigFor_def routes_only_to_def ffrom_def split: option.splits if_splits dest!: fbind_InrD)

lemma baseExitConfig_key: "baseExitConfig E dev ex c = Inr x \<Longrightarrow> m_serverPublicKey x = m_publicKey ex"
  by (auto simp: baseExitConfig_def dest!: fbind_InrD)

lemma setupConfigs_two_hops:
  assumes "setupConfigs E p pol c = Inr ([entry, exit], c')"
  shows "\<exists>srv. m_serverPublicKey exit = m_publicKey srv \<and> routes_only_to (e_net E) srv entry"
proof -
  obtain ex dev xc where ex: "chooseExitServer E pol c = Inr ex" "server_initialized ex" "e_device E = Some dev"
      "baseExitConfig E dev ex c = Inr xc"
      and fin: "finishConfigs E dev ex (if e_alwaysPort53 E then ForceDNSPort else p) pol xc c = Inr ([entry, exit], c')"
    using assms by (auto simp: setupConfigs_def split: if_splits option.splits dest!: fbind_InrD)
  obtain en where en: "chooseEntryServer E pol c = Inr en"
    using fin by (cases "chooseEntryServer E pol c") (auto simp: finishConfigs_def split: if_splits)
  have "entryConfigFor E dev ex en (if e_alwaysPort53 E then ForceDNSPort else p) = Inr entry \<and>
      m_serverPublicKey exit = m_serverPublicKey xc"
    using fin en
    by (cases "entryConfigFor E dev ex en (if e_alwaysPort53 E then ForceDNSPort else p)")
       (auto simp: finishConfigs_def split: if_splits)
  then show ?thesis using entryConfigFor_routes baseExitConfig_key [OF ex(4)] by metis
qed

subsection \<open>The invariant\<close>

text \<open>
  A running handshake timer has a hop to wait for; the queue never has more than the two hops of a
  connection and its last hop is the exit; the retry counter is bounded; and only the initial state
  can be without a platform controller.
\<close>

definition queue_inv :: "Controller \<Rightarrow> bool" where
  "queue_inv c \<longleftrightarrow> (m_handshakeTimer c \<longrightarrow> m_activationQueue c \<noteq> []) \<and>
     (m_activationQueue c \<noteq> [] \<longrightarrow> m_hopType (last (m_activationQueue c)) \<noteq> MultiHopEntry) \<and>
     length (m_activationQueue c) \<le> 2"

definition retry_inv :: "Controller \<Rightarrow> bool" where
  "retry_inv c \<longleftrightarrow> 0 \<le> m_connectionRetry c \<and>
     (m_handshakeTimer c \<longrightarrow> m_connectionRetry c < CONNECTION_MAX_RETRY \<or>
        (m_connectionRetry c = CONNECTION_MAX_RETRY \<and> length (m_activationQueue c) \<le> 1)) \<and>
     (m_connectionRetry c \<le> CONNECTION_MAX_RETRY \<or>
        (m_connectionRetry c = CONNECTION_MAX_RETRY + 1 \<and> length (m_activationQueue c) \<le> 1))"

definition impl_inv :: "Controller \<Rightarrow> bool" where
  "impl_inv c \<longleftrightarrow> (m_state c \<noteq> StateInitializing \<or> m_handshakeTimer c \<longrightarrow> m_impl c)"

definition ctl_inv :: "Controller \<Rightarrow> bool" where
  "ctl_inv c \<longleftrightarrow> queue_inv c \<and> retry_inv c \<and> impl_inv c"

lemmas ctl_inv_defs = ctl_inv_def queue_inv_def retry_inv_def impl_inv_def

lemma ctl_inv_idle:
  "\<not> m_handshakeTimer c \<Longrightarrow> m_activationQueue c = [] \<Longrightarrow> m_connectionRetry c = 0 \<Longrightarrow> impl_inv c \<Longrightarrow> ctl_inv c"
  by (simp add: ctl_inv_defs CONNECTION_MAX_RETRY_def)

lemma ctl_inv_same:
  "ctl_inv c \<Longrightarrow> m_handshakeTimer c' = m_handshakeTimer c \<Longrightarrow> m_activationQueue c' = m_activationQueue c \<Longrightarrow>
     m_connectionRetry c' = m_connectionRetry c \<Longrightarrow> impl_inv c' \<Longrightarrow> ctl_inv c'"
  by (simp add: ctl_inv_def queue_inv_def retry_inv_def)

lemma activateNext_inv:
  assumes "queue_inv c" "m_impl c" "retry_inv (c\<lparr>m_handshakeTimer := m_activationQueue c \<noteq> []\<rparr>)"
  shows "ctl_inv (activateNext E c)" "m_connectionRetry (activateNext E c) = m_connectionRetry c"
    "m_activationQueue (activateNext E c) = m_activationQueue c" "m_impl (activateNext E c)"
  using assms
  by (auto simp: activateNext_def startHandshakeTimer_def ctl_inv_defs Let_def split: list.splits if_splits)

lemma activateInternal_inv:
  assumes "activateInternal E p pol who c = Inr c'" "0 \<le> m_connectionRetry c" "m_connectionRetry c < CONNECTION_MAX_RETRY"
  shows "ctl_inv c'" "m_connectionRetry c' = m_connectionRetry c"
proof -
  let ?c = "c\<lparr>m_initiator := who, m_handshakeTimer := False, m_activationQueue := []\<rparr>"
  obtain cs c1 where impl: "m_impl c" and su: "setupConfigs E p pol ?c = Inr (cs, c1)"
      and rest: "(if cs = [] then Inr c1
        else fassert (length cs = 1 \<or> length cs = 2)
          (let first = hd cs; c = c1\<lparr>m_activationQueue := cs\<rparr>;
               c = set_server_keys (qtext (m_serverPublicKey first)) (qtext (m_serverPublicKey (last cs))) c;
               c = c\<lparr>m_pingReceived := False, m_pingCanary :=
                     Some (if qIsNull (m_serverIpv4AddrIn first)
                           then (qtext (m_serverIpv6AddrIn first), ''::/0'')
                           else (qtext (m_serverIpv4AddrIn first), ''0.0.0.0/0''))\<rparr>
           in Inr (activateNext E c))) = Inr c'"
    using assms(1) by (auto simp: activateInternal_def Let_def dest!: fassert_InrD fbind_InrD)
  from setupConfigs_cases [OF su]
  have "ctl_inv c' \<and> m_connectionRetry c' = m_connectionRetry c"
  proof (elim disjE conjE)
    assume "cs = []" "c1 = serverUnavailable ?c"
    then show ?thesis using rest impl assms(2,3) by (auto simp: ctl_inv_defs)
  next
    assume "cs = []" "c1 = ?c\<lparr>m_nextStep := Disconnect\<rparr>"
    then show ?thesis using rest impl assms(2,3) by (auto simp: ctl_inv_defs)
  next
    assume h: "hop_list cs" and c1: "c1 = ?c"
    note hf = hop_list_facts [OF h]
    let ?d = "(set_server_keys (qtext (m_serverPublicKey (hd cs))) (qtext (m_serverPublicKey (last cs)))
        (c1\<lparr>m_activationQueue := cs\<rparr>))\<lparr>m_pingReceived := False, m_pingCanary :=
                     Some (if qIsNull (m_serverIpv4AddrIn (hd cs))
                           then (qtext (m_serverIpv6AddrIn (hd cs)), ''::/0'')
                           else (qtext (m_serverIpv4AddrIn (hd cs)), ''0.0.0.0/0''))\<rparr>"
    have c': "c' = activateNext E ?d" using rest hf by (simp add: Let_def)
    have "queue_inv ?d" "m_impl ?d" "retry_inv (?d\<lparr>m_handshakeTimer := m_activationQueue ?d \<noteq> []\<rparr>)"
      using hf impl assms(2,3) by (auto simp: c1 queue_inv_def retry_inv_def set_server_keys_def)
    then show ?thesis
      using activateNext_inv [of ?d E] unfolding c' by (simp add: c1 set_server_keys_def)
  qed
  then show "ctl_inv c'" "m_connectionRetry c' = m_connectionRetry c" by simp_all
qed

subsection \<open>Every operation keeps the invariant\<close>

lemma ctl_deactivate_inv:
  assumes "ctl_inv c" "deactivate who c = Inr (b, c')"
  shows "ctl_inv c'"
proof -
  consider (same) "c' = c" | (err) "c' = setState StateOff c" "m_state c = StateConnectionError"
    | (off) "\<not> m_handshakeTimer c'" "m_activationQueue c' = []" "m_connectionRetry c' = 0" "m_impl c'"
    using assms(2) by (auto simp: deactivate_def Let_def split: if_splits dest!: fassert_InrD)
  then show ?thesis
  proof cases
    case err
    then show ?thesis using assms(1) by (intro ctl_inv_same [OF assms(1)]) (auto simp: ctl_inv_defs)
  next
    case off
    then show ?thesis by (intro ctl_inv_idle) (auto simp: impl_inv_def)
  qed (use assms(1) in simp)
qed

lemma deactivate_ignored_inv: "ctl_inv c \<Longrightarrow> deactivate_ignored c = Inr c' \<Longrightarrow> ctl_inv c'"
  using ctl_deactivate_inv by (fastforce simp: deactivate_ignored_def dest!: fbind_InrD)

lemma ctl_inv_nextStep [simp]: "ctl_inv (c\<lparr>m_nextStep := x\<rparr>) = ctl_inv c"
  by (simp add: ctl_inv_defs)

lemma ctl_inv_act [simp]: "ctl_inv (act a c) = ctl_inv c"
  by (simp add: ctl_inv_defs)

lemma ctl_inv_setError [simp]: "ctl_inv (setError e c) = ctl_inv c"
  by (simp add: ctl_inv_defs)

lemma ctl_inv_serverData [simp]:
  "ctl_inv (c\<lparr>m_serverData := d\<rparr>) = ctl_inv c" "ctl_inv (c\<lparr>m_nextServerData := d\<rparr>) = ctl_inv c"
  by (simp_all add: ctl_inv_defs)

lemma ctl_inv_portal [simp]: "ctl_inv (c\<lparr>m_portalDetected := b\<rparr>) = ctl_inv c"
  by (simp add: ctl_inv_defs)

lemma ctl_inv_setState: "ctl_inv c \<Longrightarrow> m_impl c \<or> s = StateInitializing \<Longrightarrow> ctl_inv (setState s c)"
  by (auto simp: ctl_inv_defs)

lemma ctl_inv_impl: "ctl_inv c \<Longrightarrow> m_state c \<noteq> StateInitializing \<Longrightarrow> m_impl c"
  by (simp add: ctl_inv_defs)

lemma activateInternal_inv0:
  "activateInternal E p pol who c = Inr c' \<Longrightarrow> m_connectionRetry c = 0 \<Longrightarrow> ctl_inv c'"
  by (erule activateInternal_inv) (simp_all add: CONNECTION_MAX_RETRY_def)

lemma fbind_pair_InrD: "fbind m (\<lambda>c. Inr (b, c)) = Inr (b', c') \<Longrightarrow> m = Inr c' \<and> b' = b"
  by (cases m) auto

lemma activate_server_inv:
  assumes inv: "ctl_inv c" and run: "activate_server E sd who pol c = Inr (b, c')"
  shows "ctl_inv c'"
proof (cases "activatable c")
  case True
  define d where "d = act CurrentServerChanged ((setError ErrorNone c)\<lparr>m_serverData := sd_assign (m_serverData (setError ErrorNone c)) sd\<rparr>)"
  note run' = run [unfolded activate_server_def Let_def, folded d_def]
  have d: "ctl_inv d" "m_state d = m_state c" using inv by (simp_all add: d_def)
  obtain off e where e: "connectivityCheck E d = (off, e)" by fastforce
  have einv: "ctl_inv e" using d connectivityCheck_frame [OF e] by (simp add: ctl_inv_defs)
  have act: "ctl_inv c'" if "fbind (activateInternal E DoNotForceDNSPort pol who (clearRetryCounter x)) (\<lambda>c. Inr (True, c)) = Inr (b, c')" for x
    using fbind_pair_InrD [OF that] activateInternal_inv0 by fastforce
  consider (on) "m_state d \<noteq> StateOff" | (portal) "m_state d = StateOff" "m_portalDetected d"
    | (offline) "m_state d = StateOff" "\<not> m_portalDetected d" off
    | (start) "m_state d = StateOff" "\<not> m_portalDetected d" "\<not> off" by blast
  then show ?thesis
  proof cases
    case portal
    then have "c' = (act RequestScreenCaptivePortal (act ActivationBlockedForCaptivePortal d))\<lparr>m_portalDetected := False\<rparr>"
      using run' True by simp
    then show ?thesis using d by simp
  next
    case offline
    then have "c' = e" using run' True e by simp
    then show ?thesis using einv by simp
  next
    case on
    show ?thesis
      by (rule act [of "if who \<noteq> ExtensionUser then setState StateConnecting d else d"])
         (use run' True on in \<open>simp split: if_splits\<close>)
  next
    case start
    show ?thesis
      by (rule act [of "if who \<noteq> ExtensionUser then setState StateConnecting e else e"])
         (use run' True start e in \<open>simp split: if_splits\<close>)
  qed
qed (use inv run in \<open>simp add: activate_server_def\<close>)

lemma activate_config_inv:
  assumes inv: "ctl_inv c" and cfg: "m_hopType config \<noteq> MultiHopEntry"
  shows "ctl_inv (snd (activate_config E config who c))"
proof (cases "activatable c")
  case True
  then have impl: "m_impl c" using ctl_inv_impl [OF inv] by (auto simp: activatable_def)
  obtain off d where d: "(if m_state (setError ErrorNone c) = StateOff then connectivityCheck E (setError ErrorNone c)
      else (False, setError ErrorNone c)) = (off, d)" by fastforce
  then have dinv: "ctl_inv d" "m_impl d"
    using inv impl connectivityCheck_frame [of E "setError ErrorNone c" off d] by (auto simp: ctl_inv_defs split: if_splits)
  show ?thesis
  proof (cases "\<not> m_backendAvailable c \<or> off")
    case True
    then show ?thesis using d dinv inv impl \<open>activatable c\<close>
      by (auto simp: activate_config_def Let_def ctl_inv_setState)
  next
    case False
    have "ctl_inv (activateNext E x)"
      if "m_activationQueue x = [y]" "m_hopType y = m_hopType config" "m_connectionRetry x = 0" "m_impl x" for x y
      using that cfg by (intro activateNext_inv) (auto simp: queue_inv_def retry_inv_def CONNECTION_MAX_RETRY_def)
    then show ?thesis using False d dinv impl \<open>activatable c\<close>
      by (auto simp: activate_config_def Let_def)
  qed
qed (use inv in \<open>simp add: activate_config_def\<close>)

lemma disconnected_inv:
  assumes "m_impl c" "disconnected E c = Inr c'"
  shows "ctl_inv c'"
proof (cases "m_nextStep c = Reconnect")
  case True
  let ?d = "(clearRetryCounter (c\<lparr>m_pingCanary := None, m_handshakeTimer := False, m_activationQueue := []\<rparr>))\<lparr>m_nextStep := NoStep\<rparr>"
  have "activateInternal E DoNotForceDNSPort RandomizeServerSelection (m_initiator ?d)
          (act CurrentServerChanged (?d\<lparr>m_serverData := sd_assign (m_serverData ?d) (m_nextServerData ?d)\<rparr>)) = Inr c'"
    using assms(2) True by (simp add: disconnected_def Let_def)
  then show ?thesis by (rule activateInternal_inv0) simp
next
  case False
  then have "\<not> m_handshakeTimer c'" "m_activationQueue c' = []" "m_connectionRetry c' = 0" "m_impl c'"
    using assms by (auto simp: disconnected_def Let_def split: if_splits)
  then show ?thesis by (intro ctl_inv_idle) (auto simp: impl_inv_def)
qed

lemma all_connected_inv:
  assumes "m_activationQueue c = []" "m_impl c" "all_connected E c = Inr c'"
  shows "ctl_inv c'"
proof -
  define d where "d = act ConnectionRetryChanged (c\<lparr>m_handshakeTimer := False, m_pingCanary := None, m_connectionRetry := 0\<rparr>)"
  define e where "e = setError ErrorNone (if m_initiator d = ExtensionUser then setState StateOnPartial d else setState StateOn d)"
  define f where "f = (if \<not> (m_state d = StateSwitching \<or> m_state d = StateSilentSwitching) \<or> m_connectedTimeInUTC e = None
               then act TimestampChanged (e\<lparr>m_connectedTimeInUTC := Some (e_nowUTC E)\<rparr>) else e)"
  have f: "\<not> m_handshakeTimer f" "m_activationQueue f = []" "m_connectionRetry f = 0" "m_impl f"
    using assms(1,2) by (simp_all add: f_def e_def d_def)
  then have "ctl_inv f" by (intro ctl_inv_idle) (simp_all add: impl_inv_def)
  moreover have "(if m_nextStep f = Quit \<or> m_nextStep f = Disconnect \<or> m_nextStep f = Update
         then deactivate_ignored f else Inr f) = Inr c'"
    using assms(3) unfolding all_connected_def Let_def f_def e_def d_def .
  ultimately show ?thesis using deactivate_ignored_inv by (auto split: if_splits)
qed

lemma connected_inv:
  assumes "ctl_inv c" "m_impl c" "connected E k c = Inr c'"
  shows "ctl_inv c'"
proof (cases "m_activationQueue c")
  case Nil
  then show ?thesis using assms all_connected_inv by (auto simp: connected_def split: if_splits)
next
  case (Cons first rest)
  show ?thesis
  proof (cases "qtext (m_serverPublicKey first) = k \<and> rest \<noteq> []")
    case True
    let ?d = "c\<lparr>m_activationQueue := rest\<rparr>"
    have "c' = activateNext E ?d" using assms(3) Cons True by (simp add: connected_def)
    moreover have "queue_inv ?d" "retry_inv (?d\<lparr>m_handshakeTimer := m_activationQueue ?d \<noteq> []\<rparr>)"
      using assms(1) Cons True by (auto simp: ctl_inv_defs)
    ultimately show ?thesis using activateNext_inv(1) [of ?d E] assms(2) by simp
  next
    case False
    then show ?thesis using assms Cons all_connected_inv [of "c\<lparr>m_activationQueue := []\<rparr>" E c']
      by (auto simp: connected_def split: if_splits)
  qed
qed

lemma handshakeTimeout_inv:
  assumes "ctl_inv c" "m_handshakeTimer c" "fire_handshakeTimer E c = Inr c'"
  shows "ctl_inv c'"
proof -
  let ?c = "c\<lparr>m_handshakeTimer := False\<rparr>"
  have inv: "ctl_inv ?c" using assms(1) by (auto simp: ctl_inv_defs)
  have impl: "m_state c \<noteq> StateInitializing \<longrightarrow> m_impl c" using assms(1) by (simp add: ctl_inv_defs)
  consider (profiles) "e_hasProfiles E" | (stop) "\<not> e_hasProfiles E" "m_nextStep c \<in> {Quit, Disconnect, Update}"
    | (retry) "\<not> e_hasProfiles E" "m_nextStep c \<notin> {Quit, Disconnect, Update}" by blast
  then show ?thesis
  proof cases
    case profiles
    then show ?thesis using assms inv
      by (auto simp: fire_handshakeTimer_def handshakeTimeout_def Let_def ctl_inv_defs split: if_splits dest!: fassert_InrD)
  next
    case stop
    then have "deactivate_ignored (act (SetCooldown (qtext (m_serverPublicKey (hd (m_activationQueue c)))) SERVER_UNRESPONSIVE_COOLDOWN_SEC) ?c) = Inr c'"
      using assms(3) by (auto simp: fire_handshakeTimer_def handshakeTimeout_def Let_def dest!: fassert_InrD)
    then show ?thesis by (rule deactivate_ignored_inv [rotated]) (simp add: inv)
  next
    case retry
    define d where "d = act ConnectionRetryChanged ((act (SetCooldown (qtext (m_serverPublicKey (hd (m_activationQueue ?c)))) SERVER_UNRESPONSIVE_COOLDOWN_SEC) ?c)
      \<lparr>m_connectionRetry := m_connectionRetry c + 1\<rparr>)"
    have d: "m_connectionRetry d = m_connectionRetry c + 1" "m_activationQueue d = m_activationQueue c"
        "\<not> m_handshakeTimer d" "m_impl d" "0 \<le> m_connectionRetry d"
      using assms(1,2) by (auto simp: d_def ctl_inv_defs)
    have c': "(if m_connectionRetry d = 1 then activateInternal E ForceDNSPort RandomizeServerSelection (m_initiator d) d
             else if m_connectionRetry d < CONNECTION_MAX_RETRY
             then activateInternal E DoNotForceDNSPort RandomizeServerSelection (m_initiator d) d
             else Inr (serverUnavailable d)) = Inr c'"
      using assms(3) retry
      by (auto simp: fire_handshakeTimer_def handshakeTimeout_def Let_def d_def dest!: fassert_InrD split: if_splits)
    show ?thesis
    proof (cases "m_connectionRetry d < CONNECTION_MAX_RETRY")
      case True
      then show ?thesis using c' d(5) activateInternal_inv(1) by (auto split: if_splits)
    next
      case False
      then have "c' = serverUnavailable d" using c' by (auto simp: CONNECTION_MAX_RETRY_def split: if_splits)
      then show ?thesis using False d assms(1,2) by (auto simp: ctl_inv_defs)
    qed
  qed
qed

lemma silentSwitchServers_inv:
  assumes "ctl_inv c" "silentSwitchServers E pol c = Inr (b, c')"
  shows "ctl_inv c'"
proof -
  have "ctl_inv c'" if "fbind (activateInternal E DoNotForceDNSPort sel who x) (\<lambda>c. Inr (True, c)) = Inr (b, c')"
      "m_connectionRetry x = 0" for sel who x
    using fbind_pair_InrD [OF that(1)] activateInternal_inv0 [OF _ that(2)] by blast
  then show ?thesis
    using assms by (cases pol) (auto simp: silentSwitchServers_def Let_def split: if_splits dest!: fassert_InrD)
qed

lemma switchServers_inv:
  assumes "ctl_inv c" "\<not> e_canSendUpdatedConfig E" "switchServers E sd c = Inr (b, c')"
  shows "ctl_inv c'"
proof (cases "isActive c")
  case True
  define d where "d = (let d = clearRetryCounter (c\<lparr>m_nextServerData := sd_assign (m_nextServerData c) sd\<rparr>)
      in if m_state d \<noteq> StateConnecting then setState StateSwitching d else d)"
  have "m_impl c" using assms(1) True by (auto simp: ctl_inv_defs isActive_def less_State_def)
  then have d: "ctl_inv d" "m_connectionRetry d = 0" "m_impl d"
    using assms(1) by (auto simp: d_def Let_def ctl_inv_defs CONNECTION_MAX_RETRY_def)
  note run = assms(3) [unfolded switchServers_def Let_def, folded d_def [unfolded Let_def]]
  show ?thesis
  proof (cases "e_multihopSupported E \<and> multihop (m_nextServerData d) \<noteq> multihop (m_serverData d)")
    case True
    then have "deactivate_ignored (d\<lparr>m_nextStep := Reconnect\<rparr>) = Inr c'"
      using run \<open>isActive c\<close> d(3) by (auto dest: fbind_pair_InrD)
    then show ?thesis using d(1) deactivate_ignored_inv [of "d\<lparr>m_nextStep := Reconnect\<rparr>"] by simp
  next
    case False
    then have "activateInternal E DoNotForceDNSPort RandomizeServerSelection (m_initiator d)
        (act CurrentServerChanged (d\<lparr>m_serverData := sd_assign (m_serverData d) sd\<rparr>)) = Inr c'"
      using run \<open>isActive c\<close> d(3) by (auto dest: fbind_pair_InrD split: if_splits)
    then show ?thesis by (rule activateInternal_inv0) (simp add: d(2))
  qed
next
  case False
  then show ?thesis
    using assms by (auto simp: switchServers_def maybeSendUpdatedConfig_def fpointer_def split: if_splits)
qed

lemma initialize_inv: "ctl_inv c \<Longrightarrow> ctl_inv (initialize E c)"
  by (auto simp: initialize_def Let_def ctl_inv_defs)

lemma implInitialized_inv: "ctl_inv c \<Longrightarrow> m_impl c \<Longrightarrow> ctl_inv (implInitialized E ok co d c)"
  by (auto simp: implInitialized_def Let_def ctl_inv_defs)

lemma quit_inv: "ctl_inv c \<Longrightarrow> quit c = Inr c' \<Longrightarrow> ctl_inv c'"
  using deactivate_ignored_inv [of "c\<lparr>m_nextStep := Quit\<rparr>"] by (auto simp: quit_def Let_def split: if_splits)

lemma updateRequired_inv: "ctl_inv c \<Longrightarrow> updateRequired c = Inr c' \<Longrightarrow> ctl_inv c'"
  using deactivate_ignored_inv [of "c\<lparr>m_nextStep := Update\<rparr>"] by (auto simp: updateRequired_def Let_def split: if_splits)

subsection \<open>Runs of the controller\<close>

text \<open>
  One event: a call from the user interface or a task, a signal of the platform controller (which
  exists then), or a timer.  On Linux the platform controller does not take updated
  configurations while the connection is down; a configuration activated directly comes from a
  profile and is not the entry of a multi-hop connection.
\<close>

inductive ctl_step :: "Controller \<Rightarrow> Controller \<Rightarrow> bool" where
  st_initialize: "ctl_step c (initialize E c)"
| st_initialized: "m_impl c \<Longrightarrow> ctl_step c (implInitialized E ok co date c)"
| st_permission: "m_impl c \<Longrightarrow> ctl_step c (implPermRequired c)"
| st_status: "m_impl c \<Longrightarrow> ctl_step c (statusUpdated s c)"
| st_failure: "m_impl c \<Longrightarrow> handleBackendFailure code c = Inr c' \<Longrightarrow> ctl_step c c'"
| st_connected: "m_impl c \<Longrightarrow> connected E key c = Inr c' \<Longrightarrow> ctl_step c c'"
| st_disconnected: "m_impl c \<Longrightarrow> disconnected E c = Inr c' \<Longrightarrow> ctl_step c c'"
| st_timeout: "m_handshakeTimer c \<Longrightarrow> fire_handshakeTimer E c = Inr c' \<Longrightarrow> ctl_step c c'"
| st_confirming: "m_confirmingTimer c \<Longrightarrow> ctl_step c (confirmingTimeout c)"
| st_canary: "m_pingCanary c \<noteq> None \<Longrightarrow> ctl_step c (pingSentAndReceived c)"
| st_activate_server: "activate_server E sd who pol c = Inr (b, c') \<Longrightarrow> ctl_step c c'"
| st_activate_config: "m_hopType config \<noteq> MultiHopEntry \<Longrightarrow> ctl_step c (snd (activate_config E config who c))"
| st_deactivate: "deactivate who c = Inr (b, c') \<Longrightarrow> ctl_step c c'"
| st_quit: "quit c = Inr c' \<Longrightarrow> ctl_step c c'"
| st_update: "updateRequired c = Inr c' \<Longrightarrow> ctl_step c c'"
| st_silent: "silentSwitchServers E cool c = Inr (b, c') \<Longrightarrow> ctl_step c c'"
| st_switch: "\<not> e_canSendUpdatedConfig E \<Longrightarrow> switchServers E sd c = Inr (b, c') \<Longrightarrow> ctl_step c c'"
| st_locale: "\<not> e_canSendUpdatedConfig E \<Longrightarrow> localeChanged E b c = Inr c' \<Longrightarrow> ctl_step c c'"
| st_serverData: "ctl_step c (serverDataChanged c)"
| st_deleteTunnel: "ctl_step c (deleteOSTunnelConfig c)"
| st_crash: "ctl_step c (forceDaemonCrash c)"
| st_logs: "ctl_step c (cleanupBackendLogs c)"
| st_refresh: "ctl_step c (refreshStatus c)"
| st_keys: "m_impl c \<Longrightarrow> ctl_step c (startKeyRegeneration c)"
| st_portal_gone: "ctl_step c (captivePortalGone c)"
| st_portal: "ctl_step c (captivePortalPresent c)"

lemma ctl_inv_misc [simp]:
  "ctl_inv (c\<lparr>m_status := x1\<rparr>) = ctl_inv c" "ctl_inv (c\<lparr>m_confirmingTimer := x2\<rparr>) = ctl_inv c"
  "ctl_inv (c\<lparr>m_enableDisconnectInConfirming := x3\<rparr>) = ctl_inv c" "ctl_inv (c\<lparr>m_pingCanary := x4\<rparr>) = ctl_inv c"
  "ctl_inv (c\<lparr>m_pingReceived := x5\<rparr>) = ctl_inv c" "ctl_inv (c\<lparr>m_backendAvailable := x6\<rparr>) = ctl_inv c"
  by (simp_all add: ctl_inv_defs)

lemma small_ops_inv:
  assumes "ctl_inv c"
  shows "ctl_inv (statusUpdated s c)" "ctl_inv (confirmingTimeout c)" "ctl_inv (pingSentAndReceived c)"
    "ctl_inv (serverDataChanged c)" "ctl_inv (forceDaemonCrash c)" "ctl_inv (cleanupBackendLogs c)"
    "ctl_inv (refreshStatus c)" "ctl_inv (captivePortalGone c)" "ctl_inv (captivePortalPresent c)"
    "ctl_inv (deleteOSTunnelConfig c)"
  using assms
  by (simp_all add: statusUpdated_def confirmingTimeout_def pingSentAndReceived_def serverDataChanged_def
      forceDaemonCrash_def cleanupBackendLogs_def refreshStatus_def captivePortalGone_def captivePortalPresent_def
      deleteOSTunnelConfig_def ctl_inv_setState)

lemma impl_ops_inv:
  assumes "ctl_inv c" "m_impl c"
  shows "ctl_inv (implPermRequired c)" "ctl_inv (startKeyRegeneration c)"
  using assms by (simp_all add: implPermRequired_def startKeyRegeneration_def ctl_inv_setState)

lemma handleBackendFailure_inv: "ctl_inv c \<Longrightarrow> handleBackendFailure code c = Inr c' \<Longrightarrow> ctl_inv c'"
  by (cases code) (auto simp: handleBackendFailure_def)

lemma localeChanged_inv:
  "ctl_inv c \<Longrightarrow> \<not> e_canSendUpdatedConfig E \<Longrightarrow> localeChanged E b c = Inr c' \<Longrightarrow> ctl_inv c'"
  by (auto simp: localeChanged_def maybeSendUpdatedConfig_def fpointer_def split: if_splits)

lemma ctl_step_inv: "ctl_step c c' \<Longrightarrow> ctl_inv c \<Longrightarrow> ctl_inv c'"
  by (induction rule: ctl_step.induct)
     (blast intro: initialize_inv implInitialized_inv small_ops_inv impl_ops_inv handleBackendFailure_inv localeChanged_inv
        activate_config_inv connected_inv disconnected_inv handshakeTimeout_inv activate_server_inv ctl_deactivate_inv
        quit_inv updateRequired_inv silentSwitchServers_inv switchServers_inv)+

interpretation ctl: invariant_system "\<lambda>c. c = newController" ctl_step ctl_inv
proof
  show "c = newController \<Longrightarrow> ctl_inv c" for c
    by (simp add: newController_def ctl_inv_defs CONNECTION_MAX_RETRY_def)
  show "ctl_inv c \<Longrightarrow> ctl_step c c' \<Longrightarrow> ctl_inv c'" for c c' by (rule ctl_step_inv)
qed

abbreviation ctl_reachable :: "Controller \<Rightarrow> bool" where
  "ctl_reachable \<equiv> reachable (\<lambda>c. c = newController) ctl_step"

subsection \<open>Configurations without faults\<close>

text \<open>
  A well-formed environment: the addresses and port ranges of the server list are valid, weights do
  not overflow, the fixed ranges parse, and the DNS flags are ones \<open>DNSHelper\<close> knows.
\<close>

definition server_ok :: "qt_net \<Rightarrow> Server \<Rightarrow> bool" where
  "server_ok Q s \<longleftrightarrow>
     (m_portRanges s = [] \<or> (list_all range_ok (m_portRanges s) \<and> nports (m_portRanges s) < 65536)) \<and>
     protocol (qHostAddress Q (qtext (m_ipv4Gateway s))) = IPv4Protocol \<and>
     (\<not> qIsEmpty (m_ipv6Gateway s) \<longrightarrow> protocol (qHostAddress Q (qtext (m_ipv6Gateway s))) = IPv6Protocol) \<and>
     IPAddress_fromString Q (qtext (m_ipv4AddrIn s)) \<noteq> None \<and>
     (\<not> qIsEmpty (m_ipv6AddrIn s) \<longrightarrow> IPAddress_fromString Q (qtext (m_ipv6AddrIn s)) \<noteq> None)"

definition env_ok :: "ctl_env \<Rightarrow> bool" where
  "env_ok E \<longleftrightarrow>
     (\<forall>pk s. m_servers (e_scm E) pk = Some s \<longrightarrow> server_initialized s \<longrightarrow> server_ok (e_net E) s) \<and>
     (\<forall>country city. nweights (getServerList (e_scm E) (e_getCooldown E) (e_nowSecs E) country city) < 2^32 - 1) \<and>
     IPAddress_fromString (e_net E) ''0.0.0.0/0'' \<noteq> None \<and> IPAddress_fromString (e_net E) ''::0/0'' \<noteq> None \<and>
     protocol (qHostAddress (e_net E) MULLVAD_PROXY_RANGE) = IPv4Protocol \<and>
     (\<forall>n\<in>set ''1234567''. protocol (qHostAddress (e_net E) (''100.64.0.'' @ [n])) = IPv4Protocol) \<and>
     vToInt (Setting_get dnsProviderFlagsSetting (e_settings E)) \<in> {0, 1} \<union> filter_flags"

lemma collect_total: "\<forall>x\<in>set xs. x \<noteq> None \<Longrightarrow> \<exists>ys. collect xs = Some ys"
  by (induction xs) auto

lemma ip_of_text_total:
  "protocol (qHostAddress Q (qtext s)) = IPv4Protocol \<Longrightarrow> 0 \<le> p \<Longrightarrow> p \<le> 32 \<Longrightarrow> ip_of_text Q s p \<noteq> None"
  "protocol (qHostAddress Q (qtext s)) = IPv6Protocol \<Longrightarrow> 0 \<le> p \<Longrightarrow> p \<le> 128 \<Longrightarrow> ip_of_text Q s p \<noteq> None"
  by (auto simp: ip_of_text_def IPAddress_fromPrefix_def)

lemma choosePort_total: "server_ok Q s \<Longrightarrow> \<exists>p. choosePort g s = Inr p"
proof (cases "m_portRanges s = []")
  case False
  moreover assume "server_ok Q s"
  ultimately show ?thesis
    using choosePort_some [of s g] by (auto simp: server_ok_def list_all_iff)
qed (simp add: choosePort_def)

lemma server_list_member:
  "s \<in> set (server_list_loop scm cd now ks) \<Longrightarrow> server_initialized s \<and> (\<exists>k. s = model_server scm k)"
  by (induction ks) (auto simp: Let_def split: if_splits)

lemma weightChooser_member:
  assumes "nweights servers < 2^32 - 1"
  shows "\<exists>s. weightChooser g servers = Inr s \<and> (s = emptyServer \<or> s \<in> set servers)"
  using weightChooser_some [OF _ assms, of g] by (cases "servers = []") (auto simp: weightChooser_def)

lemma chosen_server_ok:
  assumes "env_ok E"
  shows "\<exists>s. chooseExitServer E pol c = Inr s \<and> (server_initialized s \<longrightarrow> server_ok (e_net E) s)"
    and "\<exists>s. chooseEntryServer E pol c = Inr s \<and> (server_initialized s \<longrightarrow> server_ok (e_net E) s)"
proof -
  have model: "server_initialized (model_server (e_scm E) k) \<longrightarrow> server_ok (e_net E) (model_server (e_scm E) k)" for k
    using assms by (cases "m_servers (e_scm E) k") (auto simp: model_server_def env_ok_def server_initialized_def emptyServer_def)
  have "\<exists>s. weightChooser g (getServerList (e_scm E) (e_getCooldown E) (e_nowSecs E) country city) = Inr s \<and>
      (server_initialized s \<longrightarrow> server_ok (e_net E) s)" for g country city
  proof -
    let ?l = "getServerList (e_scm E) (e_getCooldown E) (e_nowSecs E) country city"
    have "nweights ?l < 2^32 - 1" using assms unfolding env_ok_def by blast
    from weightChooser_member [OF this] obtain s where s: "weightChooser g ?l = Inr s" "s = emptyServer \<or> s \<in> set ?l" by blast
    have "\<not> server_initialized emptyServer" by (simp add: server_initialized_def emptyServer_def)
    moreover have "\<exists>k. s = model_server (e_scm E) k" if "s \<in> set ?l"
      using server_list_member that unfolding getServerList_def by blast
    ultimately show ?thesis using s model by auto
  qed
  with model show "\<exists>s. chooseExitServer E pol c = Inr s \<and> (server_initialized s \<longrightarrow> server_ok (e_net E) s)"
    "\<exists>s. chooseEntryServer E pol c = Inr s \<and> (server_initialized s \<longrightarrow> server_ok (e_net E) s)"
    by (simp_all add: chooseExitServer_def chooseEntryServer_def exitServers_def entryServers_def)
qed

lemma allowed_ranges_total:
  assumes "env_ok E" "server_ok (e_net E) s"
  shows "\<exists>rs. getAllowedIPAddressRanges (e_net E) s = Some rs"
  unfolding getAllowedIPAddressRanges_def
  using assms ip_of_text_total(1) [of "e_net E" "m_ipv4Gateway s" 32] ip_of_text_total(2) [of "e_net E" "m_ipv6Gateway s" 128]
    ip_of_text_total(1) [of "e_net E" "Some MULLVAD_PROXY_RANGE" MULLVAD_PROXY_RANGE_LENGTH]
  by (intro collect_total) (auto simp: env_ok_def server_ok_def MULLVAD_PROXY_RANGE_LENGTH_def split: if_splits)

lemma dns_total:
  assumes "env_ok E"
  shows "\<exists>d. getDNSDetails (e_net E) b (e_settings E) fb = Inr d \<and>
    (dnsType d \<noteq> ''Default'' \<longrightarrow> ipAddress d = fb \<or> protocol (qHostAddress (e_net E) (qtext (ipAddress d))) = IPv4Protocol)"
proof -
  let ?f = "vToInt (Setting_get dnsProviderFlagsSetting (e_settings E))"
  have v: "validateUserDNS Q u \<longleftrightarrow> protocol (qHostAddress Q u) = IPv4Protocol" for Q u
    by (cases "qHostAddress Q u") (simp_all add: validateUserDNS_def)
  have f: "?f \<in> {0, 1} \<union> filter_flags" and a: "\<forall>n\<in>set ''1234567''. protocol (qHostAddress (e_net E) (''100.64.0.'' @ [n])) = IPv4Protocol"
    using assms by (auto simp: env_ok_def)
  have "\<exists>d. map_of dnsMap ?f = Some d \<and> protocol (qHostAddress (e_net E) (qtext (ipAddress d))) = IPv4Protocol"
    if "?f \<in> filter_flags"
    using that a by (auto simp: filter_flags_def dnsMap_def dns_flags dns_addresses)
  then show ?thesis using f by (auto simp: getDNSDetails_def Let_def v dns_flags)
qed

lemma extension_ranges_total:
  assumes "env_ok E" "server_ok (e_net E) s"
  shows "\<exists>rs. getExtensionProxyAddressRanges (e_net E) b (e_settings E) s None = Some rs"
proof -
  obtain d where d: "getDNSDetails (e_net E) b (e_settings E) (m_ipv4Gateway s) = Inr d"
      "dnsType d \<noteq> ''Default'' \<longrightarrow> ipAddress d = m_ipv4Gateway s \<or> protocol (qHostAddress (e_net E) (qtext (ipAddress d))) = IPv4Protocol"
    using dns_total [OF assms(1)] by blast
  have base: "ip_of_text (e_net E) (m_ipv4Gateway s) 32 \<noteq> None"
      "\<not> qIsEmpty (m_ipv6Gateway s) \<longrightarrow> ip_of_text (e_net E) (m_ipv6Gateway s) 128 \<noteq> None"
      "ip_of_text (e_net E) (Some MULLVAD_PROXY_RANGE) MULLVAD_PROXY_RANGE_LENGTH \<noteq> None"
    using assms ip_of_text_total by (auto simp: env_ok_def server_ok_def MULLVAD_PROXY_RANGE_LENGTH_def)
  have "dnsType d \<noteq> ''Default'' \<longrightarrow> ip_of_text (e_net E) (ipAddress d) 32 \<noteq> None"
    using d(2) base(1) ip_of_text_total(1) [of "e_net E" "ipAddress d" 32] by auto
  with base d(1) show ?thesis
    by (auto simp: getExtensionProxyAddressRanges_def Let_def)
qed

lemma baseExitConfig_total:
  assumes "env_ok E" "server_ok (e_net E) s"
  shows "\<exists>x. baseExitConfig E dev s c = Inr x"
  using allowed_ranges_total [OF assms] extension_ranges_total [OF assms, of "e_customDNS E"]
    choosePort_total [OF assms(2), of "e_exitPortDraw E"] dns_total [OF assms(1), of "e_customDNS E" "m_ipv4Gateway s"]
  by (auto simp: baseExitConfig_def getDNS_def)

lemma entryConfigFor_total:
  assumes "server_ok Q ex" "server_ok Q en" "Q = e_net E"
  shows "\<exists>x. entryConfigFor E dev ex en p = Inr x"
  using choosePort_total [OF assms(2), of "e_entryPortDraw E"] assms(1,3)
  by (auto simp: entryConfigFor_def server_ok_def)

lemma setupConfigs_total:
  assumes "env_ok E"
  shows "\<exists>r. setupConfigs E p pol c = Inr r"
proof -
  obtain ex where ex: "chooseExitServer E pol c = Inr ex" "server_initialized ex \<longrightarrow> server_ok (e_net E) ex"
    using chosen_server_ok(1) [OF assms] by blast
  obtain en where en: "chooseEntryServer E pol c = Inr en" "server_initialized en \<longrightarrow> server_ok (e_net E) en"
    using chosen_server_ok(2) [OF assms] by blast
  show ?thesis
  proof (cases "server_initialized ex")
    case True
    then have exok: "server_ok (e_net E) ex" using ex by simp
    have "\<exists>r. finishConfigs E dev ex q pol xc c = Inr r" for dev q xc
      using en entryConfigFor_total [OF exok _ refl, of en dev q] by (auto simp: finishConfigs_def)
    moreover have "\<exists>xc. baseExitConfig E dev ex c = Inr xc" for dev by (rule baseExitConfig_total [OF assms exok])
    ultimately have "\<exists>r. fbind (baseExitConfig E dev ex c) (\<lambda>xc. finishConfigs E dev ex q pol xc c) = Inr r" for dev q
      by (metis fbind_simps(2))
    then show ?thesis using ex True by (simp add: setupConfigs_def split: option.splits)
  qed (use ex in \<open>simp add: setupConfigs_def\<close>)
qed

lemma activateInternal_total:
  assumes "env_ok E" "m_impl c"
  shows "\<exists>c'. activateInternal E p pol who c = Inr c'"
proof -
  let ?c = "c\<lparr>m_initiator := who, m_handshakeTimer := False, m_activationQueue := []\<rparr>"
  obtain cs d where r: "setupConfigs E p pol ?c = Inr (cs, d)"
    using setupConfigs_total [OF assms(1)] by fastforce
  have "cs = [] \<or> length cs = 1 \<or> length cs = 2"
    using setupConfigs_cases [OF r] hop_list_facts by blast
  then show ?thesis using assms(2) r by (auto simp: activateInternal_def Let_def)
qed

text \<open>The record of actions only grows.\<close>

lemma slots_actions: "set (m_actions c) \<subseteq> set (m_actions ((maybeEnableDisconnectInConfirming ^^ n) c))"
  by (induction n) (auto simp: maybeEnableDisconnectInConfirming_def act_def)

lemma setState_actions: "a \<in> set (m_actions c) \<Longrightarrow> a \<in> set (m_actions (setState s c))"
  using slots_actions [of "act (StateChanged s) (c\<lparr>m_state := s\<rparr>)" "m_stateSlots c"]
  by (auto simp: setState_def act_def)

subsection \<open>Retries\<close>

text \<open>Handshake timeouts in a row, as long as the timer is running.\<close>

fun timeouts :: "ctl_env list \<Rightarrow> Controller \<Rightarrow> fault + Controller" where
  "timeouts [] c = Inr c"
| "timeouts (E # Es) c = (if m_handshakeTimer c then fbind (fire_handshakeTimer E c) (timeouts Es) else Inr c)"

lemma timeouts_stopped: "\<not> m_handshakeTimer c \<Longrightarrow> timeouts Es c = Inr c"
  by (cases Es) auto

lemma deactivate_total: "m_impl c \<Longrightarrow> \<exists>b c'. deactivate who c = Inr (b, c')"
  by (auto simp: deactivate_def Let_def)

lemma deactivate_timer: "deactivate who c = Inr (b, c') \<Longrightarrow> \<not> m_handshakeTimer c \<Longrightarrow> \<not> m_handshakeTimer c'"
  by (auto simp: deactivate_def Let_def split: if_splits dest!: fassert_InrD)

text \<open>
  One timeout in a state with the invariant always returns; the timer is off afterwards or the
  retry counter has grown.
\<close>

lemma fire_progress:
  assumes "ctl_inv c" "m_handshakeTimer c" "env_ok E"
  shows "\<exists>c'. fire_handshakeTimer E c = Inr c' \<and>
    (\<not> m_handshakeTimer c' \<or> (m_connectionRetry c' = m_connectionRetry c + 1 \<and> m_connectionRetry c' < CONNECTION_MAX_RETRY))"
proof -
  let ?c = "c\<lparr>m_handshakeTimer := False\<rparr>"
  have q: "m_activationQueue c \<noteq> []" "m_hopType (last (m_activationQueue c)) \<noteq> MultiHopEntry" "m_impl c" "0 \<le> m_connectionRetry c"
    using assms(1,2) by (auto simp: ctl_inv_defs)
  define d where "d = act (SetCooldown (qtext (m_serverPublicKey (hd (m_activationQueue ?c)))) SERVER_UNRESPONSIVE_COOLDOWN_SEC) ?c"
  define e where "e = act ConnectionRetryChanged (d\<lparr>m_connectionRetry := m_connectionRetry d + 1\<rparr>)"
  have e: "m_connectionRetry e = m_connectionRetry c + 1" "m_activationQueue e = m_activationQueue c" "m_impl e" "\<not> m_handshakeTimer e"
      "m_impl d" "\<not> m_handshakeTimer d" "m_nextStep d = m_nextStep c"
    using q by (simp_all add: e_def d_def)
  have fire: "fire_handshakeTimer E c =
    (if e_hasProfiles E then
       (let c = setState StateConnectionError (setError ErrorServerTimeout ?c);
            c = c\<lparr>m_handshakeTimer := False, m_pingCanary := None\<rparr>
        in Inr (if m_impl c then act ImplDeactivate c else c))
     else if m_nextStep c = Quit \<or> m_nextStep c = Disconnect \<or> m_nextStep c = Update then deactivate_ignored d
     else if m_connectionRetry e = 1 then activateInternal E ForceDNSPort RandomizeServerSelection (m_initiator e) e
     else if m_connectionRetry e < CONNECTION_MAX_RETRY then activateInternal E DoNotForceDNSPort RandomizeServerSelection (m_initiator e) e
     else Inr (serverUnavailable e))"
    using q by (simp add: fire_handshakeTimer_def handshakeTimeout_def Let_def e_def d_def)
  consider (profiles) "e_hasProfiles E"
    | (stop) "\<not> e_hasProfiles E" "m_nextStep c = Quit \<or> m_nextStep c = Disconnect \<or> m_nextStep c = Update"
    | (again) "\<not> e_hasProfiles E" "\<not> (m_nextStep c = Quit \<or> m_nextStep c = Disconnect \<or> m_nextStep c = Update)"
        "m_connectionRetry e < CONNECTION_MAX_RETRY"
    | (stuck) "\<not> e_hasProfiles E" "\<not> (m_nextStep c = Quit \<or> m_nextStep c = Disconnect \<or> m_nextStep c = Update)"
        "\<not> m_connectionRetry e < CONNECTION_MAX_RETRY" by blast
  then show ?thesis
  proof cases
    case profiles
    then show ?thesis by (simp add: fire Let_def)
  next
    case stop
    then show ?thesis
      using deactivate_total [OF e(5), of ClientUser] deactivate_timer e(6) by (fastforce simp: fire deactivate_ignored_def)
  next
    case again
    then obtain p c' where c': "fire_handshakeTimer E c = Inr c'" "activateInternal E p RandomizeServerSelection (m_initiator e) e = Inr c'"
      using activateInternal_total [OF assms(3) e(3)] by (simp add: fire) metis
    then show ?thesis using activateInternal_inv(2) [OF c'(2)] again(3) e(1) q(4) by simp
  next
    case stuck
    then have "m_connectionRetry e \<noteq> 1" by (auto simp: CONNECTION_MAX_RETRY_def)
    then show ?thesis using stuck e(4) by (simp add: fire)
  qed
qed

lemma timeouts_end:
  "ctl_inv c \<Longrightarrow> \<forall>E\<in>set Es. env_ok E \<Longrightarrow> CONNECTION_MAX_RETRY \<le> m_connectionRetry c + int (length Es) \<Longrightarrow> Es \<noteq> [] \<Longrightarrow>
     \<exists>c'. timeouts Es c = Inr c' \<and> \<not> m_handshakeTimer c'"
proof (induction Es arbitrary: c)
  case (Cons E Es)
  show ?case
  proof (cases "m_handshakeTimer c")
    case True
    then obtain d where d: "fire_handshakeTimer E c = Inr d"
        "\<not> m_handshakeTimer d \<or> (m_connectionRetry d = m_connectionRetry c + 1 \<and> m_connectionRetry d < CONNECTION_MAX_RETRY)"
      using fire_progress [OF Cons.prems(1)] Cons.prems(2) by auto
    have inv: "ctl_inv d" using handshakeTimeout_inv [OF Cons.prems(1) True d(1)] .
    show ?thesis
    proof (cases "m_handshakeTimer d")
      case True
      then have "Es \<noteq> []" "CONNECTION_MAX_RETRY \<le> m_connectionRetry d + int (length Es)"
        using d(2) Cons.prems(3) by auto
      then show ?thesis using Cons.IH [OF inv] Cons.prems(2) d(1) \<open>m_handshakeTimer c\<close> by simp
    qed (use d \<open>m_handshakeTimer c\<close> timeouts_stopped in simp)
  qed simp
qed simp

subsection \<open>Properties\<close>

definition exampleCtlNet :: qt_net where
  "exampleCtlNet = \<lparr>qHostAddress = (\<lambda>s. IPv4Address 0x0A000001), qParseSubnet = (\<lambda>s. (IPv4Address 0, 0)),
     qAddrToString = (\<lambda>a. ''10.0.0.1''), qIsLoopback = (\<lambda>a. False), qNumber = (\<lambda>n. ''1''), qToInt = (\<lambda>s. None)\<rparr>"

definition exampleEnv :: ctl_env where
  "exampleEnv = \<lparr>e_hasProfiles = False, e_device = Some (Some ''10.0.0.2'', None), e_privateKey = Some ''k'',
     e_serverData = emptyServerData, e_scm = emptyModel, e_getCooldown = (\<lambda>_. 0), e_nowSecs = 0, e_nowUTC = 0,
     e_settings = exampleSettings, e_net = exampleCtlNet, e_translateCity = (\<lambda>c. c), e_exitDraw = 0, e_entryDraw = 0,
     e_exitPortDraw = 0, e_entryPortDraw = 0, e_customDNS = True, e_multiHop = True, e_alwaysPort53 = False,
     e_checkConnectivity = False, e_unreachable = False, e_splitTunnelSupported = False, e_multihopSupported = True,
     e_canSendUpdatedConfig = False\<rparr>"

lemma exampleEnv_ok: "env_ok exampleEnv"
  by (simp add: env_ok_def exampleEnv_def exampleCtlNet_def emptyModel_def IPAddress_fromString_def getServerList_def
      findCity_def emptyCity_def Setting_get_def getValue_def exampleSettings_def holderSetting_def)

definition hopConfig :: "HopType \<Rightarrow> string \<Rightarrow> InterfaceConfig" where
  "hopConfig h k = emptyConfig\<lparr>m_hopType := h, m_serverPublicKey := Some k, m_serverIpv4AddrIn := Some ''198.51.100.1''\<rparr>"

text \<open>A controller after a local profile was activated; it is reachable.\<close>

definition readyController :: Controller where
  "readyController = implInitialized exampleEnv True False None (initialize exampleEnv newController)"

definition activatedController :: Controller where
  "activatedController = snd (activate_config exampleEnv (hopConfig SingleHop ''k1'') ClientUser readyController)"

lemma readyController_reachable: "ctl_reachable readyController"
proof -
  have "ctl_reachable newController" by (rule reach_init) simp
  then have "ctl_reachable (initialize exampleEnv newController)" by (rule reach_step) (rule st_initialize)
  moreover have "m_impl (initialize exampleEnv newController)" by (simp add: initialize_def Let_def)
  ultimately show ?thesis unfolding readyController_def by (blast intro: reach_step st_initialized)
qed

lemma activatedController_reachable: "ctl_reachable activatedController"
  unfolding activatedController_def
  by (rule reach_step [OF readyController_reachable st_activate_config]) (simp add: hopConfig_def)

lemma activatedController_facts:
  "m_handshakeTimer activatedController" "m_state activatedController = StateConfirming"
  "m_activationQueue activatedController = [hopConfig SingleHop ''k1'']" "m_connectionRetry activatedController = 0"
  "m_impl activatedController" "m_initiator activatedController = ClientUser" "m_nextStep activatedController = NoStep"
  by code_simp+

text \<open>
  C3. The assertions in the handshake timeout never fail: in every reachable state in which the
  timer is running there is a hop to wait for, the last hop queued is not a multi-hop entry, and
  the platform controller exists.
\<close>

theorem handshake_timer_waits_for_a_hop:
  assumes "ctl_reachable c" and "m_handshakeTimer c"
  shows "m_activationQueue c \<noteq> [] \<and> m_hopType (last (m_activationQueue c)) \<noteq> MultiHopEntry \<and>
    length (m_activationQueue c) \<le> 2 \<and> m_impl c"
  using ctl.reachable_inv [OF assms(1)] assms(2) by (auto simp: ctl_inv_defs)

theorem handshake_timer_waits_for_a_hop_witness: "m_activationQueue activatedController \<noteq> []"
  using handshake_timer_waits_for_a_hop [OF activatedController_reachable activatedController_facts(1)] by blast



text \<open>
  C33. A timed-out handshake of a local profile is final: in every reachable state the timeout returns,
  reports a server timeout, enters the error state with the timer off and tells the platform
  controller to take the tunnel down.
\<close>

theorem profile_timeout_gives_up:
  assumes "ctl_reachable c" and "m_handshakeTimer c" and "e_hasProfiles E"
  shows "\<exists>c'. fire_handshakeTimer E c = Inr c' \<and> m_state c' = StateConnectionError \<and> m_errorCode c' = ErrorServerTimeout \<and>
    \<not> m_handshakeTimer c' \<and> m_pingCanary c' = None \<and> last (m_actions c') = ImplDeactivate \<and>
    m_connectionRetry c' = m_connectionRetry c"
proof -
  have "m_activationQueue c \<noteq> []" "m_impl c"
    using ctl.reachable_inv [OF assms(1)] assms(2) by (auto simp: ctl_inv_defs)
  then show ?thesis using assms(3)
    by (simp add: fire_handshakeTimer_def handshakeTimeout_def Let_def) (simp add: act_def)
qed

theorem profile_timeout_gives_up_witness:
  "\<exists>c'. fire_handshakeTimer (exampleEnv\<lparr>e_hasProfiles := True\<rparr>) activatedController = Inr c' \<and> m_state c' = StateConnectionError"
  using profile_timeout_gives_up [OF activatedController_reachable activatedController_facts(1), of "exampleEnv\<lparr>e_hasProfiles := True\<rparr>"]
  by auto


definition multihopController :: Controller where
  "multihopController = readyController\<lparr>m_activationQueue := [hopConfig MultiHopEntry ''k1'', hopConfig MultiHopExit ''k2''],
     m_handshakeTimer := True, m_state := StateConfirming, m_initiator := ClientUser\<rparr>"


text \<open>
  Who may deactivate: a principal below the one that activated changes nothing, so the browser
  extension cannot take down a connection of the client.  Otherwise, from an active state in which a
  tunnel may exist, deactivation empties the queue, stops the timer and the canary, clears the
  retry counter and the error, and ends by telling the platform controller to deactivate.
\<close>

lemma deactivate_rules:
  "(user < m_initiator c \<longrightarrow> deactivate user c = Inr (False, c)) \<and>
   (m_initiator c \<le> user \<and> isActive c \<and> m_impl c \<and> \<not> (m_state c = StateConnectionError \<and> m_errorCode c = ErrorNoServerAvailable) \<longrightarrow>
     (\<exists>c'. deactivate user c = Inr (True, c') \<and> m_activationQueue c' = [] \<and> \<not> m_handshakeTimer c' \<and>
        m_pingCanary c' = None \<and> m_connectionRetry c' = 0 \<and> m_errorCode c' = ErrorNone \<and>
        m_state c' = (if m_state c \<in> {StateSwitching, StateSilentSwitching} then m_state c else StateDisconnecting) \<and>
        last (m_actions c') = ImplDeactivate))"
  by (auto simp: deactivate_def Let_def not_less [symmetric]) (auto simp: act_def)

text \<open>
  Disconnection returns the controller to its idle state: unless a reconnection is pending, the
  slot returns, the state is off, queue, timer, canary and retry counter are cleared and no further step
  is pending; without a pending quit or update the connection time, the status and the initiator are
  cleared as well, and a pending quit or update is announced.
\<close>

lemma disconnected_resets:
  assumes "m_nextStep c \<noteq> Reconnect"
  shows "\<exists>c'. disconnected E c = Inr c' \<and> m_state c' = StateOff \<and> m_activationQueue c' = [] \<and>
    \<not> m_handshakeTimer c' \<and> m_pingCanary c' = None \<and> m_connectionRetry c' = 0 \<and> m_nextStep c' = NoStep \<and>
    (m_nextStep c \<in> {NoStep, Disconnect} \<longrightarrow>
       m_connectedTimeInUTC c' = None \<and> m_status c' = clearStatus \<and> m_initiator c' = NullPrincipal) \<and>
    (m_nextStep c = Quit \<longrightarrow> ReadyToQuit \<in> set (m_actions c')) \<and>
    (m_nextStep c = Update \<longrightarrow> ReadyToUpdate \<in> set (m_actions c'))"
  using assms
  by (cases "m_nextStep c") (auto simp: disconnected_def Let_def act_def intro!: setState_actions)

text \<open>
  Activation of a profile: refused without any change outside the states that allow it; without
  a backend it ends in the error state with nothing submitted; and with one, on a device that is not
  found offline, exactly this configuration is queued and submitted, the timer runs and the retry
  counter is zero.
\<close>

lemma profile_activation:
  assumes "e_hasProfiles E" and "initiator \<noteq> ExtensionUser"
  shows "(\<not> activatable c \<longrightarrow> activate_config E config initiator c = (False, c)) \<and>
    (activatable c \<and> (\<not> m_impl c \<or> \<not> m_backendAvailable c) \<longrightarrow>
       (\<exists>c'. activate_config E config initiator c = (False, c') \<and> m_state c' = StateConnectionError \<and>
          m_errorCode c' = ErrorNoServerAvailable)) \<and>
    (activatable c \<and> m_impl c \<and> m_backendAvailable c \<and> \<not> (e_checkConnectivity E \<and> e_unreachable E) \<and>
     \<not> e_splitTunnelSupported E \<longrightarrow>
       (\<exists>c'. activate_config E config initiator c = (True, c') \<and> m_state c' = StateConfirming \<and>
          m_activationQueue c' = [config] \<and> m_handshakeTimer c' \<and> m_connectionRetry c' = 0 \<and>
          m_initiator c' = initiator \<and> m_nextStep c' = m_nextStep c \<and> ImplActivate config ReasonNone \<in> set (m_actions c')))"
proof -
  have next_ok: "m_state (activateNext E x) = StateConfirming \<and> m_activationQueue (activateNext E x) = [config] \<and>
      m_handshakeTimer (activateNext E x) \<and> m_connectionRetry (activateNext E x) = 0 \<and>
      m_initiator (activateNext E x) = initiator \<and> m_nextStep (activateNext E x) = m_nextStep x \<and> ImplActivate config ReasonNone \<in> set (m_actions (activateNext E x))"
    if "m_activationQueue x = [config]" "m_state x = StateConnecting" "m_connectionRetry x = 0" "m_initiator x = initiator" for x
    using that assms
    by (auto simp: activateNext_def startHandshakeTimer_def Let_def stateToReason_def act_def intro!: setState_actions)
  obtain off d where d: "(if m_state (setError ErrorNone c) = StateOff then connectivityCheck E (setError ErrorNone c)
      else (False, setError ErrorNone c)) = (off, d)" by fastforce
  define y where "y = (clearRetryCounter (setState StateConnecting d))\<lparr>m_initiator := initiator, m_handshakeTimer := False,
      m_activationQueue := [config], m_pingReceived := False\<rparr>"
  define x where "x = (if \<not> qIsEmpty (m_serverIpv4AddrIn config) then y\<lparr>m_pingCanary := Some (qtext (m_serverIpv4AddrIn config), ''0.0.0.0/0'')\<rparr>
      else if \<not> qIsEmpty (m_serverIpv6AddrIn config) then y\<lparr>m_pingCanary := Some (qtext (m_serverIpv6AddrIn config), ''::/0'')\<rparr> else y)"
  have "m_nextStep d = m_nextStep c"
    using d by (auto simp: connectivityCheck_def split: if_splits)
  then have nextStep: "m_nextStep x = m_nextStep c" by (simp add: x_def y_def)
  have x: "m_activationQueue x = [config]" "m_state x = StateConnecting" "m_connectionRetry x = 0" "m_initiator x = initiator"
    by (simp_all add: x_def y_def)
  have noff: "\<not> (e_checkConnectivity E \<and> e_unreachable E) \<longrightarrow> \<not> off"
    using d by (auto simp: connectivityCheck_def split: if_splits)
  have "activate_config E config initiator c = (True, activateNext E x)"
    if "activatable c" "m_impl c" "m_backendAvailable c" "\<not> off" "\<not> e_splitTunnelSupported E"
    using that d assms(2) by (simp add: activate_config_def Let_def x_def y_def)
  with next_ok [OF x] noff nextStep
  have "activatable c \<and> m_impl c \<and> m_backendAvailable c \<and> \<not> (e_checkConnectivity E \<and> e_unreachable E) \<and> \<not> e_splitTunnelSupported E \<longrightarrow>
       (\<exists>c'. activate_config E config initiator c = (True, c') \<and> m_state c' = StateConfirming \<and>
          m_activationQueue c' = [config] \<and> m_handshakeTimer c' \<and> m_connectionRetry c' = 0 \<and>
          m_initiator c' = initiator \<and> m_nextStep c' = m_nextStep c \<and> ImplActivate config ReasonNone \<in> set (m_actions c'))"
    by auto
  moreover have "activatable c \<and> (\<not> m_impl c \<or> \<not> m_backendAvailable c) \<longrightarrow>
       (\<exists>c'. activate_config E config initiator c = (False, c') \<and> m_state c' = StateConnectionError \<and>
          m_errorCode c' = ErrorNoServerAvailable)"
    by (simp add: activate_config_def Let_def)
  ultimately show ?thesis by (simp add: activate_config_def)
qed

text \<open>The handshake of the only hop ends an activation.\<close>

lemma single_hop_connected:
  assumes "m_activationQueue c = [config]" "m_nextStep c = NoStep" "m_initiator c \<noteq> ExtensionUser"
  shows "\<exists>c'. connected E (qtext (m_serverPublicKey config)) c = Inr c' \<and> m_state c' = StateOn \<and> m_activationQueue c' = [] \<and>
    \<not> m_handshakeTimer c' \<and> m_errorCode c' = ErrorNone"
  using assms by (simp add: connected_def all_connected_def Let_def)



subsection \<open>Observations\<close>

lemma chooseExitServer_cong: "m_serverData x = m_serverData y \<Longrightarrow> chooseExitServer E pol x = chooseExitServer E pol y"
  by (simp add: chooseExitServer_def)

definition tunnel_downs :: "Controller \<Rightarrow> nat" where
  "tunnel_downs c = length (filter (\<lambda>a. a = ImplDeactivate) (m_actions c))"

lemma tunnel_downs_act [simp]: "tunnel_downs (act a c) = tunnel_downs c + (if a = ImplDeactivate then 1 else 0)"
  by (simp add: tunnel_downs_def act_def)

lemma tunnel_downs_upd [simp]:
  "tunnel_downs (c\<lparr>m_serverData := d\<rparr>) = tunnel_downs c" "tunnel_downs (c\<lparr>m_initiator := w\<rparr>) = tunnel_downs c"
  "tunnel_downs (c\<lparr>m_handshakeTimer := b\<rparr>) = tunnel_downs c" "tunnel_downs (c\<lparr>m_activationQueue := q\<rparr>) = tunnel_downs c"
  "tunnel_downs (c\<lparr>m_connectionRetry := n\<rparr>) = tunnel_downs c" "tunnel_downs (c\<lparr>m_errorCode := e\<rparr>) = tunnel_downs c"
  "tunnel_downs (c\<lparr>m_state := s\<rparr>) = tunnel_downs c"
  by (simp_all add: tunnel_downs_def)

lemma tunnel_downs_slots: "tunnel_downs ((maybeEnableDisconnectInConfirming ^^ n) c) = tunnel_downs c"
  by (induction n) (simp_all add: maybeEnableDisconnectInConfirming_def tunnel_downs_def act_def)

lemma tunnel_downs_frame [simp]:
  "tunnel_downs (setState s c) = tunnel_downs c" "tunnel_downs (setError e c) = tunnel_downs c"
  "tunnel_downs (clearRetryCounter c) = tunnel_downs c" "tunnel_downs (serverUnavailable c) = tunnel_downs c"
  by (simp_all add: setState_def tunnel_downs_slots setError_def clearRetryCounter_def serverUnavailable_def Let_def)

text \<open>
  Without a current device, activation answers true and leaves the controller in the connecting
  state with nothing submitted, no timer and no pending handshake.
\<close>

lemma activation_without_device_waits:
  assumes "e_device E = None" "m_state c = StateOff" "\<not> m_portalDetected c" "\<not> e_checkConnectivity E" "m_impl c"
    "chooseExitServer E policy (c\<lparr>m_serverData := sd_assign (m_serverData c) sd\<rparr>) = Inr srv" "server_initialized srv"
  shows "\<exists>c'. activate_server E sd ClientUser policy c = Inr (True, c') \<and> m_state c' = StateConnecting \<and>
    m_activationQueue c' = [] \<and> \<not> m_handshakeTimer c'"
proof -
  have "chooseExitServer E policy x = Inr srv" if "m_serverData x = sd_assign (m_serverData c) sd" for x
    using chooseExitServer_cong [of x "c\<lparr>m_serverData := sd_assign (m_serverData c) sd\<rparr>"] assms(6) that by simp
  then show ?thesis
    using assms by (auto simp: activate_server_def activateInternal_def setupConfigs_def connectivityCheck_def activatable_def Let_def)
qed

text \<open>
  Activating from the partial (extension) state when no server is available, and then deactivating,
  reaches the off state although the platform controller was never told to take the extension's
  tunnel down.
\<close>

lemma partial_tunnel_left_up:
  assumes "m_state c = StateOnPartial" "m_impl c" "m_initiator c \<le> ClientUser"
    "chooseExitServer E policy (c\<lparr>m_serverData := sd_assign (m_serverData c) sd\<rparr>) = Inr emptyServer"
  shows "\<exists>c1 c2. activate_server E sd ClientUser policy c = Inr (True, c1) \<and> deactivate ClientUser c1 = Inr (True, c2) \<and>
    m_state c2 = StateOff \<and> tunnel_downs c2 = tunnel_downs c"
proof -
  have ch: "chooseExitServer E policy x = Inr emptyServer" if "m_serverData x = sd_assign (m_serverData c) sd" for x
    using chooseExitServer_cong [of x "c\<lparr>m_serverData := sd_assign (m_serverData c) sd\<rparr>"] assms(4) that by simp
  define x where "x = (clearRetryCounter (setState StateConnecting (act CurrentServerChanged
      ((setError ErrorNone c)\<lparr>m_serverData := sd_assign (m_serverData c) sd\<rparr>))))
      \<lparr>m_initiator := ClientUser, m_handshakeTimer := False, m_activationQueue := []\<rparr>"
  have x: "m_state x = StateConnecting" "m_initiator x = ClientUser" "tunnel_downs x = tunnel_downs c"
      "m_serverData x = sd_assign (m_serverData c) sd"
    by (simp_all add: x_def)
  have "activate_server E sd ClientUser policy c = Inr (True, serverUnavailable x)"
    using assms(1,2) ch [OF x(4)] unfolding x_def
    by (simp add: activate_server_def activateInternal_def setupConfigs_def activatable_def Let_def
        server_initialized_def emptyServer_def)
  moreover have "deactivate ClientUser (serverUnavailable x) = Inr (True, setState StateOff (serverUnavailable x))"
    using x by (simp add: deactivate_def serverUnavailable_def Let_def)
  ultimately show ?thesis using x by auto
qed

end
