(* ===== verification/WireGuard_Config.thy ===== *)
theory WireGuard_Config
  imports Interface_Config
begin

text \<open>
  \<^verbatim>\<open>src/src/utils/wireguardconfig.cpp\<close>: the parser for WireGuard configuration text.  A run
  ends with the parsed configuration (\<open>Inr\<close>) or with an error (\<open>Inl\<close>): the message the code
  stores through its \<open>error\<close> argument, or the failure of the assertion inside
  \<open>IPAddress(QString)\<close>.  The loop over the lines is \<open>parse_lines\<close>, its body
  \<open>parse_line\<close>; the checks after the loop are \<open>parse_required\<close>.
\<close>

datatype parse_error = ParseError string | AssertionFailed

subsection \<open>Lines and lists\<close>

definition stripComment :: "string \<Rightarrow> string" where
  "stripComment line =
     (let hashIndex = indexOf line (CHR ''#''); semicolonIndex = indexOf line (CHR '';'');
          commentIndex =
            (if hashIndex \<ge> 0 \<and> semicolonIndex \<ge> 0 then min hashIndex semicolonIndex
             else if hashIndex \<ge> 0 then hashIndex
             else if semicolonIndex \<ge> 0 then semicolonIndex
             else -1);
          line = (if commentIndex \<ge> 0 then left line commentIndex else line)
      in trimmed line)"

definition splitCsv :: "string \<Rightarrow> string list" where
  "splitCsv value = filter (\<lambda>t. t \<noteq> []) (map trimmed (qsplit (CHR '','') value))"

subsection \<open>Addresses and endpoints\<close>

definition isValidAddressWithPrefix :: "qt_net \<Rightarrow> string \<Rightarrow> bool" where
  "isValidAddressWithPrefix Q value =
     (if CHR ''/'' \<notin> set value then protocol (qHostAddress Q value) \<noteq> UnknownNetworkLayerProtocol
      else let subnet = qParseSubnet Q value in
           protocol (fst subnet) \<noteq> UnknownNetworkLayerProtocol \<and> snd subnet \<ge> 0)"

definition appendAddress :: "qt_net \<Rightarrow> string \<Rightarrow> InterfaceConfig \<Rightarrow> parse_error + InterfaceConfig" where
  "appendAddress Q value c =
     (if \<not> isValidAddressWithPrefix Q value then Inl (ParseError (''Invalid Address value: '' @ value))
      else
        let host = firstSection value (CHR ''/''); address = qHostAddress Q host in
        if protocol address = IPv4Protocol then Inr (c\<lparr>m_deviceIpv4Address := Some value\<rparr>)
        else if protocol address = IPv6Protocol then Inr (c\<lparr>m_deviceIpv6Address := Some value\<rparr>)
        else Inl (ParseError (''Invalid Address value: '' @ value)))"

fun appendAddresses :: "qt_net \<Rightarrow> string list \<Rightarrow> InterfaceConfig \<Rightarrow> parse_error + InterfaceConfig" where
  "appendAddresses Q [] c = Inr c"
| "appendAddresses Q (address # rest) c =
     (case appendAddress Q address c of Inl e \<Rightarrow> Inl e | Inr c' \<Rightarrow> appendAddresses Q rest c')"

text \<open>Host and port text of an endpoint, before the port is converted.\<close>

definition splitEndpoint :: "string \<Rightarrow> parse_error + (string \<times> string)" where
  "splitEndpoint value =
     (if startsWithChar value (CHR ''['') then
        (let closeBracket = indexOf value (CHR '']'') in
         if closeBracket < 0 \<or> mid value (closeBracket + 1) 1 \<noteq> '':''
         then Inl (ParseError ''Endpoint IPv6 address must use [address]:port format'')
         else Inr (mid value 1 (closeBracket - 1), midFrom value (closeBracket + 2)))
      else
        (let separator = lastIndexOf value (CHR '':'') in
         if separator \<le> 0 \<or> separator = int (length value) - 1
         then Inl (ParseError ''Endpoint must include host and port'')
         else
           let host = left value separator; portValue = midFrom value (separator + 1) in
           if CHR '':'' \<in> set host
           then Inl (ParseError ''Endpoint IPv6 address must use [address]:port format'')
           else Inr (host, portValue)))"

definition parseEndpoint :: "qt_net \<Rightarrow> string \<Rightarrow> InterfaceConfig \<Rightarrow> parse_error + InterfaceConfig" where
  "parseEndpoint Q value c =
     (case splitEndpoint value of
        Inl e \<Rightarrow> Inl e
      | Inr (host, portValue) \<Rightarrow>
          (case qToInt Q portValue of
             None \<Rightarrow> Inl (ParseError (''Invalid Endpoint port: '' @ portValue))
           | Some parsedPort \<Rightarrow>
               if parsedPort \<le> 0 \<or> parsedPort > 65535
               then Inl (ParseError (''Invalid Endpoint port: '' @ portValue))
               else if protocol (qHostAddress Q host) = IPv6Protocol
               then Inr (c\<lparr>m_serverIpv6AddrIn := Some host, m_serverPort := parsedPort\<rparr>)
               else Inr (c\<lparr>m_serverIpv4AddrIn := Some host, m_serverPort := parsedPort\<rparr>)))"

definition appendAllowedIp :: "qt_net \<Rightarrow> string \<Rightarrow> InterfaceConfig \<Rightarrow> parse_error + InterfaceConfig" where
  "appendAllowedIp Q value c =
     (if \<not> isValidAddressWithPrefix Q value then Inl (ParseError (''Invalid AllowedIPs value: '' @ value))
      else case IPAddress_fromString Q value of
             None \<Rightarrow> Inl AssertionFailed
           | Some ip \<Rightarrow> Inr (c\<lparr>m_allowedIPAddressRanges := m_allowedIPAddressRanges c @ [ip]\<rparr>))"

fun appendAllowedIps :: "qt_net \<Rightarrow> string list \<Rightarrow> InterfaceConfig \<Rightarrow> parse_error + InterfaceConfig" where
  "appendAllowedIps Q [] c = Inr c"
| "appendAllowedIps Q (ip # rest) c =
     (case appendAllowedIp Q ip c of Inl e \<Rightarrow> Inl e | Inr c' \<Rightarrow> appendAllowedIps Q rest c')"

subsection \<open>The parser\<close>

definition parse_key_value ::
    "qt_net \<Rightarrow> string \<Rightarrow> string \<Rightarrow> string \<Rightarrow> InterfaceConfig \<Rightarrow> parse_error + InterfaceConfig" where
  "parse_key_value Q sect key value parsed =
     (if sect = ''interface'' then
        (if key = ''privatekey'' then Inr (parsed\<lparr>m_privateKey := Some value\<rparr>)
         else if key = ''address'' then appendAddresses Q (splitCsv value) parsed
         else if key = ''dns'' then
           (case splitCsv value of [] \<Rightarrow> Inr parsed | first # _ \<Rightarrow> Inr (parsed\<lparr>m_dnsServer := Some first\<rparr>))
         else Inr parsed)
      else if sect = ''peer'' then
        (if key = ''publickey'' then Inr (parsed\<lparr>m_serverPublicKey := Some value\<rparr>)
         else if key = ''endpoint'' then parseEndpoint Q value parsed
         else if key = ''allowedips'' then appendAllowedIps Q (splitCsv value) parsed
         else Inr parsed)
      else Inr parsed)"

definition parse_line ::
    "qt_net \<Rightarrow> int \<Rightarrow> string \<Rightarrow> string \<times> InterfaceConfig \<Rightarrow> parse_error + (string \<times> InterfaceConfig)" where
  "parse_line Q index raw st =
     (let line = stripComment raw; sect = fst st; parsed = snd st in
      if line = [] then Inr st
      else if startsWithChar line (CHR ''['') \<and> endsWithChar line (CHR '']'') then
        Inr (toLower (trimmed (mid line 1 (int (length line) - 2))), parsed)
      else
        let separator = indexOf line (CHR ''='') in
        if separator \<le> 0 then Inl (ParseError (''Invalid WireGuard line '' @ qNumber Q (index + 1)))
        else
          let key = toLower (trimmed (left line separator)); value = trimmed (midFrom line (separator + 1)) in
          if value = [] then Inl (ParseError (''Empty WireGuard value for '' @ key))
          else case parse_key_value Q sect key value parsed of
                 Inl e \<Rightarrow> Inl e
               | Inr parsed' \<Rightarrow> Inr (sect, parsed'))"

fun parse_lines ::
    "qt_net \<Rightarrow> int \<Rightarrow> string list \<Rightarrow> string \<times> InterfaceConfig \<Rightarrow> parse_error + (string \<times> InterfaceConfig)" where
  "parse_lines Q index [] st = Inr st"
| "parse_lines Q index (l # ls) st =
     (case parse_line Q index l st of Inl e \<Rightarrow> Inl e | Inr st' \<Rightarrow> parse_lines Q (index + 1) ls st')"

definition parse_required :: "InterfaceConfig \<Rightarrow> parse_error + InterfaceConfig" where
  "parse_required parsed =
     (if qIsEmpty (m_privateKey parsed) then Inl (ParseError ''Interface PrivateKey is required'')
      else if qIsEmpty (m_deviceIpv4Address parsed) \<and> qIsEmpty (m_deviceIpv6Address parsed)
        then Inl (ParseError ''Interface Address is required'')
      else if qIsEmpty (m_serverPublicKey parsed) then Inl (ParseError ''Peer PublicKey is required'')
      else if qIsEmpty (m_serverIpv4AddrIn parsed) \<and> qIsEmpty (m_serverIpv6AddrIn parsed)
        then Inl (ParseError ''Peer Endpoint is required'')
      else if m_serverPort parsed = 0 then Inl (ParseError ''Peer Endpoint port is required'')
      else if m_allowedIPAddressRanges parsed = [] then Inl (ParseError ''Peer AllowedIPs is required'')
      else Inr parsed)"

definition wg_parse :: "qt_net \<Rightarrow> string \<Rightarrow> parse_error + InterfaceConfig" where
  "wg_parse Q content =
     (case parse_lines Q 0 (qsplit (CHR 0x0A) content) ([], emptyConfig\<lparr>m_hopType := SingleHop\<rparr>) of
        Inl e \<Rightarrow> Inl e
      | Inr st \<Rightarrow> parse_required (snd st))"

subsection \<open>What the string helpers compute\<close>

lemma cut_at_first:
  "(let h = indexOf l a; s = indexOf l b;
        ci = (if h \<ge> 0 \<and> s \<ge> 0 then min h s else if h \<ge> 0 then h else if s \<ge> 0 then s else -1)
    in if ci \<ge> 0 then left l ci else l) = takeWhile (\<lambda>c. c \<noteq> a \<and> c \<noteq> b) l"
proof (induction l)
  case Nil
  then show ?case by simp
next
  case (Cons x xs)
  then show ?case
    by (auto simp: Let_def left_def min_def nat_add_distrib split: if_splits)
qed

lemma stripComment_eq:
  "stripComment line = trimmed (takeWhile (\<lambda>c. c \<noteq> CHR ''#'' \<and> c \<noteq> CHR '';'') line)"
  unfolding stripComment_def using cut_at_first [of line "CHR ''#''" "CHR '';''"]
  by (simp add: Let_def)

lemma trimmed_edges:
  assumes "trimmed s \<noteq> []"
  shows "\<not> isSpace (hd (trimmed s))" and "\<not> isSpace (last (trimmed s))"
proof -
  let ?d = "dropWhile isSpace s"
  have t: "trimmed s = rev (dropWhile isSpace (rev ?d))" by (simp add: trimmed_def)
  have ne: "dropWhile isSpace (rev ?d) \<noteq> []" using assms by (simp add: t)
  then show "\<not> isSpace (last (trimmed s))"
    by (simp add: t last_rev hd_dropWhile)
  have "?d \<noteq> []" using ne by (metis dropWhile.simps(1) rev.simps(1))
  then have h: "\<not> isSpace (hd ?d)" by (rule hd_dropWhile)
  have "hd (trimmed s) = hd ?d"
    using \<open>?d \<noteq> []\<close> h ne
    by (cases "?d") (auto simp: t dropWhile_append3 hd_rev last_append dropWhile_append)
  with h show "\<not> isSpace (hd (trimmed s))" by simp
qed

text \<open>A value as it stands in a configuration line: trimmed, and free of comments and line ends.\<close>

definition wg_value :: "string \<Rightarrow> bool" where
  "wg_value v \<longleftrightarrow> v \<noteq> [] \<and> \<not> isSpace (hd v) \<and> \<not> isSpace (last v) \<and>
     CHR ''#'' \<notin> set v \<and> CHR '';'' \<notin> set v \<and> CHR 0x0A \<notin> set v"

definition wg_item :: "string \<Rightarrow> bool" where
  "wg_item v \<longleftrightarrow> wg_value v \<and> CHR '','' \<notin> set v"

lemma wg_value_trimmed: "wg_value v \<Longrightarrow> trimmed v = v"
  by (simp add: wg_value_def trimmed_id)

lemma trimmed_space: "isSpace c \<Longrightarrow> trimmed (c # s) = trimmed s"
  by (simp add: trimmed_def)

lemma space_isSpace [simp]: "isSpace (CHR '' '')"
  by (simp add: isSpace_def)

lemma splitCsv_Nil [simp]: "splitCsv [] = []"
  by (simp add: splitCsv_def trimmed_def)

lemma splitCsv_space: "splitCsv (CHR '' '' # s) = splitCsv s"
proof -
  obtain f fs where "qsplit (CHR '','') s = f # fs"
    by (cases "qsplit (CHR '','') s") auto
  then show ?thesis by (simp add: splitCsv_def trimmed_space)
qed

lemma splitCsv_join: "\<forall>x\<in>set xs. wg_item x \<Longrightarrow> splitCsv (joinWith '', '' xs) = xs"
proof (induction "'', ''" xs rule: joinWith.induct)
  case (2 x)
  then show ?case
    by (simp add: splitCsv_def qsplit_notin wg_item_def wg_value_trimmed wg_value_def [THEN iffD1])
next
  case (3 x y ys)
  have "qsplit (CHR '','') (x @ CHR '','' # t) = x # qsplit (CHR '','') t" for t
    using 3 by (simp add: qsplit_append wg_item_def)
  then have "splitCsv (x @ CHR '','' # t) = x # splitCsv t" for t
    using 3 by (simp add: splitCsv_def wg_item_def wg_value_trimmed wg_value_def [THEN iffD1])
  then show ?case using 3 by (simp add: splitCsv_space)
qed simp

lemma set_qsplit: "f \<in> set (qsplit c s) \<Longrightarrow> set f \<subseteq> set s"
  by (induction s arbitrary: f) (fastforce split: if_splits list.splits)+

lemma splitCsv_items:
  assumes "wg_value v" "x \<in> set (splitCsv v)"
  shows "wg_item x"
proof -
  obtain f where f: "f \<in> set (qsplit (CHR '','') v)" "x = trimmed f" "x \<noteq> []"
    using assms(2) by (auto simp: splitCsv_def)
  then have "set x \<subseteq> set v" "CHR '','' \<notin> set x"
    using set_trimmed [of f] set_qsplit [OF f(1)] qsplit_no_sep [OF f(1)] by auto
  then show ?thesis
    using assms(1) f trimmed_edges [of f] by (auto simp: wg_item_def wg_value_def)
qed

subsection \<open>What a successful parse guarantees\<close>

definition valid_device_address :: "qt_net \<Rightarrow> Protocol \<Rightarrow> string \<Rightarrow> bool" where
  "valid_device_address Q pr v \<longleftrightarrow> isValidAddressWithPrefix Q v \<and>
     protocol (qHostAddress Q (firstSection v (CHR ''/''))) = pr"

definition opt_all :: "(string \<Rightarrow> bool) \<Rightarrow> qstr \<Rightarrow> bool" where
  "opt_all P s \<longleftrightarrow> (\<forall>v. s = Some v \<longrightarrow> P v)"

lemma opt_all_simps [simp]: "opt_all P None" "opt_all P (Some v) \<longleftrightarrow> P v"
  by (simp_all add: opt_all_def)

text \<open>The members a parser run may have written so far, and those it never writes.\<close>

definition parse_inv :: "qt_net \<Rightarrow> InterfaceConfig \<Rightarrow> bool" where
  "parse_inv Q c \<longleftrightarrow>
     m_hopType c = SingleHop \<and> opt_all wg_value (m_privateKey c) \<and>
     opt_all (\<lambda>v. wg_item v \<and> valid_device_address Q IPv4Protocol v) (m_deviceIpv4Address c) \<and>
     opt_all (\<lambda>v. wg_item v \<and> valid_device_address Q IPv6Protocol v) (m_deviceIpv6Address c) \<and>
     opt_all wg_item (m_dnsServer c) \<and> opt_all wg_value (m_serverPublicKey c) \<and>
     opt_all (\<lambda>v. CHR ''#'' \<notin> set v \<and> CHR '';'' \<notin> set v \<and> CHR 0x0A \<notin> set v) (m_serverIpv4AddrIn c) \<and>
     opt_all (\<lambda>v. CHR ''#'' \<notin> set v \<and> CHR '';'' \<notin> set v \<and> CHR 0x0A \<notin> set v \<and>
       protocol (qHostAddress Q v) = IPv6Protocol) (m_serverIpv6AddrIn c) \<and>
     m_serverIpv4Gateway c = None \<and> m_serverIpv6Gateway c = None \<and>
     m_entryCity c = None \<and> m_exitCity c = None \<and> m_vpnDisabledApps c = [] \<and>
     0 \<le> m_serverPort c \<and> m_serverPort c \<le> 65535 \<and>
     (\<forall>ip\<in>set (m_allowedIPAddressRanges c). \<exists>s. IPAddress_fromString Q s = Some ip \<and> isValidAddressWithPrefix Q s)"

lemma parse_inv_empty: "parse_inv Q (emptyConfig\<lparr>m_hopType := SingleHop\<rparr>)"
  by (simp add: parse_inv_def emptyConfig_def)

lemma appendAddress_inv:
  "parse_inv Q c \<Longrightarrow> wg_item v \<Longrightarrow> appendAddress Q v c = Inr c' \<Longrightarrow> parse_inv Q c'"
  by (auto simp: appendAddress_def parse_inv_def valid_device_address_def Let_def split: if_splits)

lemma appendAddresses_inv:
  "parse_inv Q c \<Longrightarrow> \<forall>v\<in>set vs. wg_item v \<Longrightarrow> appendAddresses Q vs c = Inr c' \<Longrightarrow> parse_inv Q c'"
  by (induction vs arbitrary: c) (auto split: sum.splits dest: appendAddress_inv)

lemma appendAllowedIp_inv:
  "parse_inv Q c \<Longrightarrow> appendAllowedIp Q v c = Inr c' \<Longrightarrow> parse_inv Q c'"
  by (auto simp: appendAllowedIp_def parse_inv_def split: if_splits option.splits)

lemma appendAllowedIps_inv:
  "parse_inv Q c \<Longrightarrow> appendAllowedIps Q vs c = Inr c' \<Longrightarrow> parse_inv Q c'"
  by (induction vs arbitrary: c) (auto split: sum.splits dest: appendAllowedIp_inv)

lemma splitEndpoint_host: "splitEndpoint v = Inr (h, p) \<Longrightarrow> set h \<subseteq> set v"
  by (auto simp: splitEndpoint_def Let_def mid_def left_def split: if_splits
      dest: in_set_takeD in_set_dropD)

lemma parseEndpoint_inv:
  assumes "parse_inv Q c" "wg_value v" "parseEndpoint Q v c = Inr c'"
  shows "parse_inv Q c'"
proof -
  obtain h p where "splitEndpoint v = Inr (h, p)"
    using assms(3) by (auto simp: parseEndpoint_def split: sum.splits)
  with splitEndpoint_host [OF this] show ?thesis
    using assms by (auto simp: parseEndpoint_def parse_inv_def wg_value_def split: option.splits if_splits)
qed

lemma parse_key_value_inv:
  assumes "parse_inv Q c" "wg_value v" "parse_key_value Q sect key v c = Inr c'"
  shows "parse_inv Q c'"
proof -
  have items: "\<forall>x\<in>set (splitCsv v). wg_item x"
    using splitCsv_items [OF assms(2)] by blast
  show ?thesis
    using assms items
    by (auto simp: parse_key_value_def parse_inv_def [of Q "c\<lparr>m_privateKey := x\<rparr>" for x]
          split: if_splits list.splits intro: appendAddresses_inv appendAllowedIps_inv parseEndpoint_inv)
       (auto simp: parse_inv_def)
qed

lemma parse_line_inv:
  assumes "CHR 0x0A \<notin> set raw" "parse_inv Q (snd st)" "parse_line Q i raw st = Inr st'"
  shows "parse_inv Q (snd st')"
proof -
  let ?line = "stripComment raw"
  have sub: "set ?line \<subseteq> set raw - {CHR ''#'', CHR '';''}"
    using set_trimmed [of "takeWhile (\<lambda>c. c \<noteq> CHR ''#'' \<and> c \<noteq> CHR '';'') raw"]
    unfolding stripComment_eq by (fastforce dest: set_takeWhileD)
  have "wg_value (trimmed (midFrom ?line n))" if "trimmed (midFrom ?line n) \<noteq> []" for n
    using that trimmed_edges [of "midFrom ?line n"] set_trimmed [of "midFrom ?line n"] sub assms(1)
      set_drop_subset [of "nat n" ?line]
    by (auto simp: wg_value_def midFrom_def)
  then show ?thesis
    using assms(2,3)
    by (auto simp: parse_line_def Let_def split: if_splits sum.splits) (blast intro: parse_key_value_inv)+
qed

lemma parse_lines_inv:
  "\<forall>l\<in>set ls. CHR 0x0A \<notin> set l \<Longrightarrow> parse_inv Q (snd st) \<Longrightarrow> parse_lines Q i ls st = Inr st' \<Longrightarrow>
     parse_inv Q (snd st')"
  by (induction ls arbitrary: i st) (auto split: sum.splits dest: parse_line_inv)

lemma wg_parse_inv:
  assumes "wg_parse Q content = Inr c"
  shows "parse_inv Q c \<and> parse_required c = Inr c"
proof -
  obtain st where st: "parse_lines Q 0 (qsplit (CHR 0x0A) content) ([], emptyConfig\<lparr>m_hopType := SingleHop\<rparr>) = Inr st"
      and req: "parse_required (snd st) = Inr c"
    using assms by (auto simp: wg_parse_def split: sum.splits)
  have "parse_inv Q (snd st)"
    by (rule parse_lines_inv [OF _ _ st]) (auto simp: parse_inv_empty dest: qsplit_no_sep)
  moreover have "c = snd st" using req by (auto simp: parse_required_def split: if_splits)
  ultimately show ?thesis using req by simp
qed

subsection \<open>No assertion fails\<close>

lemma valid_text_constructs:
  "isValidAddressWithPrefix Q v \<Longrightarrow> IPAddress_fromString Q v \<noteq> None"
  by (auto simp: isValidAddressWithPrefix_def IPAddress_fromString_def Let_def
      split: if_splits Protocol.splits prod.splits)

lemma appendAllowedIps_no_assert: "appendAllowedIps Q vs c \<noteq> Inl AssertionFailed"
proof (induction vs arbitrary: c)
  case (Cons v vs)
  then show ?case
    using valid_text_constructs [of Q v]
    by (auto simp: appendAllowedIp_def split: sum.splits option.splits if_splits)
qed simp

lemma appendAddresses_no_assert: "appendAddresses Q vs c \<noteq> Inl AssertionFailed"
  by (induction vs arbitrary: c) (auto simp: appendAddress_def Let_def split: sum.splits if_splits)

lemma parse_key_value_no_assert: "parse_key_value Q sect key v c \<noteq> Inl AssertionFailed"
  using appendAllowedIps_no_assert appendAddresses_no_assert
  by (auto simp: parse_key_value_def parseEndpoint_def splitEndpoint_def Let_def
      split: list.splits sum.splits option.splits if_splits)

lemma parse_lines_no_assert: "parse_lines Q i ls st \<noteq> Inl AssertionFailed"
proof (induction ls arbitrary: i st)
  case (Cons l ls)
  have "parse_line Q i l st \<noteq> Inl AssertionFailed"
    using parse_key_value_no_assert
    by (auto simp: parse_line_def Let_def split: sum.splits if_splits)
  with Cons show ?case by (auto split: sum.splits)
qed simp

subsection \<open>Reading back what \<open>toWgConf\<close> writes\<close>

lemma stripComment_clean:
  "l \<noteq> [] \<Longrightarrow> \<not> isSpace (hd l) \<Longrightarrow> \<not> isSpace (last l) \<Longrightarrow> CHR ''#'' \<notin> set l \<Longrightarrow> CHR '';'' \<notin> set l \<Longrightarrow>
     stripComment l = l"
proof -
  assume a: "l \<noteq> []" "\<not> isSpace (hd l)" "\<not> isSpace (last l)" "CHR ''#'' \<notin> set l" "CHR '';'' \<notin> set l"
  then have "takeWhile (\<lambda>c. c \<noteq> CHR ''#'' \<and> c \<noteq> CHR '';'') l = l"
    by (auto simp: takeWhile_eq_all_conv)
  with a show ?thesis by (metis stripComment_eq trimmed_id)
qed

definition wg_key :: "string \<Rightarrow> bool" where
  "wg_key k \<longleftrightarrow> k \<noteq> [] \<and> \<not> isSpace (hd k) \<and> hd k \<noteq> CHR ''['' \<and>
     CHR ''#'' \<notin> set k \<and> CHR '';'' \<notin> set k \<and> CHR ''='' \<notin> set k"

lemma parse_key_line:
  assumes "wg_key k" "wg_value v"
  shows "parse_line Q i (k @ '' = '' @ v) (sect, c) =
    (case parse_key_value Q sect (toLower (trimmed (k @ '' ''))) v c of Inl e \<Rightarrow> Inl e | Inr c' \<Rightarrow> Inr (sect, c'))"
proof -
  let ?l = "k @ '' = '' @ v"
  obtain a as where k: "k = a # as" using assms(1) by (cases k) (auto simp: wg_key_def)
  have strip: "stripComment ?l = ?l"
    using assms by (intro stripComment_clean) (auto simp: wg_key_def wg_value_def k)
  have idx: "indexOf ?l (CHR ''='') = int (length k) + 1"
    using indexOf_append_notin [of "CHR ''=''" "k @ '' ''" "'' '' @ v"] assms(1) by (simp add: wg_key_def)
  have "left ?l (int (length k) + 1) = k @ '' ''"
    by (simp add: left_def nat_add_distrib)
  moreover have "trimmed (midFrom ?l (int (length k) + 1 + 1)) = v"
    using assms(2) by (simp add: midFrom_def nat_add_distrib trimmed_space wg_value_trimmed)
  moreover have "v \<noteq> []" using assms(2) by (simp add: wg_value_def)
  moreover have "\<not> startsWithChar ?l (CHR ''['')" "?l \<noteq> []"
    using assms(1) by (auto simp: startsWithChar_def wg_key_def k)
  ultimately show ?thesis
    by (simp add: parse_line_def strip idx del: append.simps)
qed

lemma key_names:
  "toLower (trimmed ''PrivateKey '') = ''privatekey''" "toLower (trimmed ''Address '') = ''address''"
  "toLower (trimmed ''DNS '') = ''dns''" "toLower (trimmed ''PublicKey '') = ''publickey''"
  "toLower (trimmed ''Endpoint '') = ''endpoint''" "toLower (trimmed ''AllowedIPs '') = ''allowedips''"
  by code_simp+

lemma wg_keys:
  "wg_key ''PrivateKey''" "wg_key ''Address''" "wg_key ''DNS''" "wg_key ''PublicKey''"
  "wg_key ''Endpoint''" "wg_key ''AllowedIPs''"
  by (simp_all add: wg_key_def isSpace_def)

lemma parse_section_lines:
  "parse_line Q i ''[Interface]'' (sect, c) = Inr (''interface'', c)"
  "parse_line Q i ''[Peer]'' (sect, c) = Inr (''peer'', c)"
  "parse_line Q i [] (sect, c) = Inr (sect, c)"
proof -
  have "stripComment ''[Interface]'' = ''[Interface]''" "stripComment ''[Peer]'' = ''[Peer]''" "stripComment [] = []"
    by (simp_all add: stripComment_eq trimmed_def isSpace_def)
  moreover have "toLower (trimmed (mid ''[Interface]'' 1 (int (length ''[Interface]'') - 2))) = ''interface''"
    "toLower (trimmed (mid ''[Peer]'' 1 (int (length ''[Peer]'') - 2))) = ''peer''"
    by code_simp+
  ultimately show "parse_line Q i ''[Interface]'' (sect, c) = Inr (''interface'', c)"
    "parse_line Q i ''[Peer]'' (sect, c) = Inr (''peer'', c)" "parse_line Q i [] (sect, c) = Inr (sect, c)"
    by (simp_all add: parse_line_def startsWithChar_def endsWithChar_def)
qed

lemma parse_lines_append:
  "parse_lines Q i (xs @ ys) st =
     (case parse_lines Q i xs st of Inl e \<Rightarrow> Inl e | Inr st' \<Rightarrow> parse_lines Q (i + int (length xs)) ys st')"
  by (induction xs arbitrary: i st) (auto split: sum.splits simp: algebra_simps)

lemma qsplit_lines:
  "\<forall>l\<in>set ls. CHR 0x0A \<notin> set l \<Longrightarrow> qsplit (CHR 0x0A) (concat (map (\<lambda>l. l @ nl) ls)) = ls @ [[]]"
  by (induction ls) (simp_all add: qsplit_append)

lemma joinWith_wg_value: "xs \<noteq> [] \<Longrightarrow> \<forall>x\<in>set xs. wg_item x \<Longrightarrow> wg_value (joinWith '', '' xs)"
proof (induction "'', ''" xs rule: joinWith.induct)
  case (3 x y ys)
  then have "wg_value (joinWith '', '' (y # ys))" "wg_item x" by auto
  then show ?case by (auto simp: wg_value_def wg_item_def)
qed (auto simp: wg_item_def)

text \<open>
  The endpoint is one the text form can carry: a host without colon and bracket, or an IPv6
  address, not both.
\<close>

definition plain_endpoint :: "qt_net \<Rightarrow> InterfaceConfig \<Rightarrow> bool" where
  "plain_endpoint Q c \<longleftrightarrow>
     (case m_serverIpv4AddrIn c of
        Some h \<Rightarrow> h \<noteq> [] \<and> CHR '':'' \<notin> set h \<and> hd h \<noteq> CHR ''['' \<and> \<not> isSpace (hd h) \<and>
                  protocol (qHostAddress Q h) \<noteq> IPv6Protocol \<and> m_serverIpv6AddrIn c = None
      | None \<Rightarrow> (case m_serverIpv6AddrIn c of Some h \<Rightarrow> CHR '']'' \<notin> set h | None \<Rightarrow> False))"

text \<open>Printed numbers and ranges read back as themselves.\<close>

definition prints_back :: "qt_net \<Rightarrow> InterfaceConfig \<Rightarrow> bool" where
  "prints_back Q c \<longleftrightarrow>
     qToInt Q (qNumber Q (m_serverPort c)) = Some (m_serverPort c) \<and>
     wg_item (qNumber Q (m_serverPort c)) \<and> CHR '':'' \<notin> set (qNumber Q (m_serverPort c)) \<and>
     (\<forall>ip\<in>set (m_allowedIPAddressRanges c).
        wg_item (ip_toString Q ip) \<and>
        qParseSubnet Q (ip_toString Q ip) = (m_address ip, m_prefixLength ip))"

lemma prints_back_range:
  assumes "parse_inv Q c" "prints_back Q c" "ip \<in> set (m_allowedIPAddressRanges c)"
  shows "isValidAddressWithPrefix Q (ip_toString Q ip) \<and> IPAddress_fromString Q (ip_toString Q ip) = Some ip"
proof -
  obtain s where "IPAddress_fromString Q s = Some ip" "isValidAddressWithPrefix Q s"
    using assms(1,3) by (auto simp: parse_inv_def)
  then have "protocol (m_address ip) \<noteq> UnknownNetworkLayerProtocol" "0 \<le> m_prefixLength ip"
      "protocol (m_address ip) = IPv4Protocol \<Longrightarrow> m_prefixLength ip \<le> 32"
      "protocol (m_address ip) = IPv6Protocol \<Longrightarrow> m_prefixLength ip \<le> 128"
    by (auto simp: IPAddress_fromString_def isValidAddressWithPrefix_def split: if_splits Protocol.splits prod.splits)
  moreover have "qParseSubnet Q (ip_toString Q ip) = (m_address ip, m_prefixLength ip)"
    using assms(2,3) by (simp add: prints_back_def)
  moreover have "CHR ''/'' \<in> set (ip_toString Q ip)" by (simp add: ip_toString_def)
  ultimately show ?thesis
    by (auto simp: isValidAddressWithPrefix_def IPAddress_fromString_def split: Protocol.splits)
qed

definition endpointText :: "qt_net \<Rightarrow> InterfaceConfig \<Rightarrow> string" where
  "endpointText Q c = (case m_serverIpv4AddrIn c of
       Some h \<Rightarrow> h @ '':'' @ qNumber Q (m_serverPort c)
     | None \<Rightarrow> ''['' @ qtext (m_serverIpv6AddrIn c) @ '']:'' @ qNumber Q (m_serverPort c))"

lemma splitEndpoint_host_port:
  assumes "h \<noteq> []" "CHR '':'' \<notin> set h" "hd h \<noteq> CHR ''[''" "CHR '':'' \<notin> set p" "p \<noteq> []"
  shows "splitEndpoint (h @ '':'' @ p) = Inr (h, p)"
proof -
  obtain a as where h: "h = a # as" using assms(1) by (cases h) auto
  have "lastIndexOf (h @ '':'' @ p) (CHR '':'') = int (length h)"
    using lastIndexOf_append_notin [OF assms(4), of h] by simp
  then show ?thesis
    using assms by (simp add: splitEndpoint_def startsWithChar_def h left_def midFrom_def nat_add_distrib)
qed

lemma splitEndpoint_bracket:
  assumes "CHR '']'' \<notin> set h"
  shows "splitEndpoint (''['' @ h @ '']:'' @ p) = Inr (h, p)"
proof -
  have "indexOf (''['' @ h @ '']:'' @ p) (CHR '']'') = int (length h) + 1"
    using indexOf_append_notin [of "CHR '']''" "''['' @ h" "'':'' @ p"] assms by simp
  then show ?thesis
    by (simp add: splitEndpoint_def startsWithChar_def mid_def midFrom_def nat_add_distrib numeral_3_eq_3)
qed

lemma parseEndpoint_printed:
  assumes "parse_inv Q c" "plain_endpoint Q c" "prints_back Q c" "m_serverPort c \<noteq> 0"
  shows "parseEndpoint Q (endpointText Q c) d =
    Inr (case m_serverIpv4AddrIn c of
           Some h \<Rightarrow> d\<lparr>m_serverIpv4AddrIn := Some h, m_serverPort := m_serverPort c\<rparr>
         | None \<Rightarrow> d\<lparr>m_serverIpv6AddrIn := m_serverIpv6AddrIn c, m_serverPort := m_serverPort c\<rparr>)"
    and "wg_value (endpointText Q c)"
proof -
  have num: "qNumber Q (m_serverPort c) \<noteq> []" "CHR '':'' \<notin> set (qNumber Q (m_serverPort c))"
    using assms(3) by (auto simp: prints_back_def wg_item_def wg_value_def)
  show "parseEndpoint Q (endpointText Q c) d =
    Inr (case m_serverIpv4AddrIn c of
           Some h \<Rightarrow> d\<lparr>m_serverIpv4AddrIn := Some h, m_serverPort := m_serverPort c\<rparr>
         | None \<Rightarrow> d\<lparr>m_serverIpv6AddrIn := m_serverIpv6AddrIn c, m_serverPort := m_serverPort c\<rparr>)"
    using assms num splitEndpoint_host_port [OF _ _ _ num(2,1)] splitEndpoint_bracket
    by (auto simp: endpointText_def parseEndpoint_def plain_endpoint_def prints_back_def parse_inv_def
        split: option.splits)
  show "wg_value (endpointText Q c)"
    using assms
    by (auto simp: endpointText_def plain_endpoint_def prints_back_def parse_inv_def wg_item_def wg_value_def
        isSpace_def [of "CHR ''[''"] split: option.splits)
qed

lemma appendAllowedIps_printed:
  "\<forall>ip\<in>set ips. isValidAddressWithPrefix Q (ip_toString Q ip) \<and> IPAddress_fromString Q (ip_toString Q ip) = Some ip \<Longrightarrow>
     appendAllowedIps Q (map (ip_toString Q) ips) d =
       Inr (d\<lparr>m_allowedIPAddressRanges := m_allowedIPAddressRanges d @ ips\<rparr>)"
  by (induction ips arbitrary: d) (simp_all add: appendAllowedIp_def)

lemma deviceAddresses_printed:
  assumes "parse_inv Q c" "m_deviceIpv4Address d = None" "m_deviceIpv6Address d = None"
  shows "appendAddresses Q (deviceAddresses c) d =
      Inr (d\<lparr>m_deviceIpv4Address := m_deviceIpv4Address c, m_deviceIpv6Address := m_deviceIpv6Address c\<rparr>)"
    and "\<forall>a\<in>set (deviceAddresses c). wg_item a"
  using assms
  by (cases "m_deviceIpv4Address c"; cases "m_deviceIpv6Address c";
      auto simp: deviceAddresses_def parse_inv_def valid_device_address_def appendAddress_def Let_def
        split: if_splits)+


definition confLines :: "qt_net \<Rightarrow> InterfaceConfig \<Rightarrow> string list" where
  "confLines Q c =
     [''[Interface]'', ''PrivateKey'' @ '' = '' @ qtext (m_privateKey c),
      ''Address'' @ '' = '' @ joinWith '', '' (deviceAddresses c)] @
     (case m_dnsServer c of None \<Rightarrow> [] | Some d \<Rightarrow> [''DNS'' @ '' = '' @ d]) @
     [[], ''[Peer]'', ''PublicKey'' @ '' = '' @ qtext (m_serverPublicKey c),
      ''Endpoint'' @ '' = '' @ endpointText Q c,
      ''AllowedIPs'' @ '' = '' @ joinWith '', '' (map (ip_toString Q) (m_allowedIPAddressRanges c))]"

lemma toWgConf_lines:
  assumes "parse_inv Q c" "plain_endpoint Q c" "deviceAddresses c \<noteq> []"
  shows "toWgConf Q c [] [] = concat (map (\<lambda>l. l @ nl) (confLines Q c))"
proof -
  have "\<not> qEq (Some d) None" if "m_dnsServer c = Some d" for d
    using assms(1) that by (auto simp: parse_inv_def wg_item_def wg_value_def qEq_def)
  then show ?thesis
    using assms
    by (auto simp: toWgConf_def confLines_def hasNewline_def parse_inv_def wg_item_def wg_value_def
        opt_all_def qtext_def peerCommentLines_def endpointLine_def allowedIPsLine_def endpointText_def
        plain_endpoint_def dnsLine_def split: option.splits)
qed


text \<open>
  Facts a complete configuration offers to the proof that its printed lines are read back.
\<close>

lemma complete_config:
  assumes "parse_inv Q c" "parse_required c = Inr c" "prints_back Q c"
  shows "\<exists>k. m_privateKey c = Some k \<and> wg_value k"
    and "\<exists>k. m_serverPublicKey c = Some k \<and> wg_value k"
    and "deviceAddresses c \<noteq> []" and "wg_value (joinWith '', '' (deviceAddresses c))"
    and "splitCsv (joinWith '', '' (deviceAddresses c)) = deviceAddresses c"
    and "wg_value (joinWith '', '' (map (ip_toString Q) (m_allowedIPAddressRanges c)))"
    and "splitCsv (joinWith '', '' (map (ip_toString Q) (m_allowedIPAddressRanges c))) =
         map (ip_toString Q) (m_allowedIPAddressRanges c)"
    and "m_serverPort c \<noteq> 0"
proof -
  have req: "\<not> qIsEmpty (m_privateKey c)" "\<not> qIsEmpty (m_serverPublicKey c)"
      "\<not> (qIsEmpty (m_deviceIpv4Address c) \<and> qIsEmpty (m_deviceIpv6Address c))"
      "m_serverPort c \<noteq> 0" "m_allowedIPAddressRanges c \<noteq> []"
    using assms(2) by (auto simp: parse_required_def split: if_splits)
  show "\<exists>k. m_privateKey c = Some k \<and> wg_value k" "\<exists>k. m_serverPublicKey c = Some k \<and> wg_value k"
    using assms(1) qIsEmpty_imp [OF req(1)] qIsEmpty_imp [OF req(2)] by (auto simp: parse_inv_def)
  show dev: "deviceAddresses c \<noteq> []"
    using req(3) by (cases "m_deviceIpv4Address c"; cases "m_deviceIpv6Address c") (auto simp: deviceAddresses_def)
  have items: "\<forall>a\<in>set (deviceAddresses c). wg_item a"
    using assms(1) by (cases "m_deviceIpv4Address c"; cases "m_deviceIpv6Address c")
      (auto simp: deviceAddresses_def parse_inv_def)
  have ranges: "\<forall>a\<in>set (map (ip_toString Q) (m_allowedIPAddressRanges c)). wg_item a"
    using assms(3) by (auto simp: prints_back_def)
  show "wg_value (joinWith '', '' (deviceAddresses c))"
    "wg_value (joinWith '', '' (map (ip_toString Q) (m_allowedIPAddressRanges c)))"
    using dev items ranges req(5) by (simp_all add: joinWith_wg_value)
  show "splitCsv (joinWith '', '' (deviceAddresses c)) = deviceAddresses c"
    "splitCsv (joinWith '', '' (map (ip_toString Q) (m_allowedIPAddressRanges c))) =
      map (ip_toString Q) (m_allowedIPAddressRanges c)"
    using items ranges by (simp_all add: splitCsv_join)
  show "m_serverPort c \<noteq> 0" by (rule req(4))
qed

lemma interface_lines:
  assumes "parse_inv Q c" "parse_required c = Inr c" "prints_back Q c"
    and "m_deviceIpv4Address d = None" "m_deviceIpv6Address d = None"
  shows "parse_lines Q i [''[Interface]'', ''PrivateKey'' @ '' = '' @ qtext (m_privateKey c),
      ''Address'' @ '' = '' @ joinWith '', '' (deviceAddresses c)] (sect, d) =
    Inr (''interface'', d\<lparr>m_privateKey := m_privateKey c, m_deviceIpv4Address := m_deviceIpv4Address c,
      m_deviceIpv6Address := m_deviceIpv6Address c\<rparr>)"
proof -
  note cc = complete_config [OF assms(1-3)]
  obtain k where k: "m_privateKey c = Some k" "wg_value k" using cc(1) by blast
  have dev: "appendAddresses Q (deviceAddresses c) (d\<lparr>m_privateKey := Some k\<rparr>) =
      Inr (d\<lparr>m_privateKey := Some k, m_deviceIpv4Address := m_deviceIpv4Address c,
        m_deviceIpv6Address := m_deviceIpv6Address c\<rparr>)"
    using deviceAddresses_printed(1) [OF assms(1), of "d\<lparr>m_privateKey := Some k\<rparr>"] assms(4,5) by simp
  have "parse_line Q j (''PrivateKey'' @ '' = '' @ k) (''interface'', d) = Inr (''interface'', d\<lparr>m_privateKey := Some k\<rparr>)" for j
    unfolding parse_key_line [OF wg_keys(1) k(2)] by (simp add: key_names parse_key_value_def)
  moreover have "parse_line Q j (''Address'' @ '' = '' @ joinWith '', '' (deviceAddresses c)) (''interface'', d\<lparr>m_privateKey := Some k\<rparr>) =
     Inr (''interface'', d\<lparr>m_privateKey := Some k, m_deviceIpv4Address := m_deviceIpv4Address c,
        m_deviceIpv6Address := m_deviceIpv6Address c\<rparr>)" for j
    unfolding parse_key_line [OF wg_keys(2) cc(4)] by (simp add: key_names parse_key_value_def cc(5) dev)
  ultimately show ?thesis by (simp add: k(1) parse_section_lines del: append.simps)
qed

lemma dns_lines:
  assumes "parse_inv Q c" "m_dnsServer d = None"
  shows "parse_lines Q i (case m_dnsServer c of None \<Rightarrow> [] | Some v \<Rightarrow> [''DNS'' @ '' = '' @ v]) (''interface'', d) =
    Inr (''interface'', d\<lparr>m_dnsServer := m_dnsServer c\<rparr>)"
proof (cases "m_dnsServer c")
  case None
  then show ?thesis using assms(2) by simp
next
  case (Some v)
  then have v: "wg_item v" "wg_value v" using assms(1) by (auto simp: parse_inv_def wg_item_def)
  then have "splitCsv v = [v]" using splitCsv_join [of "[v]"] by simp
  then have "parse_line Q j (''DNS'' @ '' = '' @ v) (''interface'', d) = Inr (''interface'', d\<lparr>m_dnsServer := Some v\<rparr>)" for j
    unfolding parse_key_line [OF wg_keys(3) v(2)] by (simp add: key_names parse_key_value_def)
  then show ?thesis by (simp add: Some del: append.simps)
qed

lemma peer_lines:
  assumes "parse_inv Q c" "parse_required c = Inr c" "prints_back Q c" "plain_endpoint Q c"
    and "m_serverIpv4AddrIn d = None" "m_serverIpv6AddrIn d = None" "m_allowedIPAddressRanges d = []"
  shows "parse_lines Q i [[], ''[Peer]'', ''PublicKey'' @ '' = '' @ qtext (m_serverPublicKey c),
      ''Endpoint'' @ '' = '' @ endpointText Q c,
      ''AllowedIPs'' @ '' = '' @ joinWith '', '' (map (ip_toString Q) (m_allowedIPAddressRanges c)), []] (sect, d) =
    Inr (''peer'', d\<lparr>m_serverPublicKey := m_serverPublicKey c, m_serverIpv4AddrIn := m_serverIpv4AddrIn c,
      m_serverIpv6AddrIn := m_serverIpv6AddrIn c, m_serverPort := m_serverPort c,
      m_allowedIPAddressRanges := m_allowedIPAddressRanges c\<rparr>)"
proof -
  note cc = complete_config [OF assms(1-3)]
  obtain k where k: "m_serverPublicKey c = Some k" "wg_value k" using cc(2) by blast
  let ?e = "d\<lparr>m_serverPublicKey := Some k, m_serverIpv4AddrIn := m_serverIpv4AddrIn c,
      m_serverIpv6AddrIn := m_serverIpv6AddrIn c, m_serverPort := m_serverPort c\<rparr>"
  note ep = parseEndpoint_printed [OF assms(1,4,3) cc(8)]
  have "parseEndpoint Q (endpointText Q c) (d\<lparr>m_serverPublicKey := Some k\<rparr>) = Inr ?e"
    unfolding ep(1) using assms(4-6) by (auto simp: plain_endpoint_def split: option.splits)
  then have e: "parse_line Q j (''Endpoint'' @ '' = '' @ endpointText Q c) (''peer'', d\<lparr>m_serverPublicKey := Some k\<rparr>) = Inr (''peer'', ?e)" for j
    unfolding parse_key_line [OF wg_keys(5) ep(2)] by (simp add: key_names parse_key_value_def)
  have p: "parse_line Q j (''PublicKey'' @ '' = '' @ k) (''peer'', d) = Inr (''peer'', d\<lparr>m_serverPublicKey := Some k\<rparr>)" for j
    unfolding parse_key_line [OF wg_keys(4) k(2)] by (simp add: key_names parse_key_value_def)
  have "appendAllowedIps Q (map (ip_toString Q) (m_allowedIPAddressRanges c)) ?e =
      Inr (?e\<lparr>m_allowedIPAddressRanges := m_allowedIPAddressRanges c\<rparr>)"
    using appendAllowedIps_printed [of "m_allowedIPAddressRanges c" Q ?e] prints_back_range [OF assms(1,3)] assms(7)
    by simp
  then have "parse_line Q j (''AllowedIPs'' @ '' = '' @ joinWith '', '' (map (ip_toString Q) (m_allowedIPAddressRanges c))) (''peer'', ?e) =
      Inr (''peer'', ?e\<lparr>m_allowedIPAddressRanges := m_allowedIPAddressRanges c\<rparr>)" for j
    unfolding parse_key_line [OF wg_keys(6) cc(6)] by (simp add: key_names parse_key_value_def cc(7))
  with e p show ?thesis by (simp add: k(1) parse_section_lines del: append.simps)
qed

lemma wg_value_single: "wg_value v \<Longrightarrow> CHR 0x0A \<notin> set v"
  by (simp add: wg_value_def)

lemma confLines_single:
  assumes "parse_inv Q c" "parse_required c = Inr c" "prints_back Q c" "plain_endpoint Q c"
  shows "\<forall>l\<in>set (confLines Q c). CHR 0x0A \<notin> set l"
proof -
  note cc = complete_config [OF assms(1-3)]
  have "opt_all wg_item (m_dnsServer c)" using assms(1) by (simp add: parse_inv_def)
  then have "\<forall>d. Some d = m_dnsServer c \<longrightarrow> CHR 0x0A \<notin> set d"
    by (auto simp: opt_all_def wg_item_def wg_value_def)
  then show ?thesis
    using cc(1,2) cc(4,6) [THEN wg_value_single] parseEndpoint_printed(2) [OF assms(1,4,3) cc(8), THEN wg_value_single]
    by (auto simp: confLines_def dest: wg_value_single split: option.splits)
qed

lemma parse_confLines:
  assumes "parse_inv Q c" "parse_required c = Inr c" "prints_back Q c" "plain_endpoint Q c"
  shows "parse_lines Q 0 (confLines Q c @ [[]]) ([], emptyConfig\<lparr>m_hopType := SingleHop\<rparr>) = Inr (''peer'', c)"
proof -
  let ?e = "emptyConfig\<lparr>m_hopType := SingleHop\<rparr>"
  let ?i = "?e\<lparr>m_privateKey := m_privateKey c, m_deviceIpv4Address := m_deviceIpv4Address c,
      m_deviceIpv6Address := m_deviceIpv6Address c\<rparr>"
  have "m_deviceIpv4Address ?e = None" "m_deviceIpv6Address ?e = None" "m_dnsServer ?i = None"
    by (simp_all add: emptyConfig_def)
  moreover have "m_serverIpv4AddrIn (?i\<lparr>m_dnsServer := m_dnsServer c\<rparr>) = None"
      "m_serverIpv6AddrIn (?i\<lparr>m_dnsServer := m_dnsServer c\<rparr>) = None"
      "m_allowedIPAddressRanges (?i\<lparr>m_dnsServer := m_dnsServer c\<rparr>) = []"
    by (simp_all add: emptyConfig_def)
  moreover have "?i\<lparr>m_dnsServer := m_dnsServer c, m_serverPublicKey := m_serverPublicKey c,
      m_serverIpv4AddrIn := m_serverIpv4AddrIn c, m_serverIpv6AddrIn := m_serverIpv6AddrIn c,
      m_serverPort := m_serverPort c, m_allowedIPAddressRanges := m_allowedIPAddressRanges c\<rparr> = c"
    using assms(1) by (simp add: parse_inv_def emptyConfig_def)
  ultimately have "parse_lines Q 0
      ([''[Interface]'', ''PrivateKey'' @ '' = '' @ qtext (m_privateKey c),
        ''Address'' @ '' = '' @ joinWith '', '' (deviceAddresses c)] @
       (case m_dnsServer c of None \<Rightarrow> [] | Some d \<Rightarrow> [''DNS'' @ '' = '' @ d]) @
       [[], ''[Peer]'', ''PublicKey'' @ '' = '' @ qtext (m_serverPublicKey c),
        ''Endpoint'' @ '' = '' @ endpointText Q c,
        ''AllowedIPs'' @ '' = '' @ joinWith '', '' (map (ip_toString Q) (m_allowedIPAddressRanges c)), []]) ([], ?e) =
      Inr (''peer'', c)"
    by (simp only: interface_lines [OF assms(1-3)] dns_lines [OF assms(1)] peer_lines [OF assms]
        parse_lines_append sum.case)
  then show ?thesis by (simp add: confLines_def del: parse_lines.simps)
qed

lemma wg_parse_toWgConf:
  assumes "parse_inv Q c" "parse_required c = Inr c" "prints_back Q c" "plain_endpoint Q c"
  shows "wg_parse Q (toWgConf Q c [] []) = Inr c"
proof -
  have "qsplit (CHR 0x0A) (toWgConf Q c [] []) = confLines Q c @ [[]]"
    unfolding toWgConf_lines [OF assms(1,4) complete_config(3) [OF assms(1-3)]]
    by (rule qsplit_lines [OF confLines_single [OF assms]])
  then show ?thesis using assms(2) parse_confLines [OF assms] by (simp add: wg_parse_def)
qed


subsection \<open>Comments\<close>

lemma trimmed_Nil: "trimmed [] = []"
  by (simp add: trimmed_def)

lemma stripComment_idem: "stripComment (stripComment l) = stripComment l"
proof (cases "stripComment l = []")
  case True
  then show ?thesis by (simp add: stripComment_eq trimmed_Nil)
next
  case False
  let ?p = "\<lambda>c. c \<noteq> CHR ''#'' \<and> c \<noteq> CHR '';''"
  have "set (stripComment l) \<subseteq> {c. ?p c}"
    using set_trimmed [of "takeWhile ?p l"] unfolding stripComment_eq by (fastforce dest: set_takeWhileD)
  moreover have "\<not> isSpace (hd (stripComment l))" "\<not> isSpace (last (stripComment l))"
    using trimmed_edges [of "takeWhile ?p l"] False by (simp_all add: stripComment_eq)
  ultimately show ?thesis using False by (intro stripComment_clean) auto
qed

lemma parse_line_strip: "parse_line Q i (stripComment l) st = parse_line Q i l st"
  by (simp add: parse_line_def stripComment_idem)

lemma parse_lines_strip: "parse_lines Q i (map stripComment ls) st = parse_lines Q i ls st"
  by (induction ls arbitrary: i st) (simp_all add: parse_line_strip split: sum.splits)

lemma qsplit_joinWith: "xs \<noteq> [] \<Longrightarrow> \<forall>x\<in>set xs. c \<notin> set x \<Longrightarrow> qsplit c (joinWith [c] xs) = xs"
  by (induction "[c]" xs rule: joinWith.induct) (auto simp: qsplit_notin qsplit_append)

subsection \<open>Properties\<close>

text \<open>A configuration and the part of Qt it needs, for the concrete instances below.\<close>

definition exampleNet :: qt_net where
  "exampleNet = \<lparr>
     qHostAddress = (\<lambda>s. if s = ''10.0.0.2'' then IPv4Address 0x0A000002
                         else if s = ''0.0.0.0'' then IPv4Address 0 else NullAddress),
     qParseSubnet = (\<lambda>s. if s = ''0.0.0.0/0'' then (IPv4Address 0, 0)
                         else if s = ''10.0.0.2/32'' then (IPv4Address 0x0A000002, 32) else (NullAddress, -1)),
     qAddrToString = (\<lambda>a. if a = IPv4Address 0 then ''0.0.0.0'' else ''10.0.0.2''),
     qIsLoopback = (\<lambda>a. False),
     qNumber = (\<lambda>n. if n = 0 then ''0'' else if n = 2 then ''2'' else ''51820''),
     qToInt = (\<lambda>s. if s = ''51820'' then Some 51820 else None)\<rparr>"

definition exampleText :: string where
  "exampleText = ''[Interface]'' @ nl @ ''PrivateKey = abc='' @ nl @ ''Address = 10.0.0.2/32  # laptop'' @ nl @
     ''[Peer]'' @ nl @ ''PublicKey = def='' @ nl @ ''AllowedIPs = 0.0.0.0/0'' @ nl @
     ''Endpoint = vpn.example.org:51820'' @ nl"

definition exampleConfig :: InterfaceConfig where
  "exampleConfig = emptyConfig\<lparr>m_privateKey := Some ''abc='', m_deviceIpv4Address := Some ''10.0.0.2/32'',
     m_serverPublicKey := Some ''def='', m_serverIpv4AddrIn := Some ''vpn.example.org'', m_serverPort := 51820,
     m_allowedIPAddressRanges := [ip4 0 0]\<rparr>"

lemma exampleNet_ok: "qt_net_ok exampleNet"
proof -
  have "canonical \<lparr>m_address = IPv4Address 0, m_prefixLength = 0\<rparr>"
    "canonical \<lparr>m_address = IPv4Address 0x0A000002, m_prefixLength = 32\<rparr>"
    by code_simp+
  then show ?thesis by (auto simp: qt_net_ok_def exampleNet_def)
qed

lemma exampleText_parses: "wg_parse exampleNet exampleText = Inr exampleConfig"
  by code_simp

lemma exampleConfig_plain: "plain_endpoint exampleNet exampleConfig"
  by code_simp

lemma exampleConfig_prints_back: "prints_back exampleNet exampleConfig"
  by code_simp


text \<open>
  C11. What a successful parse guarantees: the private key, a device address, the peer's public key
  and an endpoint are present and non-empty, the port is between 1 and 65535, the allowed ranges
  are not empty and each is a well-formed block with no host bits set, and the result is a
  single-hop configuration whose device addresses are of the family of their member.
\<close>

theorem wg_parse_sound:
  assumes "qt_net_ok Q" and "wg_parse Q content = Inr c"
  shows "m_hopType c = SingleHop \<and> \<not> qIsEmpty (m_privateKey c) \<and> \<not> qIsEmpty (m_serverPublicKey c) \<and>
    (\<not> qIsEmpty (m_deviceIpv4Address c) \<or> \<not> qIsEmpty (m_deviceIpv6Address c)) \<and>
    (\<not> qIsEmpty (m_serverIpv4AddrIn c) \<or> \<not> qIsEmpty (m_serverIpv6AddrIn c)) \<and>
    1 \<le> m_serverPort c \<and> m_serverPort c \<le> 65535 \<and>
    m_allowedIPAddressRanges c \<noteq> [] \<and> (\<forall>ip\<in>set (m_allowedIPAddressRanges c). canonical ip) \<and>
    (\<forall>v. m_deviceIpv4Address c = Some v \<longrightarrow> valid_device_address Q IPv4Protocol v) \<and>
    (\<forall>v. m_deviceIpv6Address c = Some v \<longrightarrow> valid_device_address Q IPv6Protocol v)"
proof -
  have inv: "parse_inv Q c" and req: "parse_required c = Inr c"
    using wg_parse_inv [OF assms(2)] by auto
  have "\<forall>ip\<in>set (m_allowedIPAddressRanges c). canonical ip"
    using inv IPAddress_fromString_canonical [OF assms(1)] by (auto simp: parse_inv_def)
  with inv req show ?thesis
    by (auto simp: parse_inv_def parse_required_def opt_all_def split: if_splits)
qed

theorem wg_parse_sound_witness:
  "1 \<le> m_serverPort exampleConfig \<and> m_serverPort exampleConfig \<le> 65535 \<and>
   canonical (hd (m_allowedIPAddressRanges exampleConfig))"
  using wg_parse_sound [OF exampleNet_ok exampleText_parses] hd_in_set by blast

text \<open>
  The parser never reaches the assertion in the constructor \<open>IPAddress(QString)\<close>: whatever the
  text is, the validation in front of it is strict enough.
\<close>

lemma wg_parse_never_asserts: "wg_parse Q content \<noteq> Inl AssertionFailed"
  using parse_lines_no_assert [of Q 0 "qsplit (CHR 0x0A) content"]
  by (auto simp: wg_parse_def parse_required_def split: sum.splits if_splits)

text \<open>
  C5. Printing and parsing agree: a configuration that came out of the parser, with an endpoint
  the text form can carry, is written by \<open>toWgConf\<close> as a text that parses to the same
  configuration.
\<close>

theorem wg_parse_toWgConf_roundtrip:
  assumes "wg_parse Q content = Inr c" and "plain_endpoint Q c" and "prints_back Q c"
  shows "wg_parse Q (toWgConf Q c [] []) = Inr c"
  using wg_parse_inv [OF assms(1)] wg_parse_toWgConf assms(2,3) by blast

theorem wg_parse_toWgConf_roundtrip_witness:
  "wg_parse exampleNet (toWgConf exampleNet exampleConfig [] []) = Inr exampleConfig"
  by (rule wg_parse_toWgConf_roundtrip [OF exampleText_parses exampleConfig_plain exampleConfig_prints_back])

text \<open>
  Comments and white space at the ends of lines do not matter: the parser's answer, errors and
  their line numbers included, is the one for the text with every line stripped.
\<close>

theorem wg_parse_ignores_comments:
  "wg_parse Q content = wg_parse Q (joinWith nl (map stripComment (qsplit (CHR 0x0A) content)))"
proof -
  have "CHR 0x0A \<notin> set (stripComment l)" if "l \<in> set (qsplit (CHR 0x0A) content)" for l
    using that qsplit_no_sep [OF that] set_trimmed [of "takeWhile (\<lambda>c. c \<noteq> CHR ''#'' \<and> c \<noteq> CHR '';'') l"]
    by (auto simp: stripComment_eq dest: set_takeWhileD)
  then have "qsplit (CHR 0x0A) (joinWith nl (map stripComment (qsplit (CHR 0x0A) content))) =
      map stripComment (qsplit (CHR 0x0A) content)"
    by (intro qsplit_joinWith) auto
  then show ?thesis by (simp add: wg_parse_def parse_lines_strip)
qed

text \<open>
  C37. The line number in the error message is the first offending line: when the lines before are
  accepted and this one, stripped, is neither empty nor a section header nor has a key before an
  equals sign, the parser fails with that line's number, counted from one.
\<close>

theorem wg_parse_reports_first_bad_line:
  assumes "qsplit (CHR 0x0A) content = pre @ bad # rest"
    and "parse_lines Q 0 pre ([], emptyConfig\<lparr>m_hopType := SingleHop\<rparr>) = Inr st"
    and "stripComment bad \<noteq> []"
    and "\<not> (startsWithChar (stripComment bad) (CHR ''['') \<and> endsWithChar (stripComment bad) (CHR '']''))"
    and "indexOf (stripComment bad) (CHR ''='') \<le> 0"
  shows "wg_parse Q content = Inl (ParseError (''Invalid WireGuard line '' @ qNumber Q (int (length pre) + 1)))"
  using assms by (auto simp: wg_parse_def parse_lines_append parse_line_def Let_def)

theorem wg_parse_reports_first_bad_line_witness:
  "wg_parse exampleNet (''[Peer]'' @ nl @ ''nonsense'' @ nl) = Inl (ParseError ''Invalid WireGuard line 2'')"
proof -
  have "stripComment ''nonsense'' = ''nonsense''" by code_simp
  moreover have "qsplit (CHR 0x0A) (''[Peer]'' @ nl @ ''nonsense'' @ nl) = [''[Peer]''] @ ''nonsense'' # [[]]" by code_simp
  ultimately have "wg_parse exampleNet (''[Peer]'' @ nl @ ''nonsense'' @ nl) =
      Inl (ParseError (''Invalid WireGuard line '' @ qNumber exampleNet (int (length [''[Peer]'']) + 1)))"
    by (intro wg_parse_reports_first_bad_line [where bad = "''nonsense''" and pre = "[''[Peer]'']" and rest = "[[]]" and
          st = "(''peer'', emptyConfig\<lparr>m_hopType := SingleHop\<rparr>)"])
      (simp_all add: parse_section_lines startsWithChar_def)
  then show ?thesis by (simp add: exampleNet_def)
qed

end
