(* ===== verification/Profile_Model.thy ===== *)
theory Profile_Model
  imports WireGuard_Config Settings_Holder
begin

text \<open>
  \<^verbatim>\<open>src/src/models/wireguardprofilemodel.cpp\<close> and \<^verbatim>\<open>wireguardprofilemodel.h\<close>: the list of
  imported WireGuard profiles, the selected one, and their storage in the settings.  The fresh
  identifier of a new profile (\<open>QUuid\<close>), the translation of messages, the contents of a file and
  the JSON text conversion are arguments.
\<close>

subsection \<open>State\<close>

record Profile =
  profile_id :: string
  profile_name :: string
  profile_configText :: string

datatype ModelRole = IdRole | ProfileIdRole | NameRole | ActiveRole | OtherRole

datatype profile_signal =
    RowsInserted nat
  | RowsRemoved nat
  | DataChanged nat ModelRole
  | ModelReset
  | ProfilesChanged
  | LastErrorChanged

record WireGuardProfileModel =
  m_profiles :: "Profile list"
  m_activeProfileId :: string
  m_lastError :: string
  p_signals :: "profile_signal list"

type_synonym profile_state = "WireGuardProfileModel \<times> SettingsState"

definition p_emit :: "profile_signal \<Rightarrow> WireGuardProfileModel \<Rightarrow> WireGuardProfileModel" where
  "p_emit s m = m\<lparr>p_signals := p_signals m @ [s]\<rparr>"

definition hasProfiles :: "WireGuardProfileModel \<Rightarrow> bool" where
  "hasProfiles m \<longleftrightarrow> m_profiles m \<noteq> []"

definition setLastError :: "string \<Rightarrow> WireGuardProfileModel \<Rightarrow> WireGuardProfileModel" where
  "setLastError error m =
     (if m_lastError m = error then m else p_emit LastErrorChanged (m\<lparr>m_lastError := error\<rparr>))"

fun profileIndexFrom :: "nat \<Rightarrow> Profile list \<Rightarrow> string \<Rightarrow> int" where
  "profileIndexFrom i [] pid = -1"
| "profileIndexFrom i (p # ps) pid = (if profile_id p = pid then int i else profileIndexFrom (Suc i) ps pid)"

definition profileIndex :: "WireGuardProfileModel \<Rightarrow> string \<Rightarrow> int" where
  "profileIndex m pid = profileIndexFrom 0 (m_profiles m) pid"

definition activeProfileName :: "WireGuardProfileModel \<Rightarrow> string" where
  "activeProfileName m =
     (let index = profileIndex m (m_activeProfileId m) in
      if index < 0 then [] else profile_name (m_profiles m ! nat index))"

subsection \<open>Settings\<close>

definition profileJson :: "Profile \<Rightarrow> json_object" where
  "profileJson p = jInsert ''config'' (JString (profile_configText p))
     (jInsert ''name'' (JString (profile_name p)) (jInsert ''id'' (JString (profile_id p)) []))"

definition profilesJson :: "Profile list \<Rightarrow> json_object" where
  "profilesJson ps = jInsert ''profiles'' (JArray (map (\<lambda>p. JObject (profileJson p)) ps)) []"

definition writeSettings :: "json_codec \<Rightarrow> WireGuardProfileModel \<Rightarrow> SettingsState \<Rightarrow> SettingsState" where
  "writeSettings C m st =
     Setting_set activeWireGuardProfileIdSetting (VString (m_activeProfileId m))
       (Setting_set wireGuardProfilesSetting (VBytes (jsonToText C (profilesJson (m_profiles m)))) st)"

definition profileOf :: "json \<Rightarrow> Profile" where
  "profileOf v = (let object = jToObject (Some v) in
     \<lparr>profile_id = qtext (jToString (jValue object ''id'')), profile_name = qtext (jToString (jValue object ''name'')),
      profile_configText = qtext (jToString (jValue object ''config''))\<rparr>)"

fun loadProfiles :: "qt_net \<Rightarrow> json list \<Rightarrow> Profile list \<Rightarrow> fault + Profile list" where
  "loadProfiles Q [] acc = Inr acc"
| "loadProfiles Q (v # vs) acc =
     (let profile = profileOf v in
      if profile_id profile \<noteq> [] \<and> profile_name profile \<noteq> [] \<and> profile_configText profile \<noteq> [] then
        (case wg_parse Q (profile_configText profile) of
           Inl AssertionFailed \<Rightarrow> Inl Assertion_failed
         | Inl (ParseError _) \<Rightarrow> loadProfiles Q vs acc
         | Inr _ \<Rightarrow> loadProfiles Q vs (acc @ [profile]))
      else loadProfiles Q vs acc)"

definition loadFromSettings ::
    "qt_net \<Rightarrow> json_codec \<Rightarrow> SettingsState \<Rightarrow> WireGuardProfileModel \<Rightarrow> fault + WireGuardProfileModel" where
  "loadFromSettings Q C st m =
     (let m = m\<lparr>m_profiles := [], m_activeProfileId := vToString (Setting_get activeWireGuardProfileIdSetting st)\<rparr>;
          data = vToByteArray (Setting_get wireGuardProfilesSetting st);
          document = jsonFromText C data
      in fbind (if jIsObject document
                then loadProfiles Q (jToArray (jValue (jToObject document) ''profiles'')) []
                else Inr []) (\<lambda>profiles.
         (let m = m\<lparr>m_profiles := profiles\<rparr>;
              m = (if profileIndex m (m_activeProfileId m) < 0
                   then m\<lparr>m_activeProfileId := (if profiles = [] then [] else profile_id (hd profiles))\<rparr> else m)
          in Inr (p_emit ModelReset m))))"

definition newProfileModel :: "qt_net \<Rightarrow> json_codec \<Rightarrow> SettingsState \<Rightarrow> fault + WireGuardProfileModel" where
  "newProfileModel Q C st =
     loadFromSettings Q C st \<lparr>m_profiles = [], m_activeProfileId = [], m_lastError = [], p_signals = []\<rparr>"

subsection \<open>Operations\<close>

text \<open>The common end of a change: store, clear the error, announce.\<close>

definition commit :: "json_codec \<Rightarrow> profile_state \<Rightarrow> profile_state" where
  "commit C s = (case s of (m, st) \<Rightarrow> (p_emit ProfilesChanged (setLastError [] m), writeSettings C m st))"

definition addProfile ::
    "qt_net \<Rightarrow> json_codec \<Rightarrow> (string \<Rightarrow> string) \<Rightarrow> string \<Rightarrow> string \<Rightarrow> string \<Rightarrow> profile_state \<Rightarrow> fault + bool \<times> profile_state" where
  "addProfile Q C tr uuid name configText s = (case s of (m, st) \<Rightarrow>
     (case wg_parse Q configText of
        Inl AssertionFailed \<Rightarrow> Inl Assertion_failed
      | Inl (ParseError msg) \<Rightarrow> Inr (False, setLastError msg m, st)
      | Inr _ \<Rightarrow>
          (let profile = \<lparr>profile_id = uuid,
                 profile_name = (if trimmed name = [] then tr ''WireGuard Profile'' else trimmed name),
                 profile_configText = configText\<rparr>;
               row = length (m_profiles m);
               m = p_emit (RowsInserted row) (m\<lparr>m_profiles := m_profiles m @ [profile]\<rparr>);
               m = (if m_activeProfileId m = [] then m\<lparr>m_activeProfileId := profile_id profile\<rparr> else m)
           in Inr (True, commit C (m, st)))))"

definition addProfileFromFile ::
    "qt_net \<Rightarrow> json_codec \<Rightarrow> (string \<Rightarrow> string) \<Rightarrow> string \<Rightarrow> string \<Rightarrow> bool \<Rightarrow> string option \<Rightarrow> string \<Rightarrow>
     profile_state \<Rightarrow> fault + bool \<times> profile_state" where
  "addProfileFromFile Q C tr uuid name isLocalFile contents completeBaseName s = (case s of (m, st) \<Rightarrow>
     (if \<not> isLocalFile then Inr (False, setLastError (tr ''WireGuard configuration file must be local.'') m, st)
      else case contents of
        None \<Rightarrow> Inr (False, setLastError (tr ''Unable to open WireGuard configuration file.'') m, st)
      | Some text \<Rightarrow>
          addProfile Q C tr uuid (if trimmed name = [] then completeBaseName else name) text (m, st)))"

definition notFound :: "(string \<Rightarrow> string) \<Rightarrow> profile_state \<Rightarrow> bool \<times> profile_state" where
  "notFound tr s = (case s of (m, st) \<Rightarrow> (False, setLastError (tr ''WireGuard profile not found.'') m, st))"

definition removeProfile :: "json_codec \<Rightarrow> (string \<Rightarrow> string) \<Rightarrow> string \<Rightarrow> profile_state \<Rightarrow> bool \<times> profile_state" where
  "removeProfile C tr pid s = (case s of (m, st) \<Rightarrow>
     (let index = profileIndex m pid in
      if index < 0 then notFound tr s
      else
        (let m = p_emit (RowsRemoved (nat index)) (m\<lparr>m_profiles := removeAt (nat index) (m_profiles m)\<rparr>);
             m = (if m_activeProfileId m = pid
                  then m\<lparr>m_activeProfileId := (if m_profiles m = [] then [] else profile_id (hd (m_profiles m)))\<rparr> else m)
         in (True, commit C (m, st)))))"

definition renameProfile :: "json_codec \<Rightarrow> (string \<Rightarrow> string) \<Rightarrow> string \<Rightarrow> string \<Rightarrow> profile_state \<Rightarrow> bool \<times> profile_state" where
  "renameProfile C tr pid name s = (case s of (m, st) \<Rightarrow>
     (let index = profileIndex m pid in
      if index < 0 then notFound tr s
      else if trimmed name = [] then (False, setLastError (tr ''WireGuard profile name cannot be empty.'') m, st)
      else
        (let m = m\<lparr>m_profiles := (m_profiles m)[nat index := (m_profiles m ! nat index)\<lparr>profile_name := trimmed name\<rparr>]\<rparr>;
             m = p_emit (DataChanged (nat index) NameRole) m
         in (True, commit C (m, st)))))"

definition selectProfile :: "json_codec \<Rightarrow> (string \<Rightarrow> string) \<Rightarrow> string \<Rightarrow> profile_state \<Rightarrow> bool \<times> profile_state" where
  "selectProfile C tr pid s = (case s of (m, st) \<Rightarrow>
     (let nextIndex = profileIndex m pid in
      if nextIndex < 0 then notFound tr s
      else
        (let previousIndex = profileIndex m (m_activeProfileId m);
             m = m\<lparr>m_activeProfileId := pid\<rparr>;
             m = (if previousIndex \<ge> 0 then p_emit (DataChanged (nat previousIndex) ActiveRole) m else m);
             m = p_emit (DataChanged (nat nextIndex) ActiveRole) m
         in (True, commit C (m, st)))))"

definition activeInterfaceConfig :: "qt_net \<Rightarrow> (string \<Rightarrow> string) \<Rightarrow> WireGuardProfileModel \<Rightarrow> parse_error + InterfaceConfig" where
  "activeInterfaceConfig Q tr m =
     (let index = profileIndex m (m_activeProfileId m) in
      if index < 0 then Inl (ParseError (tr ''No active WireGuard profile selected.''))
      else wg_parse Q (profile_configText (m_profiles m ! nat index)))"

definition rowCount :: "bool \<Rightarrow> WireGuardProfileModel \<Rightarrow> nat" where
  "rowCount parentValid m = (if parentValid then 0 else length (m_profiles m))"

definition profileData :: "WireGuardProfileModel \<Rightarrow> bool \<Rightarrow> int \<Rightarrow> ModelRole \<Rightarrow> QVariant" where
  "profileData m indexValid row role =
     (if \<not> indexValid \<or> row < 0 \<or> row \<ge> int (length (m_profiles m)) then Invalid
      else (let profile = m_profiles m ! nat row in
        case role of
          IdRole \<Rightarrow> VString (profile_id profile)
        | ProfileIdRole \<Rightarrow> VString (profile_id profile)
        | NameRole \<Rightarrow> VString (profile_name profile)
        | ActiveRole \<Rightarrow> VBool (profile_id profile = m_activeProfileId m)
        | OtherRole \<Rightarrow> Invalid))"

subsection \<open>The invariant\<close>

definition profile_ok :: "qt_net \<Rightarrow> Profile \<Rightarrow> bool" where
  "profile_ok Q p \<longleftrightarrow> profile_id p \<noteq> [] \<and> profile_name p \<noteq> [] \<and> (\<exists>c. wg_parse Q (profile_configText p) = Inr c)"

definition profiles_inv :: "qt_net \<Rightarrow> WireGuardProfileModel \<Rightarrow> bool" where
  "profiles_inv Q m \<longleftrightarrow>
     (\<forall>p\<in>set (m_profiles m). profile_ok Q p) \<and>
     (if m_profiles m = [] then m_activeProfileId m = [] else m_activeProfileId m \<in> profile_id ` set (m_profiles m))"

lemma profileIndexFrom_cases:
  "if pid \<in> profile_id ` set ps
   then \<exists>k<length ps. profileIndexFrom i ps pid = int (i + k) \<and> profile_id (ps ! k) = pid
   else profileIndexFrom i ps pid = -1"
proof (induction ps arbitrary: i)
  case (Cons p ps)
  show ?case
  proof (cases "profile_id p = pid")
    case True
    then show ?thesis by auto
  next
    case False
    have step: "\<exists>k'<length (p # ps). int (Suc i + k) = int (i + k') \<and> (p # ps) ! k' = ps ! k" if "k < length ps" for k
      using that by (intro exI [of _ "Suc k"]) simp
    show ?thesis using Cons.IH [of "Suc i"] step False by (auto split: if_splits)
  qed
qed simp

lemma profileIndex_found:
  assumes "pid \<in> profile_id ` set (m_profiles m)"
  obtains k where "profileIndex m pid = int k" "k < length (m_profiles m)" "profile_id (m_profiles m ! k) = pid"
  using profileIndexFrom_cases [of pid "m_profiles m" 0] assms by (auto simp: profileIndex_def)

lemma profileIndex_neg_iff: "profileIndex m pid < 0 \<longleftrightarrow> pid \<notin> profile_id ` set (m_profiles m)"
  using profileIndexFrom_cases [of pid "m_profiles m" 0] by (auto simp: profileIndex_def split: if_splits)

lemma wg_parse_no_assert: "wg_parse Q content \<noteq> Inl AssertionFailed"
  using parse_lines_no_assert [of Q 0 "qsplit (CHR 0x0A) content"]
  by (auto simp: wg_parse_def parse_required_def split: sum.splits if_splits)

lemma wg_parse_cases:
  obtains c where "wg_parse Q content = Inr c" | msg where "wg_parse Q content = Inl (ParseError msg)"
  using wg_parse_no_assert [of Q content] by (metis parse_error.exhaust sum.exhaust)

lemma wg_parse_Nil: "wg_parse Q [] = Inl (ParseError ''Interface PrivateKey is required'')"
  by (simp add: wg_parse_def parse_required_def parse_line_def stripComment_def trimmed_def emptyConfig_def Let_def)

lemma loadProfiles_ok:
  "\<forall>p\<in>set acc. profile_ok Q p \<Longrightarrow> \<exists>ps. loadProfiles Q vs acc = Inr ps \<and> (\<forall>p\<in>set ps. profile_ok Q p)"
proof (induction vs arbitrary: acc)
  case (Cons v vs)
  show ?case
    by (rule wg_parse_cases [of Q "profile_configText (profileOf v)"])
       (use Cons in \<open>auto simp: Let_def profile_ok_def\<close>)
qed simp

lemma loadFromSettings_inv: "\<exists>m'. loadFromSettings Q C st m = Inr m' \<and> profiles_inv Q m'"
proof -
  define data where "data = jsonFromText C (vToByteArray (Setting_get wireGuardProfilesSetting st))"
  obtain ps where ps: "(if jIsObject data then loadProfiles Q (jToArray (jValue (jToObject data) ''profiles'')) [] else Inr []) = Inr ps"
      "\<forall>p\<in>set ps. profile_ok Q p"
    using loadProfiles_ok [of "[]" Q "jToArray (jValue (jToObject data) ''profiles'')"]
    by (cases "jIsObject data") auto
  define m1 where "m1 = m\<lparr>m_activeProfileId := vToString (Setting_get activeWireGuardProfileIdSetting st), m_profiles := ps\<rparr>"
  define m2 where "m2 = (if profileIndex m1 (m_activeProfileId m1) < 0
     then m1\<lparr>m_activeProfileId := (if ps = [] then [] else profile_id (hd ps))\<rparr> else m1)"
  have "loadFromSettings Q C st m = Inr (p_emit ModelReset m2)"
    unfolding loadFromSettings_def Let_def data_def [symmetric] ps(1) by (simp add: m1_def m2_def profileIndex_def)
  moreover have "profiles_inv Q m2"
    using ps(2) by (auto simp: m2_def profiles_inv_def profileIndex_neg_iff m1_def)
  ultimately show ?thesis by (auto simp: p_emit_def profiles_inv_def)
qed

lemma inv_frame [simp]:
  "profiles_inv Q (p_emit x m) = profiles_inv Q m" "profiles_inv Q (setLastError e m) = profiles_inv Q m"
  "m_profiles (p_emit x m) = m_profiles m" "m_activeProfileId (p_emit x m) = m_activeProfileId m"
  "m_profiles (setLastError e m) = m_profiles m" "m_activeProfileId (setLastError e m) = m_activeProfileId m"
  by (simp_all add: profiles_inv_def p_emit_def setLastError_def)

lemma removeAt_other: "x \<in> set xs \<Longrightarrow> i < length xs \<Longrightarrow> x \<noteq> xs ! i \<Longrightarrow> x \<in> set (removeAt i xs)"
  by (subst (asm) id_take_nth_drop [of i xs]) (auto simp: removeAt_def)

lemma addProfile_inv:
  assumes "profiles_inv Q m" "uuid \<noteq> []" "tr ''WireGuard Profile'' \<noteq> []"
    and "addProfile Q C tr uuid name conf (m, st) = Inr (ok, m', st')"
  shows "profiles_inv Q m'"
  by (rule wg_parse_cases [of Q conf])
     (use assms in \<open>auto simp: addProfile_def commit_def Let_def profiles_inv_def profile_ok_def p_emit_def setLastError_def split: if_splits\<close>)

lemma removeProfile_inv:
  assumes inv: "profiles_inv Q m" and run: "removeProfile C tr pid (m, st) = (ok, m', st')"
  shows "profiles_inv Q m'"
proof (cases "pid \<in> profile_id ` set (m_profiles m)")
  case False
  then show ?thesis using run inv by (auto simp: removeProfile_def notFound_def profileIndex_neg_iff)
next
  case True
  then obtain k where k: "profileIndex m pid = int k" "k < length (m_profiles m)" "profile_id (m_profiles m ! k) = pid"
    by (rule profileIndex_found)
  define ps where "ps = removeAt k (m_profiles m)"
  have ok: "\<forall>p\<in>set ps. profile_ok Q p"
    using inv set_removeAt [of k "m_profiles m"] by (auto simp: profiles_inv_def ps_def)
  have kept: "m_activeProfileId m \<in> profile_id ` set ps" if "m_activeProfileId m \<noteq> pid"
  proof -
    have "m_profiles m \<noteq> []" using k(2) by auto
    then obtain p where p: "p \<in> set (m_profiles m)" "profile_id p = m_activeProfileId m"
      using inv by (force simp: profiles_inv_def)
    then have "p \<in> set ps" unfolding ps_def by (intro removeAt_other [OF _ k(2)]) (use k(3) that in auto)
    then show ?thesis using p(2) by (metis imageI)
  qed
  have "m_profiles m' = ps \<and> m_activeProfileId m' = (if m_activeProfileId m = pid then (if ps = [] then [] else profile_id (hd ps))
      else m_activeProfileId m)"
    using run k(1) by (auto simp: removeProfile_def commit_def ps_def Let_def)
  with ok kept show ?thesis by (auto simp: profiles_inv_def)
qed

lemma renameProfile_inv:
  assumes inv: "profiles_inv Q m" and run: "renameProfile C tr pid name (m, st) = (ok, m', st')"
  shows "profiles_inv Q m'"
proof (cases "pid \<in> profile_id ` set (m_profiles m) \<and> trimmed name \<noteq> []")
  case False
  then show ?thesis
    using run inv by (auto simp: renameProfile_def notFound_def profileIndex_neg_iff Let_def split: if_splits)
next
  case True
  then obtain k where k: "profileIndex m pid = int k" "k < length (m_profiles m)" "profile_id (m_profiles m ! k) = pid"
    using profileIndex_found [of pid m] by blast
  define p where "p = (m_profiles m ! k)\<lparr>profile_name := trimmed name\<rparr>"
  have m': "m_profiles m' = (m_profiles m)[k := p]" "m_activeProfileId m' = m_activeProfileId m"
    using run k(1) True by (auto simp: renameProfile_def commit_def p_def Let_def)
  have "profile_ok Q (m_profiles m ! k)" using inv k(2) by (simp add: profiles_inv_def)
  then have "profile_ok Q p" using True by (simp add: profile_ok_def p_def)
  then have "\<forall>q\<in>set (m_profiles m'). profile_ok Q q"
    using inv set_update_subset_insert [of "m_profiles m" k p] by (auto simp: m' profiles_inv_def)
  moreover have "map profile_id (m_profiles m') = map profile_id (m_profiles m)"
    using k(2) by (simp add: m' map_update p_def list_update_same_conv)
  then have "profile_id ` set (m_profiles m') = profile_id ` set (m_profiles m)" by (metis list.set_map)
  moreover have "m_profiles m \<noteq> []" "m_profiles m' \<noteq> []" using k(2) by (auto simp: m')
  ultimately show ?thesis using inv by (simp add: profiles_inv_def m'(2))
qed

lemma selectProfile_inv:
  assumes inv: "profiles_inv Q m" and run: "selectProfile C tr pid (m, st) = (ok, m', st')"
  shows "profiles_inv Q m'"
proof (cases "pid \<in> profile_id ` set (m_profiles m)")
  case False
  then show ?thesis using run inv by (auto simp: selectProfile_def notFound_def profileIndex_neg_iff)
next
  case True
  then have "m_profiles m' = m_profiles m" "m_activeProfileId m' = pid"
    using run profileIndex_neg_iff [of m pid] by (auto simp: selectProfile_def commit_def Let_def split: if_splits)
  then show ?thesis using inv True by (auto simp: profiles_inv_def)
qed

subsection \<open>The model as a system\<close>

inductive profile_op :: "qt_net \<Rightarrow> json_codec \<Rightarrow> (string \<Rightarrow> string) \<Rightarrow> profile_state \<Rightarrow> bool \<Rightarrow> profile_state \<Rightarrow> bool" for Q C tr where
  op_add: "uuid \<noteq> [] \<Longrightarrow> tr ''WireGuard Profile'' \<noteq> [] \<Longrightarrow> addProfile Q C tr uuid name conf s = Inr (ok, s') \<Longrightarrow> profile_op Q C tr s ok s'"
| op_file: "uuid \<noteq> [] \<Longrightarrow> tr ''WireGuard Profile'' \<noteq> [] \<Longrightarrow>
    addProfileFromFile Q C tr uuid name isLocal contents base s = Inr (ok, s') \<Longrightarrow> profile_op Q C tr s ok s'"
| op_remove: "removeProfile C tr pid s = (ok, s') \<Longrightarrow> profile_op Q C tr s ok s'"
| op_rename: "renameProfile C tr pid name s = (ok, s') \<Longrightarrow> profile_op Q C tr s ok s'"
| op_select: "selectProfile C tr pid s = (ok, s') \<Longrightarrow> profile_op Q C tr s ok s'"

definition profile_step :: "qt_net \<Rightarrow> json_codec \<Rightarrow> (string \<Rightarrow> string) \<Rightarrow> profile_state \<Rightarrow> profile_state \<Rightarrow> bool" where
  "profile_step Q C tr s s' \<longleftrightarrow> (\<exists>ok. profile_op Q C tr s ok s')"

definition profile_init :: "qt_net \<Rightarrow> json_codec \<Rightarrow> profile_state \<Rightarrow> bool" where
  "profile_init Q C s \<longleftrightarrow> newProfileModel Q C (snd s) = Inr (fst s)"

lemma addProfileFromFile_inv:
  assumes "profiles_inv Q m" "uuid \<noteq> []" "tr ''WireGuard Profile'' \<noteq> []"
    and "addProfileFromFile Q C tr uuid name isLocal contents base (m, st) = Inr (ok, m', st')"
  shows "profiles_inv Q m'"
  using assms addProfile_inv by (auto simp: addProfileFromFile_def split: if_splits option.splits)

lemma profile_op_inv:
  assumes "profile_op Q C tr s ok s'" "profiles_inv Q (fst s)"
  shows "profiles_inv Q (fst s')"
  using assms
  by (cases; cases s; cases s')
     (simp, blast intro: addProfile_inv addProfileFromFile_inv removeProfile_inv renameProfile_inv selectProfile_inv)+

interpretation profiles: invariant_system "profile_init Q C" "profile_step Q C tr" "\<lambda>s. profiles_inv Q (fst s)" for Q C tr
proof
  show "profiles_inv Q (fst s)" if "profile_init Q C s" for s
    using that loadFromSettings_inv [of Q C "snd s"] unfolding profile_init_def newProfileModel_def by (metis sum.inject(2))
  show "profiles_inv Q (fst s')" if "profiles_inv Q (fst s)" "profile_step Q C tr s s'" for s s'
    using that profile_op_inv unfolding profile_step_def by blast
qed

subsection \<open>Storage\<close>

text \<open>
  The text of the document reads back as one with the same profiles: an object whose member
  \<open>profiles\<close> is an array of objects with the same members in the same order.
\<close>

definition profiles_read_back :: "json_codec \<Rightarrow> Profile list \<Rightarrow> bool" where
  "profiles_read_back C ps \<longleftrightarrow>
     (case jsonFromText C (jsonToText C (profilesJson ps)) of
        Some (JObject ob) \<Rightarrow>
          list_all2 (\<lambda>v p. \<forall>k. jValue (jToObject (Some v)) k = jValue (profileJson p) k) (jToArray (jValue ob ''profiles'')) ps
      | _ \<Rightarrow> False)"

lemma profileOf_json:
  "\<forall>k. jValue (jToObject (Some v)) k = jValue (profileJson p) k \<Longrightarrow> profileOf v = p"
  by (simp add: profileOf_def profileJson_def Let_def)

lemma loadProfiles_read_back:
  "list_all2 (\<lambda>v p. \<forall>k. jValue (jToObject (Some v)) k = jValue (profileJson p) k) vs ps \<Longrightarrow>
     \<forall>p\<in>set ps. profile_ok Q p \<Longrightarrow> loadProfiles Q vs acc = Inr (acc @ ps)"
proof (induction vs ps arbitrary: acc rule: list_all2_induct)
  case (Cons v vs p ps)
  have "profileOf v = p" using Cons.hyps(1) by (rule profileOf_json)
  moreover have "profile_configText p \<noteq> []" using Cons.prems wg_parse_Nil [of Q] by (auto simp: profile_ok_def)
  ultimately show ?case using Cons.IH Cons.prems by (auto simp: profile_ok_def Let_def)
qed simp

lemma load_after_write:
  assumes inv: "profiles_inv Q m" and codec: "profiles_read_back C (m_profiles m)"
  shows "\<exists>m'. loadFromSettings Q C (writeSettings C m st) m0 = Inr m' \<and> m_profiles m' = m_profiles m \<and> m_activeProfileId m' = m_activeProfileId m"
proof -
  define st' where "st' = writeSettings C m st"
  have get: "Setting_get wireGuardProfilesSetting st' = VBytes (jsonToText C (profilesJson (m_profiles m)))"
    "Setting_get activeWireGuardProfileIdSetting st' = VString (m_activeProfileId m)"
    by (simp_all add: st'_def writeSettings_def)
  obtain ob where ob: "jsonFromText C (jsonToText C (profilesJson (m_profiles m))) = Some (JObject ob)"
      "list_all2 (\<lambda>v p. \<forall>k. jValue (jToObject (Some v)) k = jValue (profileJson p) k) (jToArray (jValue ob ''profiles'')) (m_profiles m)"
    using codec by (auto simp: profiles_read_back_def split: option.splits json.splits)
  have "loadProfiles Q (jToArray (jValue ob ''profiles'')) [] = Inr (m_profiles m)"
    using loadProfiles_read_back [OF ob(2)] inv by (simp add: profiles_inv_def)
  then show ?thesis
    unfolding st'_def [symmetric] loadFromSettings_def Let_def get
    using inv by (auto simp: ob(1) profileIndex_neg_iff profiles_inv_def)
qed

lemma commit_write: "commit C (m, st) = (m', st') \<Longrightarrow>
    st' = writeSettings C m' st \<and> m_profiles m' = m_profiles m \<and> m_activeProfileId m' = m_activeProfileId m"
  by (auto simp: commit_def writeSettings_def)

lemma addProfile_outcome:
  "addProfile Q C tr uuid name conf (m, st) = Inr (ok, m', st') \<Longrightarrow>
     if ok then st' = writeSettings C m' st
     else st' = st \<and> m_profiles m' = m_profiles m \<and> m_activeProfileId m' = m_activeProfileId m"
  by (rule wg_parse_cases [of Q conf]) (auto simp: addProfile_def Let_def dest: commit_write)

text \<open>A change that succeeds is stored; one that is refused changes nothing but the error message.\<close>

lemma profile_op_outcome:
  assumes "profile_op Q C tr (m, st) ok (m', st')"
  shows "if ok then st' = writeSettings C m' st
     else st' = st \<and> m_profiles m' = m_profiles m \<and> m_activeProfileId m' = m_activeProfileId m"
  using assms
proof cases
  case (op_add uuid name conf)
  then show ?thesis by (auto dest: addProfile_outcome)
next
  case (op_file uuid name isLocal contents base)
  then show ?thesis
    by (auto simp: addProfileFromFile_def dest: addProfile_outcome split: if_splits option.splits)
next
  case (op_remove pid)
  then show ?thesis by (auto simp: removeProfile_def notFound_def Let_def dest: commit_write split: if_splits)
next
  case (op_rename pid name)
  then show ?thesis by (auto simp: renameProfile_def notFound_def Let_def dest: commit_write split: if_splits)
next
  case (op_select pid)
  then show ?thesis by (auto simp: selectProfile_def notFound_def Let_def dest: commit_write split: if_splits)
qed

text \<open>With a profile there is an active one; it has a name and its text parses.\<close>

lemma active_config_exists:
  assumes "profiles_inv Q m" "hasProfiles m"
  shows "\<exists>p c. p \<in> set (m_profiles m) \<and> profile_id p = m_activeProfileId m \<and> activeProfileName m = profile_name p \<and>
    profile_name p \<noteq> [] \<and> wg_parse Q (profile_configText p) = Inr c \<and> activeInterfaceConfig Q tr m = Inr c"
proof -
  have "m_activeProfileId m \<in> profile_id ` set (m_profiles m)"
    using assms by (simp add: hasProfiles_def profiles_inv_def)
  then obtain k where k: "profileIndex m (m_activeProfileId m) = int k" "k < length (m_profiles m)"
      "profile_id (m_profiles m ! k) = m_activeProfileId m"
    by (rule profileIndex_found)
  then have "profile_ok Q (m_profiles m ! k)" using assms(1) by (simp add: profiles_inv_def)
  with k show ?thesis
    by (intro exI [of _ "m_profiles m ! k"]) (auto simp: profile_ok_def activeInterfaceConfig_def activeProfileName_def)
qed

subsection \<open>Properties\<close>

text \<open>
  C16. Selecting a usable profile cannot fail: in every reachable state with a profile, a profile is
  active, it has a name, and its configuration parses; without profiles there is no active one and
  asking for its configuration reports so.
\<close>

theorem active_profile_parses:
  assumes "reachable (profile_init Q C) (profile_step Q C tr) (m, st)"
  shows "if hasProfiles m
    then \<exists>c. activeInterfaceConfig Q tr m = Inr c \<and> activeProfileName m \<noteq> []
    else m_activeProfileId m = [] \<and> activeProfileName m = [] \<and>
         activeInterfaceConfig Q tr m = Inl (ParseError (tr ''No active WireGuard profile selected.''))"
proof -
  have inv: "profiles_inv Q m" using profiles.reachable_inv [OF assms] by simp
  show ?thesis
  proof (cases "hasProfiles m")
    case True
    then show ?thesis using active_config_exists [OF inv True, of tr] by auto
  next
    case False
    then show ?thesis
      using inv profileIndex_neg_iff [of m "m_activeProfileId m"]
      by (simp add: hasProfiles_def profiles_inv_def activeInterfaceConfig_def activeProfileName_def)
  qed
qed

text \<open>A model with one profile, and the text conversion it needs.\<close>

definition exampleProfile :: Profile where
  "exampleProfile = \<lparr>profile_id = ''u1'', profile_name = ''Home'', profile_configText = exampleText\<rparr>"

definition profileCodec :: json_codec where
  "profileCodec = \<lparr>jsonToText = (\<lambda>ob. ''doc''),
     jsonFromText = (\<lambda>t. if t = ''doc'' then Some (JObject (profilesJson [exampleProfile])) else None)\<rparr>"

definition oneProfile :: WireGuardProfileModel where
  "oneProfile = \<lparr>m_profiles = [exampleProfile], m_activeProfileId = ''u1'', m_lastError = [],
     p_signals = [ModelReset, RowsInserted 0, ProfilesChanged]\<rparr>"

definition noProfile :: WireGuardProfileModel where
  "noProfile = \<lparr>m_profiles = [], m_activeProfileId = [], m_lastError = [], p_signals = [ModelReset]\<rparr>"

lemma noProfile_init: "profile_init exampleNet profileCodec (noProfile, exampleSettings)"
  by (simp add: profile_init_def newProfileModel_def loadFromSettings_def noProfile_def profileCodec_def
        exampleSettings_def Setting_get_def getValue_def holderSetting_def vToByteArray_def vToString_def
        profileIndex_def p_emit_def jIsObject_def)

lemma oneProfile_added:
  "addProfile exampleNet profileCodec (\<lambda>t. t) ''u1'' '' Home '' exampleText (noProfile, exampleSettings) =
     Inr (True, oneProfile, writeSettings profileCodec oneProfile exampleSettings)"
  by (simp add: addProfile_def exampleText_parses noProfile_def oneProfile_def commit_def exampleProfile_def
        p_emit_def setLastError_def writeSettings_def trimmed_def isSpace_def Let_def)

lemma oneProfile_op:
  "profile_op exampleNet profileCodec (\<lambda>t. t) (noProfile, exampleSettings) True
     (oneProfile, writeSettings profileCodec oneProfile exampleSettings)"
  by (rule op_add [OF _ _ oneProfile_added]) simp_all

lemma noProfile_reachable:
  "reachable (profile_init exampleNet profileCodec) (profile_step exampleNet profileCodec (\<lambda>t. t)) (noProfile, exampleSettings)"
  by (rule reach_init) (rule noProfile_init)

lemma oneProfile_reachable:
  "reachable (profile_init exampleNet profileCodec) (profile_step exampleNet profileCodec (\<lambda>t. t))
     (oneProfile, writeSettings profileCodec oneProfile exampleSettings)"
  by (rule reach_step [OF noProfile_reachable]) (use oneProfile_op in \<open>auto simp: profile_step_def\<close>)

theorem active_profile_parses_witness:
  "\<exists>c. activeInterfaceConfig exampleNet (\<lambda>t. t) oneProfile = Inr c"
  using active_profile_parses [OF oneProfile_reachable] by (auto simp: hasProfiles_def oneProfile_def)

text \<open>
  C17. Profiles survive a restart: after every change that succeeds, a model constructed from the
  settings has the same profiles in the same order and the same active profile.  A change that is
  refused leaves the profiles, the selection and the settings as they were.
\<close>

theorem profiles_survive_restart:
  assumes "reachable (profile_init Q C) (profile_step Q C tr) (m, st)"
    and "profile_op Q C tr (m, st) ok (m', st')"
    and "profiles_read_back C (m_profiles m')"
  shows "if ok
    then \<exists>m''. newProfileModel Q C st' = Inr m'' \<and> m_profiles m'' = m_profiles m' \<and> m_activeProfileId m'' = m_activeProfileId m'
    else st' = st \<and> m_profiles m' = m_profiles m \<and> m_activeProfileId m' = m_activeProfileId m"
proof -
  have "profiles_inv Q m" using profiles.reachable_inv [OF assms(1)] by simp
  then have "profiles_inv Q m'" using profile_op_inv [OF assms(2)] by simp
  then show ?thesis
    using profile_op_outcome [OF assms(2)] load_after_write [OF _ assms(3)]
    by (auto simp: newProfileModel_def)
qed

theorem profiles_survive_restart_witness:
  "\<exists>m''. newProfileModel exampleNet profileCodec (writeSettings profileCodec oneProfile exampleSettings) = Inr m'' \<and>
     m_profiles m'' = [exampleProfile]"
proof -
  have "profiles_read_back profileCodec (m_profiles oneProfile)"
    by (simp add: profiles_read_back_def profileCodec_def oneProfile_def profilesJson_def)
  from profiles_survive_restart [OF noProfile_reachable oneProfile_op this] show ?thesis
    by (auto simp: oneProfile_def)
qed

text \<open>
  Adding and removing are inverse: a profile added under a new identifier to a list that has one,
  and removed again, leaves the list and the selection as they were; in between the new profile is
  the last one and the selection is unchanged.
\<close>

lemma add_then_remove:
  assumes "profiles_inv Q m" "hasProfiles m" "uuid \<notin> profile_id ` set (m_profiles m)"
    and "addProfile Q C tr uuid name conf (m, st) = Inr (True, m1, st1)"
  shows "butlast (m_profiles m1) = m_profiles m \<and> profile_id (last (m_profiles m1)) = uuid \<and>
    m_activeProfileId m1 = m_activeProfileId m \<and>
    (\<exists>m2 st2. removeProfile C tr uuid (m1, st1) = (True, m2, st2) \<and> m_profiles m2 = m_profiles m \<and>
       m_activeProfileId m2 = m_activeProfileId m)"
proof -
  define p where "p = \<lparr>profile_id = uuid, profile_name = (if trimmed name = [] then tr ''WireGuard Profile'' else trimmed name),
     profile_configText = conf\<rparr>"
  have act: "m_activeProfileId m \<in> profile_id ` set (m_profiles m)"
    using assms(1,2) by (simp add: profiles_inv_def hasProfiles_def)
  then have ne: "m_activeProfileId m \<noteq> []" "m_activeProfileId m \<noteq> uuid"
    using assms(1,3) by (auto simp: profiles_inv_def profile_ok_def)
  have m1: "m_profiles m1 = m_profiles m @ [p]" "m_activeProfileId m1 = m_activeProfileId m"
    by (rule wg_parse_cases [of Q conf]; use assms(4) ne(1) in \<open>auto simp: addProfile_def commit_def Let_def p_def\<close>)+
  have idx: "profileIndexFrom i (ps @ [p]) uuid = int (i + length ps)" if "uuid \<notin> profile_id ` set ps" for i ps
    using that by (induction ps arbitrary: i) (auto simp: p_def)
  have "profileIndex m1 uuid = int (length (m_profiles m))"
    by (simp add: profileIndex_def m1 idx [OF assms(3)])
  then have "\<exists>m2 st2. removeProfile C tr uuid (m1, st1) = (True, m2, st2) \<and> m_profiles m2 = m_profiles m \<and>
       m_activeProfileId m2 = m_activeProfileId m"
    using ne by (simp add: removeProfile_def Let_def commit_def m1 removeAt_def p_emit_def setLastError_def)
  then show ?thesis by (simp add: m1 p_def)
qed

end
