(* ===== verification/Task_Scheduler.thy ===== *)
theory Task_Scheduler
  imports WG_Prelude "HOL-Library.Multiset"
begin

text \<open>
  \<^verbatim>\<open>src/src/utils/task.h\<close>, \<^verbatim>\<open>taskscheduler.cpp\<close> and \<^verbatim>\<open>taskgroup.cpp\<close>: the queue of the
  client's asynchronous tasks and the groups of tasks that run together.

  A task is any value; what its virtual \<open>deletePolicy\<close> answers is an argument of the operations that
  ask for it.  In \<open>maybeRunTask\<close> the call of \<open>run\<close> is the last thing that happens, also in all
  callers, so that whatever a task does inside \<open>run\<close> (schedule another task, complete at once,
  delete tasks) is the next step of the transition system and needs no case of its own.
\<close>

subsection \<open>The scheduler\<close>

datatype DeletePolicy = Deletable | NonDeletable | Reschedulable

datatype 't task_event =
    Scheduled 't
  | Started 't
  | StartedNow 't
  | Completed 't
  | Cancelled 't
  | Deleted 't
  | Postponed 't

record 't TaskScheduler =
  m_running_task :: "'t option"
  m_tasks :: "'t list"
  m_paused :: int
  m_singleShots :: "'t list"
  m_events :: "'t task_event list"

definition newTaskScheduler :: "'t TaskScheduler" where
  "newTaskScheduler = \<lparr>m_running_task = None, m_tasks = [], m_paused = 0, m_singleShots = [], m_events = []\<rparr>"

definition note_event :: "'t task_event \<Rightarrow> 't TaskScheduler \<Rightarrow> 't TaskScheduler" where
  "note_event e s = s\<lparr>m_events := m_events s @ [e]\<rparr>"

definition maybeRunTask :: "'t TaskScheduler \<Rightarrow> 't TaskScheduler" where
  "maybeRunTask s =
     (if m_running_task s \<noteq> None then s
      else case m_tasks s of
        [] \<Rightarrow> s
      | t # ts \<Rightarrow>
          (if m_paused s > 0 then s
           else note_event (Started t) (s\<lparr>m_tasks := ts, m_running_task := Some t\<rparr>)))"

definition scheduleTask :: "'t \<Rightarrow> 't TaskScheduler \<Rightarrow> 't TaskScheduler" where
  "scheduleTask t s = maybeRunTask (note_event (Scheduled t) (s\<lparr>m_tasks := m_tasks s @ [t]\<rparr>))"

definition scheduleTaskNow :: "'t \<Rightarrow> 't TaskScheduler \<Rightarrow> 't TaskScheduler" where
  "scheduleTaskNow t s = note_event (StartedNow t) s"

definition pause :: "'t TaskScheduler \<Rightarrow> 't TaskScheduler" where
  "pause s = s\<lparr>m_paused := m_paused s + 1\<rparr>"

definition resume :: "'t TaskScheduler \<Rightarrow> 't TaskScheduler" where
  "resume s = maybeRunTask (s\<lparr>m_paused := m_paused s - 1\<rparr>)"

definition taskCompleted :: "'t TaskScheduler \<Rightarrow> fault + 't TaskScheduler" where
  "taskCompleted s =
     (case m_running_task s of
        None \<Rightarrow> Inl Assertion_failed
      | Some t \<Rightarrow> Inr (maybeRunTask (note_event (Completed t) (s\<lparr>m_running_task := None\<rparr>))))"

fun deleteQueued :: "bool \<Rightarrow> ('t \<Rightarrow> DeletePolicy) \<Rightarrow> 't list \<Rightarrow> 't TaskScheduler \<Rightarrow> 't TaskScheduler" where
  "deleteQueued forced policy [] s = s"
| "deleteQueued forced policy (t # ts) s =
     (if forced then deleteQueued forced policy ts (note_event (Deleted t) s)
      else case policy t of
        Deletable \<Rightarrow> deleteQueued forced policy ts (note_event (Deleted t) s)
      | NonDeletable \<Rightarrow> deleteQueued forced policy ts (s\<lparr>m_tasks := m_tasks s @ [t]\<rparr>)
      | Reschedulable \<Rightarrow>
          deleteQueued forced policy ts (note_event (Postponed t) (s\<lparr>m_singleShots := m_singleShots s @ [t]\<rparr>)))"

definition deleteRunning :: "bool \<Rightarrow> ('t \<Rightarrow> DeletePolicy) \<Rightarrow> 't TaskScheduler \<Rightarrow> 't TaskScheduler" where
  "deleteRunning forced policy s =
     (case m_running_task s of
        None \<Rightarrow> s
      | Some t \<Rightarrow> (if forced \<or> policy t = Deletable
                   then note_event (Cancelled t) (s\<lparr>m_running_task := None\<rparr>) else s))"

definition deleteTasksInternal :: "bool \<Rightarrow> ('t \<Rightarrow> DeletePolicy) \<Rightarrow> 't TaskScheduler \<Rightarrow> 't TaskScheduler" where
  "deleteTasksInternal forced policy s =
     maybeRunTask (deleteRunning forced policy (deleteQueued forced policy (m_tasks s) (s\<lparr>m_tasks := []\<rparr>)))"

definition deleteTasks :: "('t \<Rightarrow> DeletePolicy) \<Rightarrow> 't TaskScheduler \<Rightarrow> 't TaskScheduler" where
  "deleteTasks policy s = deleteTasksInternal False policy s"

definition forceDeleteTasks :: "('t \<Rightarrow> DeletePolicy) \<Rightarrow> 't TaskScheduler \<Rightarrow> 't TaskScheduler" where
  "forceDeleteTasks policy s = deleteTasksInternal True policy s"

text \<open>The expiry of the \<open>i\<close>-th pending zero-length timer, which schedules its task again.\<close>

definition fireSingleShot :: "nat \<Rightarrow> 't TaskScheduler \<Rightarrow> 't TaskScheduler" where
  "fireSingleShot i s =
     scheduleTask (m_singleShots s ! i) (s\<lparr>m_singleShots := take i (m_singleShots s) @ drop (Suc i) (m_singleShots s)\<rparr>)"

inductive sched_step :: "'t TaskScheduler \<Rightarrow> 't TaskScheduler \<Rightarrow> bool" where
  ss_schedule: "sched_step s (scheduleTask t s)"
| ss_now: "sched_step s (scheduleTaskNow t s)"
| ss_pause: "sched_step s (pause s)"
| ss_resume: "sched_step s (resume s)"
| ss_completed: "taskCompleted s = Inr s' \<Longrightarrow> sched_step s s'"
| ss_delete: "sched_step s (deleteTasks policy s)"
| ss_force: "sched_step s (forceDeleteTasks policy s)"
| ss_timer: "i < length (m_singleShots s) \<Longrightarrow> sched_step s (fireSingleShot i s)"

subsection \<open>What the log says\<close>

definition scheduledOf :: "'t task_event list \<Rightarrow> 't list" where
  "scheduledOf es = concat (map (\<lambda>e. case e of Scheduled t \<Rightarrow> [t] | _ \<Rightarrow> []) es)"

definition startedOf :: "'t task_event list \<Rightarrow> 't list" where
  "startedOf es = concat (map (\<lambda>e. case e of Started t \<Rightarrow> [t] | _ \<Rightarrow> []) es)"

text \<open>Tasks that left the scheduler: completed, cancelled while running, or taken out of the queue.\<close>

definition goneOf :: "'t task_event list \<Rightarrow> 't list" where
  "goneOf es = concat (map (\<lambda>e. case e of Completed t \<Rightarrow> [t] | Cancelled t \<Rightarrow> [t] | Deleted t \<Rightarrow> [t]
     | Postponed t \<Rightarrow> [t] | _ \<Rightarrow> []) es)"

named_theorems task_log "projections of the event log"

lemma logs_simps [task_log, simp]:
  "scheduledOf [] = []" "startedOf [] = []" "goneOf [] = []"
  "scheduledOf (es @ fs) = scheduledOf es @ scheduledOf fs"
  "startedOf (es @ fs) = startedOf es @ startedOf fs"
  "goneOf (es @ fs) = goneOf es @ goneOf fs"
  "scheduledOf [e] = (case e of Scheduled t \<Rightarrow> [t] | _ \<Rightarrow> [])"
  "startedOf [e] = (case e of Started t \<Rightarrow> [t] | _ \<Rightarrow> [])"
  "goneOf [e] = (case e of Completed t \<Rightarrow> [t] | Cancelled t \<Rightarrow> [t] | Deleted t \<Rightarrow> [t] | Postponed t \<Rightarrow> [t] | _ \<Rightarrow> [])"
  by (simp_all add: scheduledOf_def startedOf_def goneOf_def)

lemma note_event_simps [simp]:
  "m_running_task (note_event e s) = m_running_task s" "m_tasks (note_event e s) = m_tasks s"
  "m_paused (note_event e s) = m_paused s" "m_singleShots (note_event e s) = m_singleShots s"
  "m_events (note_event e s) = m_events s @ [e]"
  by (simp_all add: note_event_def)

text \<open>
  The books of the scheduler.  Every task handed over is in the queue, running, or recorded as gone,
  as often as it was scheduled; tasks are started in the order in which they were scheduled, and the
  queue continues that order.
\<close>

definition held :: "'t TaskScheduler \<Rightarrow> 't list" where
  "held s = m_tasks s @ (case m_running_task s of None \<Rightarrow> [] | Some t \<Rightarrow> [t])"

definition sched_books :: "'t TaskScheduler \<Rightarrow> bool" where
  "sched_books s \<longleftrightarrow> mset (scheduledOf (m_events s)) = mset (held s) + mset (goneOf (m_events s)) \<and>
     subseq (startedOf (m_events s) @ m_tasks s) (scheduledOf (m_events s))"

definition busy :: "'t TaskScheduler \<Rightarrow> bool" where
  "busy s \<longleftrightarrow> (m_tasks s \<noteq> [] \<and> m_paused s \<le> 0 \<longrightarrow> m_running_task s \<noteq> None)"

definition sched_inv :: "'t TaskScheduler \<Rightarrow> bool" where
  "sched_inv s \<longleftrightarrow> sched_books s \<and> busy s"

lemma maybeRunTask_busy: "busy (maybeRunTask s)"
  by (simp add: maybeRunTask_def busy_def split: list.split)

lemma maybeRunTask_books: "sched_books s \<Longrightarrow> sched_books (maybeRunTask s)"
  by (cases "m_tasks s") (simp_all add: maybeRunTask_def sched_books_def held_def)

lemma maybeRunTask_inv: "sched_books s \<Longrightarrow> sched_inv (maybeRunTask s)"
  by (simp add: sched_inv_def maybeRunTask_books maybeRunTask_busy)

lemma append_books:
  "sched_books s \<Longrightarrow> sched_books (note_event (Scheduled t) (s\<lparr>m_tasks := m_tasks s @ [t]\<rparr>))"
  by (auto simp: sched_books_def held_def list_emb_append_mono [of "(=)", of _ _ "[t]" "[t]"]
      simp flip: append_assoc)

lemma finish_books:
  assumes "sched_books s" "m_running_task s = Some t" "e = Completed t \<or> e = Cancelled t"
  shows "sched_books (note_event e (s\<lparr>m_running_task := None\<rparr>))"
  using assms by (auto simp: sched_books_def held_def)

text \<open>The loop over the queue: \<open>ts\<close> is still to be visited, \<open>m_tasks s\<close> holds what was kept.\<close>

definition loop_books :: "'t list \<Rightarrow> 't TaskScheduler \<Rightarrow> bool" where
  "loop_books ts s \<longleftrightarrow> sched_books (s\<lparr>m_tasks := m_tasks s @ ts\<rparr>)"

lemma subseq_drop_middle: "subseq (xs @ y # zs) ws \<Longrightarrow> subseq (xs @ zs) ws"
  by (rule subseq_order.trans [rotated]) (auto intro: list_emb_append_mono)

lemma loop_books_drop:
  assumes "loop_books (t # ts) s" "e = Deleted t \<or> e = Postponed t"
  shows "loop_books ts (note_event e s)"
proof -
  have "subseq (startedOf (m_events s) @ m_tasks s @ ts) (scheduledOf (m_events s))"
    using assms(1) subseq_drop_middle [of "startedOf (m_events s) @ m_tasks s" t ts]
    by (simp add: loop_books_def sched_books_def)
  then show ?thesis using assms by (auto simp: loop_books_def sched_books_def held_def)
qed

lemma deleteQueued_books: "loop_books ts s \<Longrightarrow> sched_books (deleteQueued forced policy ts s)"
proof (induction ts arbitrary: s)
  case Nil
  then show ?case by (simp add: loop_books_def)
next
  case (Cons t ts)
  have del: "loop_books ts (note_event (Deleted t) s)" using Cons.prems by (auto intro: loop_books_drop)
  have "loop_books ts (note_event (Postponed t) s)" using Cons.prems by (auto intro: loop_books_drop)
  then have post: "loop_books ts (note_event (Postponed t) (s\<lparr>m_singleShots := m_singleShots s @ [t]\<rparr>))"
    by (simp add: loop_books_def sched_books_def held_def)
  have keep: "loop_books ts (s\<lparr>m_tasks := m_tasks s @ [t]\<rparr>)" using Cons.prems by (simp add: loop_books_def)
  show ?case using Cons.IH [OF del] Cons.IH [OF post] Cons.IH [OF keep]
    by (cases forced; cases "policy t") simp_all
qed

lemma deleteRunning_books: "sched_books s \<Longrightarrow> sched_books (deleteRunning forced policy s)"
  by (auto simp: deleteRunning_def intro: finish_books split: option.split)

lemma deleteTasksInternal_inv: "sched_books s \<Longrightarrow> sched_inv (deleteTasksInternal forced policy s)"
  unfolding deleteTasksInternal_def
  by (intro maybeRunTask_inv deleteRunning_books deleteQueued_books) (simp add: loop_books_def)

lemma scheduleTask_inv: "sched_books s \<Longrightarrow> sched_inv (scheduleTask t s)"
  by (simp add: scheduleTask_def maybeRunTask_inv append_books)

lemma sched_step_inv:
  assumes "sched_inv s" "sched_step s s'"
  shows "sched_inv s'"
proof -
  have b: "sched_books s" using assms(1) by (simp add: sched_inv_def)
  have frame: "sched_books (s\<lparr>m_paused := p\<rparr>)" "sched_books (s\<lparr>m_singleShots := xs\<rparr>)" for p xs
    using b by (simp_all add: sched_books_def held_def)
  from assms(2) show ?thesis
  proof cases
    case (ss_now t)
    then show ?thesis using assms(1) by (simp add: scheduleTaskNow_def sched_inv_def sched_books_def busy_def held_def)
  next
    case ss_pause
    then show ?thesis using assms(1) frame(1) by (simp add: pause_def sched_inv_def busy_def)
  next
    case ss_resume
    then show ?thesis using frame(1) by (simp add: resume_def maybeRunTask_inv)
  next
    case ss_completed
    then show ?thesis using b by (auto simp: taskCompleted_def intro: maybeRunTask_inv finish_books split: option.splits)
  next
    case (ss_timer i)
    then show ?thesis using frame(2) by (simp add: fireSingleShot_def scheduleTask_inv)
  qed (simp_all add: b scheduleTask_inv deleteTasks_def forceDeleteTasks_def deleteTasksInternal_inv)
qed

interpretation sched: invariant_system "\<lambda>s. s = newTaskScheduler" sched_step sched_inv
proof unfold_locales
  show "sched_inv s" if "s = newTaskScheduler" for s :: "'a TaskScheduler"
    using that by (simp add: newTaskScheduler_def sched_inv_def sched_books_def busy_def held_def)
qed (rule sched_step_inv)

text \<open>
  C4. The scheduler is a fair queue.  In every reachable state, whatever was scheduled, deleted,
  paused, resumed and postponed before: at most one task runs; the tasks that were started, followed
  by the queue, are a subsequence of the tasks in the order they were scheduled (first in, first out);
  every scheduled task is in the queue, running or gone, counted with multiplicity, so none is
  lost or run twice; and a waiting task always has a running one before it unless the scheduler
  is paused.
\<close>

theorem scheduler_is_fair_queue:
  assumes "reachable (\<lambda>s. s = newTaskScheduler) sched_step s"
  shows "subseq (startedOf (m_events s) @ m_tasks s) (scheduledOf (m_events s)) \<and>
    mset (scheduledOf (m_events s)) =
      mset (m_tasks s) + mset (goneOf (m_events s)) + (case m_running_task s of None \<Rightarrow> {#} | Some t \<Rightarrow> {#t#}) \<and>
    (m_tasks s = [] \<or> m_paused s > 0 \<or> m_running_task s \<noteq> None)"
  using sched.reachable_inv [OF assms]
  by (auto simp: sched_inv_def sched_books_def held_def busy_def split: option.splits)

theorem scheduler_is_fair_queue_witness:
  "startedOf (m_events (scheduleTask (2::nat) (scheduleTask 1 newTaskScheduler))) = [1] \<and>
   subseq [1, 2] (scheduledOf (m_events (scheduleTask (2::nat) (scheduleTask 1 newTaskScheduler))))"
proof -
  have "reachable (\<lambda>s. s = newTaskScheduler) sched_step (scheduleTask (2::nat) (scheduleTask 1 newTaskScheduler))"
    by (rule reachable.intros(2), rule reachable.intros(2), rule reachable.intros(1)) (auto intro: ss_schedule)
  from scheduler_is_fair_queue [OF this] show ?thesis
    by (simp add: scheduleTask_def maybeRunTask_def newTaskScheduler_def scheduledOf_def startedOf_def)
qed

subsection \<open>Deleting tasks\<close>

lemma deleteQueued_effect:
  "m_tasks (deleteQueued forced policy ts s) =
     m_tasks s @ (if forced then [] else filter (\<lambda>t. policy t = NonDeletable) ts) \<and>
   m_singleShots (deleteQueued forced policy ts s) =
     m_singleShots s @ (if forced then [] else filter (\<lambda>t. policy t = Reschedulable) ts) \<and>
   m_running_task (deleteQueued forced policy ts s) = m_running_task s \<and>
   m_paused (deleteQueued forced policy ts s) = m_paused s"
proof (induction ts arbitrary: s)
  case (Cons t ts)
  then show ?case by (cases forced; cases "policy t") simp_all
qed simp

text \<open>The tasks in the order in which they run, the running one first.\<close>

definition order :: "'t TaskScheduler \<Rightarrow> 't list" where
  "order s = (case m_running_task s of None \<Rightarrow> [] | Some t \<Rightarrow> [t]) @ m_tasks s"

lemma order_maybeRunTask [simp]: "order (maybeRunTask s) = order s"
  by (simp add: order_def maybeRunTask_def split: list.split option.split)

lemma order_scheduleTask: "order (scheduleTask t s) = order s @ [t]"
  unfolding scheduleTask_def order_maybeRunTask by (simp add: order_def)

lemma order_deleteTasks:
  "order (deleteTasks policy s) =
     filter (\<lambda>t. policy t \<noteq> Deletable) (case m_running_task s of None \<Rightarrow> [] | Some t \<Rightarrow> [t]) @
     filter (\<lambda>t. policy t = NonDeletable) (m_tasks s)"
  unfolding deleteTasks_def deleteTasksInternal_def order_maybeRunTask
  using deleteQueued_effect [of False policy "m_tasks s" "s\<lparr>m_tasks := []\<rparr>"]
  by (simp add: order_def deleteRunning_def split: option.split)

text \<open>
  Deleting tasks respects the policies: of the queue exactly the non-deletable tasks stay, in
  order, and exactly the reschedulable ones are handed to timers; the running task goes only when it
  is deletable, and then the first task that stayed takes its place unless the scheduler is paused.
\<close>

lemma deleteTasks_exact:
  "let kept = filter (\<lambda>t. policy t = NonDeletable) (m_tasks s); s' = deleteTasks policy s;
       keepRunning = (case m_running_task s of None \<Rightarrow> False | Some t \<Rightarrow> policy t \<noteq> Deletable) in
   m_singleShots s' = m_singleShots s @ filter (\<lambda>t. policy t = Reschedulable) (m_tasks s) \<and>
   (if keepRunning then m_running_task s' = m_running_task s \<and> m_tasks s' = kept
    else if m_paused s > 0 \<or> kept = [] then m_running_task s' = None \<and> m_tasks s' = kept
    else m_running_task s' = Some (hd kept) \<and> m_tasks s' = tl kept)"
proof -
  define d where "d = deleteQueued False policy (m_tasks s) (s\<lparr>m_tasks := []\<rparr>)"
  have d: "m_tasks d = filter (\<lambda>t. policy t = NonDeletable) (m_tasks s)"
      "m_singleShots d = m_singleShots s @ filter (\<lambda>t. policy t = Reschedulable) (m_tasks s)"
      "m_running_task d = m_running_task s" "m_paused d = m_paused s"
    using deleteQueued_effect [of False policy "m_tasks s" "s\<lparr>m_tasks := []\<rparr>"] by (simp_all add: d_def)
  have s': "deleteTasks policy s = maybeRunTask (deleteRunning False policy d)"
    by (simp add: deleteTasks_def deleteTasksInternal_def d_def)
  show ?thesis
    unfolding s' Let_def maybeRunTask_def deleteRunning_def d(3) d(1) [symmetric] d(2) [symmetric] d(4) [symmetric]
    by (cases "m_running_task s"; cases "m_tasks d") (simp_all add: d(3))
qed

subsection \<open>Tasks that must not be deleted\<close>

text \<open>The steps of a client whose tasks have fixed policies and that does not force the deletion.\<close>

inductive client_step :: "('t \<Rightarrow> DeletePolicy) \<Rightarrow> 't TaskScheduler \<Rightarrow> 't TaskScheduler \<Rightarrow> bool" for policy where
  cs_schedule: "client_step policy s (scheduleTask t s)"
| cs_now: "client_step policy s (scheduleTaskNow t s)"
| cs_pause: "client_step policy s (pause s)"
| cs_resume: "client_step policy s (resume s)"
| cs_completed: "taskCompleted s = Inr s' \<Longrightarrow> client_step policy s s'"
| cs_delete: "client_step policy s (deleteTasks policy s)"
| cs_timer: "i < length (m_singleShots s) \<Longrightarrow> client_step policy s (fireSingleShot i s)"

definition completedOf :: "'t task_event list \<Rightarrow> 't list" where
  "completedOf es = concat (map (\<lambda>e. case e of Completed t \<Rightarrow> [t] | _ \<Rightarrow> []) es)"

lemma completedOf_simps [task_log, simp]:
  "completedOf [] = []" "completedOf (es @ fs) = completedOf es @ completedOf fs"
  "completedOf [e] = (case e of Completed t \<Rightarrow> [t] | _ \<Rightarrow> [])"
  by (simp_all add: completedOf_def)

definition accounted :: "'t \<Rightarrow> 't TaskScheduler \<Rightarrow> bool" where
  "accounted t s \<longleftrightarrow>
     count_list (scheduledOf (m_events s)) t = count_list (held s) t + count_list (completedOf (m_events s)) t"

lemma maybeRunTask_accounted: "accounted t (maybeRunTask s) \<longleftrightarrow> accounted t s"
  by (cases "m_tasks s") (simp_all add: maybeRunTask_def accounted_def held_def)

lemma scheduleTask_accounted: "accounted t s \<Longrightarrow> accounted t (scheduleTask u s)"
  unfolding scheduleTask_def maybeRunTask_accounted by (simp add: accounted_def held_def)

lemma deleteQueued_accounted:
  assumes "policy t = NonDeletable" "accounted t (s\<lparr>m_tasks := m_tasks s @ ts\<rparr>)"
  shows "accounted t (deleteQueued False policy ts s)"
  using assms(2)
proof (induction ts arbitrary: s)
  case Nil
  then show ?case by simp
next
  case (Cons u ts)
  show ?case
  proof (cases "policy u")
    case NonDeletable
    then show ?thesis using Cons by simp
  next
    case Deletable
    then have "u \<noteq> t" using assms(1) by auto
    then show ?thesis
      using Deletable Cons.prems Cons.IH [of "note_event (Deleted u) s"] by (simp add: accounted_def held_def)
  next
    case Reschedulable
    then have "u \<noteq> t" using assms(1) by auto
    then show ?thesis
      using Reschedulable Cons.prems
        Cons.IH [of "note_event (Postponed u) (s\<lparr>m_singleShots := m_singleShots s @ [u]\<rparr>)"]
      by (simp add: accounted_def held_def)
  qed
qed

lemma deleteTasks_accounted:
  assumes "policy t = NonDeletable" "accounted t s"
  shows "accounted t (deleteTasks policy s)"
proof -
  define d where "d = deleteQueued False policy (m_tasks s) (s\<lparr>m_tasks := []\<rparr>)"
  have d: "accounted t d"
    unfolding d_def by (rule deleteQueued_accounted) (use assms in simp_all)
  have "accounted t (deleteRunning False policy d)"
    using d assms(1) by (auto simp: deleteRunning_def accounted_def held_def split: option.splits)
  then show ?thesis by (simp add: deleteTasks_def deleteTasksInternal_def maybeRunTask_accounted d_def)
qed

lemma client_step_accounted:
  assumes "policy t = NonDeletable" "accounted t s" "client_step policy s s'"
  shows "accounted t s'"
  using assms(3)
proof cases
  case cs_completed
  then obtain u where "m_running_task s = Some u"
      "s' = maybeRunTask (note_event (Completed u) (s\<lparr>m_running_task := None\<rparr>))"
    by (auto simp: taskCompleted_def split: option.splits)
  then show ?thesis using assms(2) by (simp only: maybeRunTask_accounted) (simp add: accounted_def held_def)
next
  case (cs_now u)
  then show ?thesis using assms(2) by (simp add: scheduleTaskNow_def accounted_def held_def)
next
  case cs_pause
  then show ?thesis using assms(2) by (simp add: pause_def accounted_def held_def)
next
  case cs_resume
  then show ?thesis using assms(2) by (simp only: resume_def maybeRunTask_accounted) (simp add: accounted_def held_def)
next
  case (cs_timer i)
  have "accounted t (s\<lparr>m_singleShots := xs\<rparr>)" for xs using assms(2) by (simp add: accounted_def held_def)
  then show ?thesis using cs_timer by (simp add: fireSingleShot_def scheduleTask_accounted)
qed (simp_all add: assms scheduleTask_accounted deleteTasks_accounted)

text \<open>Every suffix of a run keeps the account, whatever state the scheduler was in before.\<close>

interpretation client_sched: invariant_system
    "\<lambda>s. s = newTaskScheduler" "client_step policy" "\<lambda>s. \<forall>t. policy t = NonDeletable \<longrightarrow> accounted t s" for policy
proof unfold_locales
  show "\<forall>t. policy t = NonDeletable \<longrightarrow> accounted t s" if "s = newTaskScheduler" for s :: "'a TaskScheduler"
    using that by (simp add: newTaskScheduler_def accounted_def held_def)
qed (blast intro: client_step_accounted)

text \<open>
  C18. A non-deletable task is never lost.  As long as the client does not force the deletion, after
  any sequence of calls (other deletions included) each such task was completed or is still held, in the
  queue or running, as often as it was scheduled.
\<close>

theorem nondeletable_tasks_never_lost:
  assumes "reachable (\<lambda>s. s = newTaskScheduler) (client_step policy) s" "policy t = NonDeletable"
  shows "count_list (scheduledOf (m_events s)) t = count_list (held s) t + count_list (completedOf (m_events s)) t"
  using client_sched.reachable_inv [OF assms(1)] assms(2) by (simp add: accounted_def)

theorem nondeletable_tasks_never_lost_witness:
  "count_list (held (deleteTasks (\<lambda>_. NonDeletable) (scheduleTask (7::nat) newTaskScheduler))) 7 = 1"
proof -
  let ?s = "deleteTasks (\<lambda>_. NonDeletable) (scheduleTask (7::nat) newTaskScheduler)"
  have "reachable (\<lambda>s. s = newTaskScheduler) (client_step (\<lambda>_. NonDeletable)) ?s"
    by (rule reachable.intros(2), rule reachable.intros(2), rule reachable.intros(1), rule refl, rule cs_schedule, rule cs_delete)
  from nondeletable_tasks_never_lost [OF this, of 7] show ?thesis
    by (simp add: deleteTasks_def deleteTasksInternal_def deleteRunning_def scheduleTask_def maybeRunTask_def
        newTaskScheduler_def held_def scheduledOf_def completedOf_def)
qed

subsection \<open>Task groups\<close>

record 't TaskGroup =
  g_tasks :: "'t list"
  g_emitted :: nat

fun groupPolicyLoop :: "('t \<Rightarrow> DeletePolicy) \<Rightarrow> 't list \<Rightarrow> nat \<Rightarrow> nat option" where
  "groupPolicyLoop policy [] reschedulable = Some reschedulable"
| "groupPolicyLoop policy (t # ts) reschedulable =
     (case policy t of
        NonDeletable \<Rightarrow> None
      | Reschedulable \<Rightarrow> groupPolicyLoop policy ts (Suc reschedulable)
      | Deletable \<Rightarrow> groupPolicyLoop policy ts reschedulable)"

definition group_deletePolicy :: "('t \<Rightarrow> DeletePolicy) \<Rightarrow> 't TaskGroup \<Rightarrow> DeletePolicy" where
  "group_deletePolicy policy g =
     (case groupPolicyLoop policy (g_tasks g) 0 of
        None \<Rightarrow> NonDeletable
      | Some reschedulable \<Rightarrow>
          (if reschedulable = length (g_tasks g) then Reschedulable
           else if reschedulable = 0 then Deletable else NonDeletable))"

definition maybeComplete :: "'t TaskGroup \<Rightarrow> 't TaskGroup" where
  "maybeComplete g = (if g_tasks g = [] then g\<lparr>g_emitted := Suc (g_emitted g)\<rparr> else g)"

definition subtaskCompleted :: "'t \<Rightarrow> 't TaskGroup \<Rightarrow> 't TaskGroup" where
  "subtaskCompleted t g = maybeComplete (g\<lparr>g_tasks := remove1 t (g_tasks g)\<rparr>)"

text \<open>
  \<open>run\<close> starts every subtask of the list it iterates over.  A subtask that completes inside its own
  \<open>run\<close> removes itself from that list during the iteration, which invalidates the iterator: the
  result is then \<open>None\<close>.
\<close>

definition taskGroup_run :: "('t \<Rightarrow> bool) \<Rightarrow> 't TaskGroup \<Rightarrow> ('t list \<times> 't TaskGroup) option" where
  "taskGroup_run completesInRun g =
     (if \<exists>t\<in>set (g_tasks g). completesInRun t then None else Some (g_tasks g, maybeComplete g))"

lemma groupPolicyLoop_eq:
  "groupPolicyLoop policy ts n =
     (if \<exists>t\<in>set ts. policy t = NonDeletable then None
      else Some (n + length (filter (\<lambda>t. policy t = Reschedulable) ts)))"
proof (induction ts arbitrary: n)
  case (Cons t ts)
  then show ?case by (cases "policy t") simp_all
qed simp

lemma length_filter_all: "length (filter P xs) = length xs \<longleftrightarrow> (\<forall>x\<in>set xs. P x)"
proof
  assume "length (filter P xs) = length xs"
  then show "\<forall>x\<in>set xs. P x" using length_filter_less [of _ xs P] by auto
qed simp

lemma group_deletePolicy_eq:
  "group_deletePolicy policy g =
     (if \<forall>t\<in>set (g_tasks g). policy t = Reschedulable then Reschedulable
      else if \<forall>t\<in>set (g_tasks g). policy t = Deletable then Deletable else NonDeletable)"
proof -
  define r where "r = filter (\<lambda>t. policy t = Reschedulable) (g_tasks g)"
  have all: "length r = length (g_tasks g) \<longleftrightarrow> (\<forall>t\<in>set (g_tasks g). policy t = Reschedulable)"
    unfolding r_def by (rule length_filter_all)
  have none: "length r = 0 \<longleftrightarrow> (\<forall>t\<in>set (g_tasks g). policy t \<noteq> Reschedulable)"
    unfolding r_def by (simp add: filter_empty_conv)
  show ?thesis
  proof (cases "\<exists>t\<in>set (g_tasks g). policy t = NonDeletable")
    case True
    then have "\<not> (\<forall>t\<in>set (g_tasks g). policy t = Reschedulable)" "\<not> (\<forall>t\<in>set (g_tasks g). policy t = Deletable)"
      by (metis DeletePolicy.distinct(5), metis DeletePolicy.distinct(1))
    with True show ?thesis by (simp only: group_deletePolicy_def groupPolicyLoop_eq if_True if_False option.case)
  next
    case False
    then have "(\<forall>t\<in>set (g_tasks g). policy t \<noteq> Reschedulable) \<longleftrightarrow> (\<forall>t\<in>set (g_tasks g). policy t = Deletable)"
      by (metis DeletePolicy.distinct(3) DeletePolicy.exhaust)
    with False show ?thesis
      by (simp add: group_deletePolicy_def groupPolicyLoop_eq r_def [symmetric] all [symmetric] none [symmetric]
          del: length_0_conv)
  qed
qed

lemma group_runs_down:
  assumes "mset done_order = mset ts" "ts \<noteq> []" "g_tasks g = ts"
  shows "g_tasks (fold subtaskCompleted done_order g) = [] \<and>
         g_emitted (fold subtaskCompleted done_order g) = Suc (g_emitted g)"
  using assms
proof (induction done_order arbitrary: ts g)
  case Nil
  then show ?case by simp
next
  case (Cons t done_order)
  define rest where "rest = remove1 t ts"
  have rest: "mset done_order = mset rest" using Cons.prems(1) by (metis add_mset_remove_trivial mset.simps(2) mset_remove1 rest_def)
  show ?case
  proof (cases "rest = []")
    case True
    then have "done_order = []" using rest by simp
    with True Cons.prems(3) show ?thesis by (simp add: subtaskCompleted_def maybeComplete_def rest_def)
  next
    case False
    have "g_tasks (subtaskCompleted t g) = rest" "g_emitted (subtaskCompleted t g) = g_emitted g"
      using False Cons.prems(3) by (simp_all add: subtaskCompleted_def maybeComplete_def rest_def)
    then show ?thesis using Cons.IH [OF rest False] by simp
  qed
qed

text \<open>
  C35. A task group completes exactly once: when every subtask finishes some time after its start, in
  whatever order they finish, the group starts all of them, and announces its completion once, with
  no subtask left; an empty group announces it as soon as it runs.  While it runs the group may be
  deleted only when each of its subtasks may: no subtask is non-deletable, and they are
  all or none reschedulable.
\<close>

theorem task_group_completes_once:
  assumes "mset done_order = mset ts" "\<forall>t\<in>set ts. \<not> completesInRun t"
  shows "\<exists>g. taskGroup_run completesInRun \<lparr>g_tasks = ts, g_emitted = 0\<rparr> = Some (ts, g) \<and>
      g_tasks (fold subtaskCompleted done_order g) = [] \<and> g_emitted (fold subtaskCompleted done_order g) = 1 \<and>
      (group_deletePolicy policy g = NonDeletable \<longleftrightarrow>
        (\<exists>t\<in>set ts. policy t = NonDeletable) \<or> (\<exists>t\<in>set ts. policy t = Reschedulable) \<and> (\<exists>t\<in>set ts. policy t = Deletable))"
proof -
  define g where "g = maybeComplete \<lparr>g_tasks = ts, g_emitted = 0\<rparr>"
  have run: "taskGroup_run completesInRun \<lparr>g_tasks = ts, g_emitted = 0\<rparr> = Some (ts, g)"
    using assms(2) by (simp add: taskGroup_run_def g_def)
  have tasks: "g_tasks g = ts" by (simp add: g_def maybeComplete_def)
  have fin: "g_tasks (fold subtaskCompleted done_order g) = [] \<and> g_emitted (fold subtaskCompleted done_order g) = 1"
  proof (cases "ts = []")
    case True
    with assms(1) show ?thesis by (simp add: g_def maybeComplete_def)
  next
    case False
    then have "g_emitted g = 0" by (simp add: g_def maybeComplete_def)
    then show ?thesis using group_runs_down [OF assms(1) False tasks] by simp
  qed
  have pol: "group_deletePolicy policy g = NonDeletable \<longleftrightarrow>
      (\<exists>t\<in>set ts. policy t = NonDeletable) \<or> (\<exists>t\<in>set ts. policy t = Reschedulable) \<and> (\<exists>t\<in>set ts. policy t = Deletable)"
    unfolding group_deletePolicy_eq tasks using DeletePolicy.exhaust by (auto; metis DeletePolicy.distinct)
  from run fin pol show ?thesis by blast
qed

theorem task_group_completes_once_witness:
  "\<exists>g. taskGroup_run (\<lambda>t. False) \<lparr>g_tasks = [1, 2], g_emitted = 0\<rparr> = Some ([1, 2], g) \<and>
     g_emitted (fold subtaskCompleted [2, 1::nat] g) = 1"
  using task_group_completes_once [of "[2, 1::nat]" "[1, 2]" "\<lambda>t. False" "\<lambda>t. Deletable"] by auto

end
