(* ===== verification/Controller_Action.thy ===== *)
theory Controller_Action
  imports VPN_Controller Profile_Model Task_Scheduler
begin

text \<open>
  \<^verbatim>\<open>src/src/tasks/controlleraction/taskcontrolleraction.cpp\<close>: the task through which the client
  drives the controller (activation, deactivation, server switching).  It blocks the scheduler until
  the controller reached the state asked for or stopped moving.  It also holds the callers that
  schedule it, \<^verbatim>\<open>activate\<close>, \<^verbatim>\<open>deactivate\<close> and \<^verbatim>\<open>silentSwitch\<close> of \<^verbatim>\<open>mozillavpn.cpp\<close>.

  The slot \<open>stateChanged\<close> runs inside the controller call that emits the signal; the action log of
  the controller keeps the emissions of one call in order, and the slot is run over them after the call.
\<close>

subsection \<open>State\<close>

datatype TaskAction =
    eActivate | eActivateForExtension | eDeactivate | eDeactivateForExtension
  | eSilentSwitch | eSwitch | eRegenerateKey

record TaskControllerAction =
  m_action :: TaskAction
  m_lastState :: State
  m_actionServerData :: ServerData
  m_timer :: bool
  m_serverCoolDownPolicy :: CoolDownPolicy
  a_completed :: nat

definition newTaskControllerAction :: "TaskAction \<Rightarrow> CoolDownPolicy \<Rightarrow> ServerData \<Rightarrow> TaskControllerAction" where
  "newTaskControllerAction action policy serverData =
     \<lparr>m_action = action, m_lastState = StateOff, m_actionServerData = serverData, m_timer = False,
      m_serverCoolDownPolicy = policy, a_completed = 0\<rparr>"

definition emit_completed :: "TaskControllerAction \<Rightarrow> TaskControllerAction" where
  "emit_completed a = a\<lparr>m_timer := False, a_completed := Suc (a_completed a)\<rparr>"

subsection \<open>Slots\<close>

definition action_reached :: "TaskAction \<Rightarrow> State \<Rightarrow> bool" where
  "action_reached action state \<longleftrightarrow>
     ((action = eActivate \<or> action = eSwitch) \<and> state = StateOn) \<or>
     (action = eActivateForExtension \<and> state = StateOnPartial) \<or>
     (action = eDeactivate \<and> state = StateOff)"

definition action_stateChanged :: "State \<Rightarrow> TaskControllerAction \<Rightarrow> TaskControllerAction" where
  "action_stateChanged state a =
     (if \<not> m_timer a then a
      else if action_reached (m_action a) state then emit_completed a else a)"

definition checkStatus :: "State \<Rightarrow> TaskControllerAction \<Rightarrow> TaskControllerAction" where
  "checkStatus state a = (if state = m_lastState a then emit_completed a else a\<lparr>m_lastState := state\<rparr>)"

text \<open>The states announced between two states of the controller.\<close>

definition announced_states :: "Controller \<Rightarrow> Controller \<Rightarrow> State list" where
  "announced_states c c' =
     concat (map (\<lambda>x. case x of StateChanged s \<Rightarrow> [s] | _ \<Rightarrow> []) (drop (length (m_actions c)) (m_actions c')))"

subsection \<open>Running\<close>

definition activateLocalProfile ::
    "ctl_env \<Rightarrow> (string \<Rightarrow> string) \<Rightarrow> WireGuardProfileModel \<Rightarrow> ActivationPrincipal \<Rightarrow> Controller \<Rightarrow>
     fault + bool \<times> Controller" where
  "activateLocalProfile E tr m initiator c =
     (case activeInterfaceConfig (e_net E) tr m of
        Inl AssertionFailed \<Rightarrow> Inl Assertion_failed
      | Inl (ParseError _) \<Rightarrow> Inr (False, c)
      | Inr config \<Rightarrow> Inr (activate_config E config initiator c))"

definition action_call ::
    "ctl_env \<Rightarrow> (string \<Rightarrow> string) \<Rightarrow> WireGuardProfileModel \<Rightarrow> TaskControllerAction \<Rightarrow> Controller \<Rightarrow>
     fault + bool \<times> Controller" where
  "action_call E tr m a c =
     (case m_action a of
        eActivate \<Rightarrow>
          (if hasProfiles m then activateLocalProfile E tr m ClientUser c
           else activate_server E (m_actionServerData a) ClientUser RandomizeServerSelection c)
      | eActivateForExtension \<Rightarrow>
          (if hasProfiles m then activateLocalProfile E tr m ExtensionUser c
           else activate_server E (m_actionServerData a) ExtensionUser RandomizeServerSelection c)
      | eDeactivate \<Rightarrow> deactivate ClientUser c
      | eDeactivateForExtension \<Rightarrow> deactivate ExtensionUser c
      | eSilentSwitch \<Rightarrow>
          (if hasProfiles m then Inr (False, c) else silentSwitchServers E (m_serverCoolDownPolicy a) c)
      | eSwitch \<Rightarrow>
          (if hasProfiles m then Inr (False, c) else switchServers E (m_actionServerData a) c)
      | eRegenerateKey \<Rightarrow> Inr (True, startKeyRegeneration c))"

definition action_run ::
    "ctl_env \<Rightarrow> (string \<Rightarrow> string) \<Rightarrow> WireGuardProfileModel \<Rightarrow> TaskControllerAction \<Rightarrow> Controller \<Rightarrow>
     fault + TaskControllerAction \<times> Controller" where
  "action_run E tr m a c =
     fbind (action_call (E\<lparr>e_hasProfiles := hasProfiles m\<rparr>) tr m a c) (\<lambda>(expectSignal, c').
       let a = fold action_stateChanged (announced_states c c') (a\<lparr>m_timer := True, m_lastState := m_state c\<rparr>) in
       if m_action a = eRegenerateKey then Inr (emit_completed a, c')
       else if \<not> expectSignal then Inr (checkStatus (m_state c') a, c')
       else Inr (a, c'))"

subsection \<open>Completion\<close>

text \<open>What happens to the task after \<open>run\<close>: signals of the controller and expiries of its own timer.\<close>

datatype action_event = Announced State | TimerExpired State

fun on_event :: "action_event \<Rightarrow> TaskControllerAction \<Rightarrow> TaskControllerAction" where
  "on_event (Announced s) a = action_stateChanged s a"
| "on_event (TimerExpired s) a = (if m_timer a then checkStatus s a else a)"

definition attended :: "TaskControllerAction \<Rightarrow> bool" where
  "attended a \<longleftrightarrow> 0 < a_completed a \<or> m_timer a"

named_theorems action_simps "the slots of a controller action"

lemma slots_simps [action_simps]:
  "m_action (emit_completed a) = m_action a" "a_completed (emit_completed a) = Suc (a_completed a)"
  "\<not> m_timer (emit_completed a)" "m_lastState (emit_completed a) = m_lastState a"
  by (simp_all add: emit_completed_def)

lemma stateChanged_simps [action_simps]:
  "m_action (action_stateChanged s a) = m_action a" "m_lastState (action_stateChanged s a) = m_lastState a"
  "attended a \<Longrightarrow> attended (action_stateChanged s a)" "a_completed a \<le> a_completed (action_stateChanged s a)"
  by (auto simp: action_stateChanged_def attended_def action_simps)

lemma checkStatus_simps [action_simps]:
  "m_action (checkStatus s a) = m_action a" "attended a \<Longrightarrow> attended (checkStatus s a)"
  "a_completed a \<le> a_completed (checkStatus s a)"
  by (auto simp: checkStatus_def attended_def action_simps)

lemma on_event_simps [action_simps]:
  "attended a \<Longrightarrow> attended (on_event e a)" "a_completed a \<le> a_completed (on_event e a)"
  by (cases e; simp add: action_simps)+

lemma announcements_keep:
  "m_action (fold action_stateChanged ss a) = m_action a \<and> m_lastState (fold action_stateChanged ss a) = m_lastState a \<and>
   (attended a \<longrightarrow> attended (fold action_stateChanged ss a)) \<and> a_completed a \<le> a_completed (fold action_stateChanged ss a)"
proof (induction ss arbitrary: a)
  case (Cons s ss)
  from Cons.IH [of "action_stateChanged s a"] show ?case
    by (auto simp: action_simps intro: order_trans [OF stateChanged_simps(4)])
qed simp

lemma events_keep:
  "(attended a \<longrightarrow> attended (fold on_event es a)) \<and> a_completed a \<le> a_completed (fold on_event es a)"
proof (induction es arbitrary: a)
  case (Cons e es)
  from Cons.IH [of "on_event e a"] show ?case using on_event_simps [of a e] by auto
qed simp

lemma action_run_returns:
  assumes "action_call (E\<lparr>e_hasProfiles := hasProfiles m\<rparr>) tr m a c = Inr (expect, c')"
  shows "\<exists>a'. action_run E tr m a c = Inr (a', c')"
  unfolding action_run_def using assms by (simp add: Let_def)

lemma run_attended:
  assumes "action_run E tr m a c = Inr (a', c')"
  shows "attended a'"
proof -
  obtain expect where call: "action_call (E\<lparr>e_hasProfiles := hasProfiles m\<rparr>) tr m a c = Inr (expect, c')"
    using fbind_InrD [OF assms [unfolded action_run_def]] by (auto simp: Let_def split: if_splits)
  define b where "b = fold action_stateChanged (announced_states c c') (a\<lparr>m_timer := True, m_lastState := m_state c\<rparr>)"
  have "attended b" unfolding b_def using announcements_keep by (simp add: attended_def)
  moreover have "attended (emit_completed b)" by (simp add: attended_def action_simps)
  moreover have "a' = emit_completed b \<or> a' = checkStatus (m_state c') b \<or> a' = b"
    using assms unfolding action_run_def call by (auto simp: Let_def b_def split: if_splits)
  ultimately show ?thesis by (auto simp: action_simps)
qed

lemma two_equal_checks_complete:
  assumes "attended a"
  shows "0 < a_completed (fold on_event (TimerExpired s # map Announced ss @ [TimerExpired s]) a)"
proof -
  define b where "b = on_event (TimerExpired s) a"
  have b: "attended b" "0 < a_completed b \<or> m_lastState b = s"
    using assms on_event_simps [of a "TimerExpired s"]
    by (auto simp: b_def checkStatus_def attended_def action_simps)
  define d where "d = fold action_stateChanged ss b"
  have d: "attended d" "0 < a_completed d \<or> m_lastState d = s"
    using b announcements_keep [of ss b] by (auto simp: d_def)
  have "fold on_event (map Announced ss) x = fold action_stateChanged ss x" for x
    by (induction ss arbitrary: x) simp_all
  then have "fold on_event (map Announced ss) b = d" by (simp add: d_def)
  moreover have "0 < a_completed (on_event (TimerExpired s) d)"
    using d on_event_simps(2) [of d "TimerExpired s"]
    by (auto simp: attended_def checkStatus_def action_simps)
  ultimately show ?thesis by (simp add: b_def)
qed

text \<open>
  C9. A controller action cannot block the scheduler for ever.  After \<open>run\<close>, whatever signals and
  timer expiries follow, the task has completed or its timer is still running; it completes at the
  latest when two successive expiries find the controller in the same state; and it completes at
  once when the state it waits for is announced.
\<close>

theorem controller_action_completes:
  assumes "action_run E tr m a c = Inr (a1, c1)"
  shows "(a_completed (fold on_event es a1) = 0 \<longrightarrow> m_timer (fold on_event es a1)) \<and>
    0 < a_completed (fold on_event (es @ TimerExpired s # map Announced ss @ [TimerExpired s]) a1) \<and>
    (action_reached (m_action (fold on_event es a1)) s \<longrightarrow> 0 < a_completed (fold on_event (es @ [Announced s]) a1))"
proof -
  have att: "attended (fold on_event es a1)" using run_attended [OF assms] events_keep by blast
  moreover have "0 < a_completed (action_stateChanged s b)" if "attended b" "action_reached (m_action b) s" for b
    using that by (auto simp: action_stateChanged_def attended_def action_simps)
  ultimately show ?thesis
    using two_equal_checks_complete [OF att, of s ss] by (auto simp: attended_def simp del: on_event.simps(2))
qed

theorem controller_action_completes_witness:
  "\<exists>a1 c1. action_run exampleEnv (\<lambda>t. t) noProfile (newTaskControllerAction eDeactivate ServerCoolDownNotNeeded emptyServerData)
      newController = Inr (a1, c1) \<and> 0 < a_completed (fold on_event [TimerExpired StateOff, TimerExpired StateOff] a1)"
proof -
  have "deactivate ClientUser newController = Inr (False, newController)"
    by (simp add: deactivate_def isActive_def newController_def less_State_def)
  then obtain a1 where run: "action_run exampleEnv (\<lambda>t. t) noProfile
      (newTaskControllerAction eDeactivate ServerCoolDownNotNeeded emptyServerData) newController = Inr (a1, newController)"
    by (simp add: action_run_def action_call_def newTaskControllerAction_def announced_states_def Let_def)
  from controller_action_completes [OF run, of "[]" StateOff "[]"] run show ?thesis by auto
qed

subsection \<open>Local profiles\<close>

lemma announced_refl [simp]: "announced_states c c = []"
  by (simp add: announced_states_def)

text \<open>With local profiles the switching actions leave the controller alone and complete at once.\<close>

lemma profiles_never_switch:
  assumes "hasProfiles m" "m_action a = eSilentSwitch \<or> m_action a = eSwitch"
  shows "\<exists>a'. action_run E tr m a c = Inr (a', c) \<and> a_completed a' = Suc (a_completed a) \<and> \<not> m_timer a'"
  using assms by (auto simp: action_run_def action_call_def checkStatus_def Let_def emit_completed_def)

text \<open>
  Activation uses the selected profile: whatever was imported, renamed, removed and selected
  before, when there is a profile and the controller accepts an activation with a backend on a
  device that is not found offline, running the activation task makes the controller submit
  exactly the configuration parsed from the text of the selected profile, and wait for its
  handshake; no server list is consulted.
\<close>

lemma activation_uses_selected_profile:
  assumes "reachable (profile_init (e_net E) C) (profile_step (e_net E) C tr) (m, st)" "hasProfiles m"
    and "activatable c" "m_impl c" "m_backendAvailable c" "\<not> (e_checkConnectivity E \<and> e_unreachable E)" "\<not> e_splitTunnelSupported E"
    and "m_action a = eActivate"
  shows "\<exists>p config a' c'. p \<in> set (m_profiles m) \<and> profile_id p = m_activeProfileId m \<and>
    wg_parse (e_net E) (profile_configText p) = Inr config \<and> action_run E tr m a c = Inr (a', c') \<and>
    ImplActivate config ReasonNone \<in> set (m_actions c') \<and> m_activationQueue c' = [config] \<and>
    m_state c' = StateConfirming \<and> m_handshakeTimer c' \<and> m_connectionRetry c' = 0"
proof -
  let ?E = "E\<lparr>e_hasProfiles := hasProfiles m\<rparr>"
  have "profiles_inv (e_net E) m" using profiles.reachable_inv [OF assms(1)] by simp
  from active_config_exists [OF this assms(2), of tr] obtain p config where p: "p \<in> set (m_profiles m)"
      "profile_id p = m_activeProfileId m" "wg_parse (e_net E) (profile_configText p) = Inr config"
      "activeInterfaceConfig (e_net E) tr m = Inr config"
    by blast
  obtain c' where c': "activate_config ?E config ClientUser c = (True, c')" "m_state c' = StateConfirming"
      "m_activationQueue c' = [config]" "m_handshakeTimer c'" "m_connectionRetry c' = 0"
      "ImplActivate config ReasonNone \<in> set (m_actions c')"
    using profile_activation [of ?E ClientUser c config] assms by auto
  have "action_call ?E tr m a c = Inr (True, c')"
    using assms(2,8) p(4) c'(1) by (simp add: action_call_def activateLocalProfile_def)
  then have "\<exists>a'. action_run E tr m a c = Inr (a', c')" by (rule action_run_returns)
  with p c' show ?thesis by blast
qed

subsection \<open>The requests of the client\<close>

datatype ClientTask =
    ActivateFunction
  | ControllerActionTask TaskAction CoolDownPolicy
  | OtherTask string DeletePolicy

fun taskPolicy :: "ClientTask \<Rightarrow> DeletePolicy" where
  "taskPolicy ActivateFunction = Deletable"
| "taskPolicy (ControllerActionTask _ _) = NonDeletable"
| "taskPolicy (OtherTask _ p) = p"

type_synonym client_scheduler = "ClientTask TaskScheduler"

definition vpn_activate :: "client_scheduler \<Rightarrow> client_scheduler" where
  "vpn_activate s = scheduleTask ActivateFunction (deleteTasks taskPolicy s)"

definition vpn_deactivate :: "client_scheduler \<Rightarrow> client_scheduler" where
  "vpn_deactivate s =
     scheduleTask (ControllerActionTask eDeactivate ServerCoolDownNotNeeded) (deleteTasks taskPolicy s)"

definition vpn_silentSwitch :: "client_scheduler \<Rightarrow> client_scheduler" where
  "vpn_silentSwitch s =
     scheduleTask (ControllerActionTask eSilentSwitch ServerCoolDownNeeded) (deleteTasks taskPolicy s)"

text \<open>
  The body of the function task that \<open>activate\<close> schedules, while it is the running task: it queues
  the action when the models are ready and completes.  The second component tells that the client
  reported an error and went back to its initial state.
\<close>

definition run_ActivateFunction :: "bool \<Rightarrow> client_scheduler \<Rightarrow> fault + client_scheduler \<times> bool" where
  "run_ActivateFunction modelsInitialized s =
     (if modelsInitialized
      then fbind (taskCompleted (scheduleTask (ControllerActionTask eActivate ServerCoolDownNotNeeded) s)) (\<lambda>s. Inr (s, False))
      else fbind (taskCompleted s) (\<lambda>s. Inr (s, True)))"


end
