(* ===== verification/Connection_Health.thy ===== *)
theory Connection_Health
  imports Ping_Window Controller_Action
begin

text \<open>
  \<^verbatim>\<open>src/src/connectionhealth.cpp\<close> and \<^verbatim>\<open>connectionhealth.h\<close>: the monitor that classifies the
  active connection from the pings of \<^verbatim>\<open>pinghelper.cpp\<close> and asks for a silent server switch when it
  is unstable.  The clock, the random initial sequence number and whether a DNS ping socket could be
  opened are arguments; timers are flags, and their expiries are steps.  \<open>applicationStateChanged\<close>
  does nothing in the desktop build.
\<close>

subsection \<open>State\<close>

datatype ConnectionStability = Stable | Unstable | NoSignal

datatype health_signal = StabilityChanged ConnectionStability | UnsettledChanged | PingAnswered

definition PING_TIME_UNSTABLE :: "64 word" where
  "PING_TIME_UNSTABLE = 1000"

definition PING_LOSS_UNSTABLE_THRESHOLD :: rat where
  "PING_LOSS_UNSTABLE_THRESHOLD = 1 / 10"

definition PING_BASELINE_EWMA_DIVISOR :: "64 word" where
  "PING_BASELINE_EWMA_DIVISOR = 8"

definition PING_WELL_KNOWN_ANYCAST_DNS :: string where
  "PING_WELL_KNOWN_ANYCAST_DNS = ''194.242.2.2''"

record ConnectionHealth =
  m_stability :: ConnectionStability
  m_stabilityOverwritten :: bool
  m_settlingTimer :: bool
  m_noSignalTimer :: bool
  m_healthCheckTimer :: bool
  m_pingHelper :: PingHelper
  m_dnsPingTimer :: bool
  m_dnsPingSequence :: "16 word"
  m_dnsPingTimestamp :: "64 word"
  m_dnsPingLatency :: "64 word"
  m_dnsPingInitialized :: bool
  m_currentGateway :: QHostAddress
  m_deviceAddress :: QHostAddress
  h_statusSlots :: nat
  h_dnsSent :: "(string \<times> 16 word) list"
  h_signals :: "health_signal list"

definition newConnectionHealth :: ConnectionHealth where
  "newConnectionHealth = \<lparr>m_stability = Stable, m_stabilityOverwritten = False, m_settlingTimer = False,
     m_noSignalTimer = False, m_healthCheckTimer = False, m_pingHelper = newPingHelper, m_dnsPingTimer = False,
     m_dnsPingSequence = 0, m_dnsPingTimestamp = 0, m_dnsPingLatency = PING_TIME_UNSTABLE, m_dnsPingInitialized = False,
     m_currentGateway = NullAddress, m_deviceAddress = NullAddress, h_statusSlots = 0, h_dnsSent = [], h_signals = []\<rparr>"

definition h_emit :: "health_signal \<Rightarrow> ConnectionHealth \<Rightarrow> ConnectionHealth" where
  "h_emit x h = h\<lparr>h_signals := h_signals h @ [x]\<rparr>"

subsection \<open>Starting and stopping\<close>

definition health_stop :: "ConnectionHealth \<Rightarrow> ConnectionHealth" where
  "health_stop h = h\<lparr>m_pingHelper := ping_stop (m_pingHelper h), m_noSignalTimer := False, m_healthCheckTimer := False,
     m_dnsPingTimer := False\<rparr>"

definition startActive ::
    "qt_net \<Rightarrow> bool \<Rightarrow> bool \<Rightarrow> State \<Rightarrow> ControllerStatus \<Rightarrow> ConnectionHealth \<Rightarrow> ConnectionHealth" where
  "startActive Q factoryValid dnsValid state status h =
     (if st_ipv4Gateway status = NullAddress \<or> (state \<noteq> StateOn \<and> state \<noteq> StateOnPartial) then h
      else
        let h = h\<lparr>m_currentGateway := st_ipv4Gateway status, m_deviceAddress := st_ipv4Address status\<rparr>;
            h = h\<lparr>m_pingHelper := ping_start Q factoryValid dnsValid (qAddrToString Q (m_currentGateway h))
                    (qAddrToString Q (m_deviceAddress h)) (m_pingHelper h)\<rparr>
        in h\<lparr>m_noSignalTimer := True, m_healthCheckTimer := True, m_dnsPingTimer := False\<rparr>)"

definition sendDnsPing :: "int \<Rightarrow> ConnectionHealth \<Rightarrow> ConnectionHealth" where
  "sendDnsPing now h = h\<lparr>m_dnsPingTimestamp := word_of_int now,
     h_dnsSent := h_dnsSent h @ [(PING_WELL_KNOWN_ANYCAST_DNS, m_dnsPingSequence h)]\<rparr>"

definition startIdle :: "bool \<Rightarrow> 16 word \<Rightarrow> int \<Rightarrow> ConnectionHealth \<Rightarrow> ConnectionHealth" where
  "startIdle dnsSenderValid randomSequence now h =
     (let h = h\<lparr>m_pingHelper := ping_stop (m_pingHelper h), m_noSignalTimer := False, m_healthCheckTimer := False,
                m_dnsPingSequence := randomSequence, m_dnsPingInitialized := False, m_dnsPingLatency := PING_TIME_UNSTABLE\<rparr>
      in if dnsSenderValid then sendDnsPing now (h\<lparr>m_dnsPingTimer := True\<rparr>) else h)"

definition dnsPingTimeout :: "int \<Rightarrow> ConnectionHealth \<Rightarrow> ConnectionHealth" where
  "dnsPingTimeout now h = sendDnsPing now (h\<lparr>m_dnsPingSequence := m_dnsPingSequence h + 1\<rparr>)"

definition dnsPingError :: "ConnectionHealth \<Rightarrow> ConnectionHealth" where
  "dnsPingError h = h\<lparr>m_dnsPingInitialized := False, m_dnsPingTimer := False\<rparr>"

subsection \<open>Stability\<close>

type_synonym monitored = "ConnectionHealth \<times> client_scheduler"

definition setStability :: "State \<Rightarrow> ConnectionStability \<Rightarrow> monitored \<Rightarrow> monitored" where
  "setStability state stability hs = (case hs of (h, s) \<Rightarrow>
     (if m_stabilityOverwritten h then (h, s)
      else
        let s = (if state \<noteq> StateOnPartial \<and> stability = Unstable then vpn_silentSwitch s else s) in
        if m_stability h = stability then (h, s)
        else (h_emit (StabilityChanged stability) (h\<lparr>m_stability := stability\<rparr>), s)))"

definition healthCheckup :: "int \<Rightarrow> State \<Rightarrow> monitored \<Rightarrow> monitored" where
  "healthCheckup now state hs = (case hs of (h, s) \<Rightarrow>
     (if \<not> m_noSignalTimer h then setStability state NoSignal hs
      else if ping_loss now (m_pingHelper h) > PING_LOSS_UNSTABLE_THRESHOLD then setStability state Unstable hs
      else if m_dnsPingInitialized h \<and>
              (ucast (ping_maximum (m_pingHelper h)) :: 64 word) > PING_TIME_UNSTABLE + m_dnsPingLatency h
      then setStability state Unstable hs
      else setStability state Stable hs))"

definition health_pingSentAndReceived :: "int \<Rightarrow> State \<Rightarrow> monitored \<Rightarrow> monitored" where
  "health_pingSentAndReceived now state hs = (case hs of (h, s) \<Rightarrow>
     (let (h, s) = healthCheckup now state (h\<lparr>m_noSignalTimer := True, m_healthCheckTimer := True\<rparr>, s)
      in (h_emit PingAnswered h, s)))"

text \<open>A queued answer: the helper records it and its signal runs the slot above.\<close>

definition pingAnswer :: "int \<Rightarrow> 16 word \<Rightarrow> State \<Rightarrow> monitored \<Rightarrow> monitored" where
  "pingAnswer now seq state hs = (case hs of (h, s) \<Rightarrow>
     (let p = pingReceived now seq (m_pingHelper h); h' = h\<lparr>m_pingHelper := p\<rparr> in
      if ping_emitted p = ping_emitted (m_pingHelper h) then (h', s)
      else health_pingSentAndReceived now state (h', s)))"

subsection \<open>The baseline latency\<close>

definition updateDnsPingLatency :: "64 word \<Rightarrow> ConnectionHealth \<Rightarrow> ConnectionHealth" where
  "updateDnsPingLatency x h =
     (if m_dnsPingInitialized h
      then h\<lparr>m_dnsPingLatency := (m_dnsPingLatency h * (PING_BASELINE_EWMA_DIVISOR - 1) + x) div PING_BASELINE_EWMA_DIVISOR\<rparr>
      else h\<lparr>m_dnsPingLatency := x, m_dnsPingInitialized := True\<rparr>)"

definition dnsPingReceived :: "int \<Rightarrow> 16 word \<Rightarrow> ConnectionHealth \<Rightarrow> ConnectionHealth" where
  "dnsPingReceived now seq h =
     (if seq \<noteq> m_dnsPingSequence h then h else updateDnsPingLatency (word_of_int now - m_dnsPingTimestamp h) h)"

subsection \<open>Following the controller\<close>

definition startUnsettledPeriod :: "ConnectionHealth \<Rightarrow> ConnectionHealth" where
  "startUnsettledPeriod h = (h_emit UnsettledChanged h)\<lparr>m_settlingTimer := True\<rparr>"

definition settlingTimeout :: "ConnectionHealth \<Rightarrow> ConnectionHealth" where
  "settlingTimeout h = h_emit UnsettledChanged (h\<lparr>m_settlingTimer := False\<rparr>)"

text \<open>
  The single-shot connections to \<open>statusUpdated\<close>: each \<open>connectionStateChanged\<close> adds one, and the
  next emission runs and removes all of them.
\<close>

definition health_statusUpdated ::
    "qt_net \<Rightarrow> bool \<Rightarrow> bool \<Rightarrow> State \<Rightarrow> ControllerStatus \<Rightarrow> ConnectionHealth \<Rightarrow> ConnectionHealth" where
  "health_statusUpdated Q factoryValid dnsValid state status h =
     (startActive Q factoryValid dnsValid state status ^^ h_statusSlots h) (h\<lparr>h_statusSlots := 0\<rparr>)"

definition connectionStateChanged ::
    "qt_net \<Rightarrow> bool \<Rightarrow> bool \<Rightarrow> bool \<Rightarrow> 16 word \<Rightarrow> int \<Rightarrow> Controller \<Rightarrow> ConnectionHealth \<Rightarrow> ConnectionHealth \<times> Controller" where
  "connectionStateChanged Q factoryValid dnsValid dnsSenderValid randomSequence now c h =
     (let state = m_state c;
          h = (if state \<noteq> StateInitializing \<and> state \<noteq> StatePermissionRequired then startUnsettledPeriod h else h)
      in if state = StateOnPartial \<or> state = StateOn then
           (let h = h\<lparr>h_statusSlots := Suc (h_statusSlots h)\<rparr>; c' = refreshStatus c in
            (if m_impl c then h else health_statusUpdated Q factoryValid dnsValid state (m_status c) h, c'))
         else if state = StateOff then (startIdle dnsSenderValid randomSequence now h, c)
         else (health_stop h, c))"

definition overwriteStabilityForInspector :: "bool \<Rightarrow> ConnectionStability \<Rightarrow> ConnectionHealth \<Rightarrow> ConnectionHealth option" where
  "overwriteStabilityForInspector inProduction stability h =
     (if inProduction then None
      else Some (h_emit (StabilityChanged stability) (h\<lparr>m_stabilityOverwritten := True, m_stability := stability\<rparr>)))"

subsection \<open>Classification\<close>

lemma maximum_loop_greater:
  "0 \<le> x \<Longrightarrow> x < uint (maximum_loop ds m) \<longleftrightarrow>
     x < uint m \<or> (\<exists>d\<in>set ds. 0 \<le> latency d \<and> latency d < 2^32 - 1 \<and> x < latency d)"
proof (induction ds arbitrary: m)
  case (Cons d ds)
  show ?case
  proof (cases "0 \<le> latency d \<and> latency d > uint m \<and> latency d < 2^32 - 1")
    case True
    then have "uint (word_of_int (latency d) :: 32 word) = latency d"
      by (simp add: uint_word_of_int_eq take_bit_int_eq_self)
    with True Cons show ?thesis by auto
  next
    case False
    then have "maximum_loop (d # ds) m = maximum_loop ds m" by auto
    with False Cons show ?thesis by auto
  qed
qed simp

lemma loss_above_threshold:
  "(of_nat n / 32 :: rat) > PING_LOSS_UNSTABLE_THRESHOLD \<longleftrightarrow> 4 \<le> n"
proof -
  have "(of_nat n / 32 :: rat) > 1 / 10 \<longleftrightarrow> (of_nat (10 * n) :: rat) > of_nat 32" by (simp add: field_simps)
  also have "\<dots> \<longleftrightarrow> 4 \<le> n" unfolding of_nat_less_iff by arith
  finally show ?thesis by (simp add: PING_LOSS_UNSTABLE_THRESHOLD_def)
qed

definition lostPings :: "int \<Rightarrow> PingSendData list \<Rightarrow> nat" where
  "lostPings now pings = length (filter (lost (now - 1000)) (drop (length pings - 32) pings))"

definition slowPing :: "64 word \<Rightarrow> PingSendData list \<Rightarrow> bool" where
  "slowPing limit pings \<longleftrightarrow>
     (\<exists>d\<in>set (drop (length pings - 32) pings). 0 \<le> latency d \<and> latency d < 2^32 - 1 \<and> uint limit < latency d)"

text \<open>What the monitor should say, over the log of pings.\<close>

definition verdict :: "int \<Rightarrow> PingSendData list \<Rightarrow> ConnectionHealth \<Rightarrow> ConnectionStability" where
  "verdict now pings h =
     (if \<not> m_noSignalTimer h then NoSignal
      else if 4 \<le> lostPings now pings \<or> (m_dnsPingInitialized h \<and> slowPing (1000 + m_dnsPingLatency h) pings)
      then Unstable else Stable)"

lemma ping_loss_log:
  assumes "ping_run pings p"
  shows "ping_loss now p > PING_LOSS_UNSTABLE_THRESHOLD \<longleftrightarrow> 4 \<le> lostPings now pings"
proof -
  have "m_pingData p = window pings" using ping_run_refines [OF assms] by (simp add: ring_refines_def)
  then have "ping_loss now p = of_nat (lostPings now pings) / 32"
    by (simp add: ping_loss_eq count_window lost_def emptyPing_def PING_TIMEOUT_def lostPings_def)
  then show ?thesis by (simp only: loss_above_threshold)
qed

lemma ping_maximum_log:
  assumes "ping_run pings p"
  shows "limit < (ucast (ping_maximum p) :: 64 word) \<longleftrightarrow> slowPing limit pings"
proof -
  have "m_pingData p = window pings" using ping_run_refines [OF assms] by (simp add: ring_refines_def)
  moreover have "set (window pings) = set_mset (mset (drop (length pings - 32) pings) + replicate_mset (32 - length pings) emptyPing)"
    by (metis mset_window set_mset_mset)
  ultimately have set: "set (m_pingData p) = set (drop (length pings - 32) pings) \<union> (if length pings < 32 then {emptyPing} else {})"
    by auto
  have "limit < (ucast (ping_maximum p) :: 64 word) \<longleftrightarrow> uint limit < uint (maximum_loop (m_pingData p) 0)"
    by (simp add: word_less_def ping_maximum_def uint_up_ucast is_up)
  also have "\<dots> \<longleftrightarrow> slowPing limit pings"
    by (subst maximum_loop_greater) (auto simp: set slowPing_def emptyPing_def)
  finally show ?thesis .
qed

lemma setStability_effect:
  assumes "\<not> m_stabilityOverwritten h" "setStability state v (h, s) = (h', s')"
  shows "m_stability h' = v" "s' = (if state \<noteq> StateOnPartial \<and> v = Unstable then vpn_silentSwitch s else s)"
    "h_signals h' = h_signals h @ (if m_stability h = v then [] else [StabilityChanged v])"
  using assms by (auto simp: setStability_def Let_def h_emit_def split: if_splits)

lemma healthCheckup_verdict:
  assumes "ping_run pings (m_pingHelper h)"
  shows "healthCheckup now state (h, s) = setStability state (verdict now pings h) (h, s)"
  unfolding healthCheckup_def prod.case ping_loss_log [OF assms] ping_maximum_log [OF assms] verdict_def PING_TIME_UNSTABLE_def
  by simp

text \<open>
  C7. The classification of a connection, over the log of all its pings: at a health check the
  monitor says \<open>NoSignal\<close> exactly when no answer restarted the four second timer, \<open>Unstable\<close> when at
  least four of the last 32 pings were lost or one of them took more than a second above the measured
  baseline, and \<open>Stable\<close> otherwise; a change of the classification, and nothing else, is announced;
  and a silent server switch is queued exactly when the verdict is \<open>Unstable\<close> outside the
  partial mode.
\<close>

theorem health_classification:
  assumes "ping_run pings (m_pingHelper h)" "\<not> m_stabilityOverwritten h"
    and "healthCheckup now state (h, s) = (h', s')"
  shows "m_stability h' = verdict now pings h \<and>
    h_signals h' = h_signals h @ (if m_stability h = verdict now pings h then [] else [StabilityChanged (verdict now pings h)]) \<and>
    s' = (if state \<noteq> StateOnPartial \<and> verdict now pings h = Unstable then vpn_silentSwitch s else s)"
  using setStability_effect [OF assms(2)] assms(3) healthCheckup_verdict [OF assms(1)] by metis

text \<open>Four pings without an answer.\<close>

definition fourPings :: "PingHelper" where
  "fourPings = foldr (\<lambda>t p. case nextPing t p of Inr q \<Rightarrow> q | Inl _ \<Rightarrow> p) [400, 300, 200, 100]
     (ping_start pingNet True True [] [] newPingHelper)"

definition fourLog :: "PingSendData list" where
  "fourLog = foldr log_send [400, 300, 200, 100] []"

lemma ping_run_send:
  assumes "ping_run pings p"
  shows "ping_run (log_send t pings) (case nextPing t p of Inr q \<Rightarrow> q | Inl _ \<Rightarrow> p)"
proof -
  obtain q where "nextPing t p = Inr q" using ping_run_refines [OF assms] nextPing_refines [of pings p t] by blast
  then show ?thesis using run_send [OF assms] by simp
qed

lemma fourPings_run: "ping_run fourLog fourPings"
  unfolding fourPings_def fourLog_def foldr.simps comp_def id_def by (intro ping_run_send run_start)

theorem health_classification_witness:
  "\<exists>h' s'. healthCheckup 5000 StateOn (newConnectionHealth\<lparr>m_pingHelper := fourPings, m_noSignalTimer := True\<rparr>, newTaskScheduler) = (h', s') \<and>
     m_stability h' = Unstable \<and> s' = vpn_silentSwitch newTaskScheduler"
proof -
  let ?h = "newConnectionHealth\<lparr>m_pingHelper := fourPings, m_noSignalTimer := True\<rparr>"
  obtain h' s' where run: "healthCheckup 5000 StateOn (?h, newTaskScheduler) = (h', s')" by fastforce
  have "verdict 5000 fourLog ?h = Unstable"
    by (simp add: verdict_def lostPings_def fourLog_def log_send_def lost_def)
  with health_classification [of fourLog ?h, OF _ _ run] run fourPings_run show ?thesis
    by (auto simp: newConnectionHealth_def)
qed

subsection \<open>The baseline stays in range\<close>

lemma ewma_step:
  fixes l x :: "64 word"
  assumes "lo \<le> unat l" "unat l \<le> hi" "lo \<le> unat x" "unat x \<le> hi" "hi < 2^61"
  shows "lo \<le> unat ((l * (PING_BASELINE_EWMA_DIVISOR - 1) + x) div PING_BASELINE_EWMA_DIVISOR)"
    and "unat ((l * (PING_BASELINE_EWMA_DIVISOR - 1) + x) div PING_BASELINE_EWMA_DIVISOR) \<le> hi"
proof -
  define n where "n = unat l * 7 + unat x"
  have n: "n < 2^64" using assms(2,4,5) by (simp add: n_def)
  have "l * 7 + x = word_of_nat n" by (simp add: n_def)
  then have "unat (l * 7 + x) = n" using n by (simp add: unsigned_of_nat take_bit_nat_eq_self)
  then have v: "unat ((l * (PING_BASELINE_EWMA_DIVISOR - 1) + x) div PING_BASELINE_EWMA_DIVISOR) = n div 8"
    by (simp add: PING_BASELINE_EWMA_DIVISOR_def unat_div_distrib)
  have "8 * lo \<le> n" "n \<le> 8 * hi" using assms(1-4) by (simp_all add: n_def)
  then show "lo \<le> unat ((l * (PING_BASELINE_EWMA_DIVISOR - 1) + x) div PING_BASELINE_EWMA_DIVISOR)"
    and "unat ((l * (PING_BASELINE_EWMA_DIVISOR - 1) + x) div PING_BASELINE_EWMA_DIVISOR) \<le> hi"
    unfolding v by linarith+
qed

lemma ewma_run:
  assumes "hi < 2^61" "m_dnsPingInitialized h" "lo \<le> unat (m_dnsPingLatency h)" "unat (m_dnsPingLatency h) \<le> hi"
    and "\<forall>x\<in>set xs. lo \<le> unat x \<and> unat x \<le> hi"
  shows "lo \<le> unat (m_dnsPingLatency (fold updateDnsPingLatency xs h)) \<and>
    unat (m_dnsPingLatency (fold updateDnsPingLatency xs h)) \<le> hi"
  using assms(2-5)
proof (induction xs arbitrary: h)
  case (Cons x xs)
  have "lo \<le> unat (m_dnsPingLatency (updateDnsPingLatency x h))" "unat (m_dnsPingLatency (updateDnsPingLatency x h)) \<le> hi"
      "m_dnsPingInitialized (updateDnsPingLatency x h)"
    using Cons.prems ewma_step [of lo "m_dnsPingLatency h" hi x] assms(1) by (simp_all add: updateDnsPingLatency_def)
  with Cons show ?case by simp
qed simp

text \<open>
  The baseline latency never leaves the range of its samples: after a reset, however many
  answers arrive, the moving average in 64 bit arithmetic lies between the smallest and the largest
  sample as long as these are below \<open>2^61\<close> milliseconds, and the limit for slow pings
  computed from it does not wrap.
\<close>

theorem dns_baseline_in_range:
  assumes "\<not> m_dnsPingInitialized h" "xs \<noteq> []" "\<forall>x\<in>set xs. lo \<le> unat x \<and> unat x \<le> hi" "hi < 2^61"
  shows "let l = m_dnsPingLatency (fold updateDnsPingLatency xs h) in
    lo \<le> unat l \<and> unat l \<le> hi \<and> unat (PING_TIME_UNSTABLE + l) = 1000 + unat l"
proof -
  obtain y ys where xs: "xs = y # ys" using assms(2) by (cases xs) auto
  have "m_dnsPingInitialized (updateDnsPingLatency y h)" "m_dnsPingLatency (updateDnsPingLatency y h) = y"
    using assms(1) by (simp_all add: updateDnsPingLatency_def)
  then have r: "lo \<le> unat (m_dnsPingLatency (fold updateDnsPingLatency xs h)) \<and>
      unat (m_dnsPingLatency (fold updateDnsPingLatency xs h)) \<le> hi"
    using ewma_run [of hi "updateDnsPingLatency y h" lo ys] assms(3,4) by (simp add: xs)
  define l where "l = m_dnsPingLatency (fold updateDnsPingLatency xs h)"
  have "PING_TIME_UNSTABLE + l = word_of_nat (1000 + unat l)" by (simp add: PING_TIME_UNSTABLE_def)
  moreover have "1000 + unat l < 2^64" using r assms(4) by (simp add: l_def)
  ultimately have "unat (PING_TIME_UNSTABLE + l) = 1000 + unat l"
    by (simp only: unsigned_of_nat) (simp add: take_bit_nat_eq_self)
  with r show ?thesis by (simp add: Let_def l_def)
qed

theorem dns_baseline_in_range_witness:
  "unat (m_dnsPingLatency (fold updateDnsPingLatency [20, 60, 40] newConnectionHealth)) \<le> 60"
  using dns_baseline_in_range [of newConnectionHealth "[20, 60, 40]" 20 60] by (simp add: newConnectionHealth_def Let_def)

subsection \<open>Modes\<close>

definition pingTimeout :: "int \<Rightarrow> monitored \<Rightarrow> fault + monitored" where
  "pingTimeout now hs = (case hs of (h, s) \<Rightarrow>
     fbind (nextPing now (m_pingHelper h)) (\<lambda>p. Inr (h\<lparr>m_pingHelper := p\<rparr>, s)))"

inductive health_step :: "monitored \<Rightarrow> monitored \<Rightarrow> bool" where
  hs_state: "health_step (h, s) (fst (connectionStateChanged Q f v w r now c h), s)"
| hs_status: "health_step (h, s) (health_statusUpdated Q f v state status h, s)"
| hs_check: "m_healthCheckTimer h \<Longrightarrow> health_step (h, s) (healthCheckup now state (h, s))"
| hs_noSignal: "m_noSignalTimer h \<Longrightarrow> health_step (h, s) (h\<lparr>m_noSignalTimer := False\<rparr>, s)"
| hs_settled: "m_settlingTimer h \<Longrightarrow> health_step (h, s) (settlingTimeout h, s)"
| hs_ping: "m_pingTimer (m_pingHelper h) \<Longrightarrow> pingTimeout now (h, s) = Inr hs' \<Longrightarrow> health_step (h, s) hs'"
| hs_answer: "health_step (h, s) (pingAnswer now seq state (h, s))"
| hs_dnsTimer: "m_dnsPingTimer h \<Longrightarrow> health_step (h, s) (dnsPingTimeout now h, s)"
| hs_dnsAnswer: "health_step (h, s) (dnsPingReceived now seq h, s)"
| hs_dnsError: "health_step (h, s) (dnsPingError h, s)"
| hs_overwrite: "overwriteStabilityForInspector production x h = Some h' \<Longrightarrow> health_step (h, s) (h', s)"
| hs_tasks: "sched_step s s' \<Longrightarrow> health_step (h, s) (h, s')"

definition modes :: "ConnectionHealth \<Rightarrow> bool" where
  "modes h \<longleftrightarrow> length (m_pingData (m_pingHelper h)) = 32 \<and>
     (m_pingTimer (m_pingHelper h) \<longleftrightarrow> m_pingSender (m_pingHelper h) \<noteq> None) \<and>
     (m_pingTimer (m_pingHelper h) \<longrightarrow> m_healthCheckTimer h \<and> \<not> m_dnsPingTimer h)"

lemma modes_start: "modes h \<Longrightarrow> modes (startActive Q f v state status h)"
  by (simp add: modes_def startActive_def ping_start_def PING_STATS_WINDOW_def Let_def)

lemma modes_iterate: "modes h \<Longrightarrow> modes ((startActive Q f v state status ^^ n) h)"
  by (induction n) (simp_all add: modes_start)

lemma modes_statusUpdated: "modes h \<Longrightarrow> modes (health_statusUpdated Q f v state status h)"
  unfolding health_statusUpdated_def by (rule modes_iterate) (simp add: modes_def)

lemma modes_stop: "modes h \<Longrightarrow> modes (health_stop h)" "modes h \<Longrightarrow> modes (startIdle w r now h)"
  by (simp_all add: modes_def health_stop_def startIdle_def sendDnsPing_def ping_stop_def Let_def)

lemma modes_stateChanged: "modes h \<Longrightarrow> modes (fst (connectionStateChanged Q f v w r now c h))"
proof -
  assume h: "modes h"
  have "modes (startUnsettledPeriod h)" "modes (h\<lparr>h_statusSlots := n\<rparr>)" "modes ((startUnsettledPeriod h)\<lparr>h_statusSlots := n\<rparr>)" for n
    using h by (simp_all add: modes_def startUnsettledPeriod_def h_emit_def)
  with h show ?thesis
    by (simp add: connectionStateChanged_def Let_def modes_statusUpdated modes_stop)
qed

lemma modes_checkup: "modes h \<Longrightarrow> modes (fst (healthCheckup now state (h, s)))"
  by (simp add: healthCheckup_def setStability_def modes_def h_emit_def Let_def)

lemma modes_answer: "modes h \<Longrightarrow> modes (fst (pingAnswer now seq state (h, s)))"
proof -
  assume h: "modes h"
  let ?h = "h\<lparr>m_pingHelper := pingReceived now seq (m_pingHelper h)\<rparr>"
  have r: "modes ?h" "modes (?h\<lparr>m_noSignalTimer := True, m_healthCheckTimer := True\<rparr>)"
    using h by (simp_all add: modes_def pingReceived_def Let_def)
  have "modes (fst (health_pingSentAndReceived now state (?h, s)))"
    using modes_checkup [OF r(2), of now state s]
    by (auto simp: health_pingSentAndReceived_def modes_def h_emit_def split: prod.split)
  with r show ?thesis by (simp add: pingAnswer_def Let_def)
qed

lemma modes_ping: "modes h \<Longrightarrow> pingTimeout now (h, s) = Inr hs' \<Longrightarrow> modes (fst hs')"
  by (auto simp: pingTimeout_def modes_def nextPing_def fpointer_def Let_def split: if_splits)

lemma health_step_modes:
  assumes "modes (fst hs)" "health_step hs hs'"
  shows "modes (fst hs')"
  using assms(2,1)
proof cases
  case (hs_dnsAnswer h s now seq)
  then show ?thesis using assms(1) by (simp add: modes_def dnsPingReceived_def updateDnsPingLatency_def)
next
  case (hs_overwrite production x h h' s)
  then show ?thesis using assms(1) by (auto simp: overwriteStabilityForInspector_def modes_def h_emit_def split: if_splits)
next
  case (hs_ping h now s)
  then show ?thesis using assms(1) by (auto intro: modes_ping)
qed (use assms(1) in \<open>auto simp: modes_stateChanged modes_statusUpdated modes_checkup modes_answer\<close>,
     auto simp: modes_def settlingTimeout_def h_emit_def dnsPingTimeout_def sendDnsPing_def dnsPingError_def)

interpretation health: invariant_system
    "\<lambda>hs. hs = (newConnectionHealth, newTaskScheduler)" health_step "\<lambda>hs. modes (fst hs)"
proof unfold_locales
  show "modes (fst hs)" if "hs = (newConnectionHealth, newTaskScheduler)" for hs
    using that by (simp add: modes_def newConnectionHealth_def newPingHelper_def PING_STATS_WINDOW_def)
qed (rule health_step_modes)

text \<open>
  C20. The monitor is in one mode at a time: in every reachable state, whatever the order of state
  changes, status updates, answers and expiries, the pings of the tunnel and the idle DNS pings
  never run together; while the tunnel is pinged the health check is scheduled and the next ping finds
  its sender, so that sending it never follows a null pointer.
\<close>

theorem health_monitor_one_mode:
  assumes "reachable (\<lambda>hs. hs = (newConnectionHealth, newTaskScheduler)) health_step (h, s)"
  shows "\<not> (m_pingTimer (m_pingHelper h) \<and> m_dnsPingTimer h) \<and>
    (m_pingTimer (m_pingHelper h) \<longrightarrow> m_healthCheckTimer h \<and> (\<exists>hs'. pingTimeout now (h, s) = Inr hs'))"
  using health.reachable_inv [OF assms]
  by (auto simp: modes_def pingTimeout_def nextPing_def Let_def)

definition onController :: Controller where
  "onController = newController\<lparr>m_state := StateOn, m_status := clearStatus\<lparr>st_ipv4Gateway := IPv4Address 1\<rparr>\<rparr>"

theorem health_monitor_one_mode_witness:
  "m_pingTimer (m_pingHelper (fst (connectionStateChanged pingNet True True True 0 0 onController newConnectionHealth))) \<and>
   \<not> m_dnsPingTimer (fst (connectionStateChanged pingNet True True True 0 0 onController newConnectionHealth))"
proof -
  let ?h = "fst (connectionStateChanged pingNet True True True 0 0 onController newConnectionHealth)"
  have "reachable (\<lambda>hs. hs = (newConnectionHealth, newTaskScheduler)) health_step (?h, newTaskScheduler)"
    by (rule reachable.intros(2), rule reachable.intros(1), rule refl, rule hs_state)
  moreover have "m_pingTimer (m_pingHelper ?h)"
    by (simp add: connectionStateChanged_def onController_def newController_def health_statusUpdated_def startActive_def
        startUnsettledPeriod_def h_emit_def newConnectionHealth_def ping_start_def Let_def)
  ultimately show ?thesis using health_monitor_one_mode by blast
qed

subsection \<open>Observation\<close>

text \<open>
  Answers are delivered through the event queue.  One that was queued before the monitor stopped
  starts the no-signal and the health check timers again, although no ping follows: the checks then
  run while the connection is off and report \<open>NoSignal\<close> when the timer expires.
\<close>

lemma late_answer_restarts_checks:
  assumes "m_pingData (m_pingHelper h) ! pingSlot seq = \<lparr>timestamp = t, latency = -1, sequence = seq\<rparr>"
  shows "m_healthCheckTimer (fst (pingAnswer now seq StateOff (health_stop h, s)))"
proof -
  have ne: "ping_emitted (pingReceived now seq (ping_stop (m_pingHelper h))) \<noteq> ping_emitted (ping_stop (m_pingHelper h))"
    using assms by (simp add: pingReceived_def ping_stop_def Let_def)
  have "m_healthCheckTimer (fst (healthCheckup now state (k, s))) = m_healthCheckTimer k" for state k
    by (simp add: healthCheckup_def setStability_def h_emit_def Let_def)
  then have "m_healthCheckTimer (fst (health_pingSentAndReceived now StateOff (k, s)))" for k
    by (simp add: health_pingSentAndReceived_def h_emit_def case_prod_beta)
  moreover have "pingAnswer now seq StateOff (health_stop h, s) =
      health_pingSentAndReceived now StateOff ((health_stop h)\<lparr>m_pingHelper := pingReceived now seq (ping_stop (m_pingHelper h))\<rparr>, s)"
    using ne unfolding pingAnswer_def Let_def by (simp add: health_stop_def)
  ultimately show ?thesis by simp
qed

end
