(* ===== verification/Daemon_Config.thy ===== *)
theory Daemon_Config
  imports WireGuard_Config Settings_Holder "HOL-Library.Multiset"
begin

text \<open>
  \<^verbatim>\<open>src/src/daemon/daemon.cpp\<close>, \<open>parseStringList\<close> and \<open>parseConfig\<close>: how the privileged
  daemon reads the configuration that the client sends it with \<open>InterfaceConfig::toJson\<close>.
  An answer \<open>Inr None\<close> is the \<open>false\<close> of the code (the half-filled configuration is not used
  by any caller), \<open>Inl\<close> a failed assertion of the address constructor or the undefined
  conversion of a port outside the range of \<open>int\<close>.
\<close>

subsection \<open>Reading\<close>

fun string_items :: "json list \<Rightarrow> string list \<Rightarrow> string list option" where
  "string_items [] acc = Some acc"
| "string_items (i # rest) acc =
     (if \<not> jIsString (Some i) then None else string_items rest (acc @ [qtext (jToString (Some i))]))"

definition parseStringList :: "json_object \<Rightarrow> string \<Rightarrow> string list \<Rightarrow> string list option" where
  "parseStringList obj name acc =
     (if jContains obj name then
        (let value = jValue obj name in
         if \<not> jIsArray value then None else string_items (jToArray value) acc)
      else Some acc)"

text \<open>The implicit conversion of a \<open>double\<close> to \<open>int\<close> drops the fraction.\<close>

definition truncate :: "rat \<Rightarrow> int" where
  "truncate r = (if r \<ge> 0 then floor r else ceiling r)"

definition doubleToInt :: "rat \<Rightarrow> fault + int" where
  "doubleToInt r =
     (let n = truncate r in if - (2^31) \<le> n \<and> n < 2^31 then Inr n else Inl Undefined_conversion)"

definition jToDouble :: "json option \<Rightarrow> rat" where
  "jToDouble v = (case v of Some (JDouble r) \<Rightarrow> r | _ \<Rightarrow> 0)"

definition parseRange :: "qt_net \<Rightarrow> json \<Rightarrow> fault + IPAddress option" where
  "parseRange Q i =
     (if \<not> jIsObject (Some i) then Inr None
      else
        (let ipObj = jToObject (Some i);
             address = jValue ipObj ''address'';
             range = jValue ipObj ''range'';
             isIpv6 = jValue ipObj ''isIpv6'' in
         if \<not> jIsString address then Inr None
         else if \<not> jIsDouble range then Inr None
         else if \<not> jIsBool isIpv6 then Inr None
         else fbind (ffrom (IPAddress_fromPrefix (qHostAddress Q (qtext (jToString address))) (jToInt range)))
                (\<lambda>ip. Inr (Some ip))))"

fun parseRanges :: "qt_net \<Rightarrow> json list \<Rightarrow> IPAddress list \<Rightarrow> fault + IPAddress list option" where
  "parseRanges Q [] acc = Inr (Some acc)"
| "parseRanges Q (i # rest) acc =
     fbind (parseRange Q i)
       (\<lambda>r. case r of None \<Rightarrow> Inr None | Some ip \<Rightarrow> parseRanges Q rest (acc @ [ip]))"

text \<open>
  \<open>std::sort\<close> by decreasing prefix length.  The standard leaves the order of equal prefix lengths
  open; the model keeps it, and the properties below use only that the result is a sorted
  permutation.
\<close>

definition sortByPrefix :: "IPAddress list \<Rightarrow> IPAddress list" where
  "sortByPrefix ips = sort_key (\<lambda>ip. - m_prefixLength ip) ips"

definition parseDns :: "json_object \<Rightarrow> qstr option" where
  "parseDns obj =
     (if \<not> jContains obj ''dnsServer'' then Some None
      else (let value = jValue obj ''dnsServer'' in
            if \<not> jIsString value then None else Some (jToString value)))"

definition parseHopType :: "json_object \<Rightarrow> HopType option" where
  "parseHopType obj =
     (if \<not> jContains obj ''hopType'' then Some SingleHop
      else (let value = jValue obj ''hopType'' in
            if \<not> jIsString value then None else hopTypeFromKey (qtext (jToString value))))"

definition parseAllowed :: "qt_net \<Rightarrow> json_object \<Rightarrow> InterfaceConfig \<Rightarrow> fault + InterfaceConfig option" where
  "parseAllowed Q obj config =
     (if \<not> jContains obj ''allowedIPAddressRanges'' then Inr None
      else
        (let value = jValue obj ''allowedIPAddressRanges'' in
         if \<not> jIsArray value then Inr None
         else fbind (parseRanges Q (jToArray value) (m_allowedIPAddressRanges config))
           (\<lambda>r. case r of None \<Rightarrow> Inr None
              | Some ips \<Rightarrow>
                  (case parseStringList obj ''vpnDisabledApps'' (m_vpnDisabledApps config) of
                     None \<Rightarrow> Inr None
                   | Some apps \<Rightarrow>
                       Inr (Some (config\<lparr>m_allowedIPAddressRanges := sortByPrefix ips,
                                         m_vpnDisabledApps := apps\<rparr>))))))"

definition parseAddresses :: "json_object \<Rightarrow> InterfaceConfig \<Rightarrow> InterfaceConfig option" where
  "parseAddresses obj config =
     (let config = config\<lparr>m_deviceIpv4Address := jToString (jValue obj ''deviceIpv4Address''),
                          m_deviceIpv6Address := jToString (jValue obj ''deviceIpv6Address'')\<rparr> in
      if qIsNull (m_deviceIpv4Address config) \<and> qIsNull (m_deviceIpv6Address config) then None
      else
        (let config = config\<lparr>m_serverIpv4AddrIn := jToString (jValue obj ''serverIpv4AddrIn''),
                             m_serverIpv6AddrIn := jToString (jValue obj ''serverIpv6AddrIn'')\<rparr> in
         if qIsNull (m_serverIpv4AddrIn config) \<and> qIsNull (m_serverIpv6AddrIn config) then None
         else Some (config\<lparr>m_serverIpv4Gateway := jToString (jValue obj ''serverIpv4Gateway''),
                           m_serverIpv6Gateway := jToString (jValue obj ''serverIpv6Gateway'')\<rparr>)))"

definition parseConfig :: "qt_net \<Rightarrow> json_object \<Rightarrow> InterfaceConfig \<Rightarrow> fault + InterfaceConfig option" where
  "parseConfig Q obj config =
     (let privateKey = jValue obj ''privateKey'';
          serverPublicKey = jValue obj ''serverPublicKey'';
          serverPort = jValue obj ''serverPort'' in
      if \<not> jIsString privateKey then Inr None
      else if \<not> jIsString serverPublicKey then Inr None
      else if \<not> jIsDouble serverPort then Inr None
      else fbind (doubleToInt (jToDouble serverPort)) (\<lambda>port.
        (let config = config\<lparr>m_privateKey := jToString privateKey,
                             m_serverPublicKey := jToString serverPublicKey,
                             m_serverPort := port\<rparr> in
         case parseAddresses obj config of None \<Rightarrow> Inr None | Some config \<Rightarrow>
        (case parseDns obj of None \<Rightarrow> Inr None | Some dns \<Rightarrow>
        (case parseHopType obj of None \<Rightarrow> Inr None | Some hop \<Rightarrow>
           parseAllowed Q obj (config\<lparr>m_dnsServer := dns, m_hopType := hop\<rparr>))))))"

subsection \<open>What the reader accepts\<close>

lemma string_items_some:
  "string_items xs acc = Some ys \<longleftrightarrow> (\<exists>zs. xs = map JString zs \<and> ys = acc @ zs)"
proof (induction xs arbitrary: acc)
  case Nil
  then show ?case by auto
next
  case (Cons x xs)
  show ?case
  proof (cases x)
    case (JString s)
    then show ?thesis by (auto simp: Cons.IH Cons_eq_map_conv)
  qed (auto simp: jIsString_def)
qed

lemma parseRange_some:
  assumes "parseRange Q i = Inr (Some ip)"
  shows "IPAddress_fromPrefix (qHostAddress Q (qtext (jToString (jValue (jToObject (Some i)) ''address''))))
           (jToInt (jValue (jToObject (Some i)) ''range'')) = Some ip"
  using assms by (auto simp: parseRange_def Let_def ffrom_def split: if_splits option.splits)

lemma IPAddress_fromPrefix_wf:
  assumes "qt_net_ok Q" "IPAddress_fromPrefix (qHostAddress Q s) p = Some ip"
  shows "wf_ip ip"
proof -
  have "wf_addr (qHostAddress Q s)"
    using assms by (auto simp: qt_net_ok_def IPAddress_fromPrefix_def split: if_splits)
  then show ?thesis
    using assms(2) by (auto simp: IPAddress_fromPrefix_def wf_ip_def split: if_splits)
qed

lemma parseRanges_wf:
  assumes "qt_net_ok Q"
  shows "parseRanges Q xs acc = Inr (Some ips) \<Longrightarrow> \<forall>ip\<in>set acc. wf_ip ip \<Longrightarrow> \<forall>ip\<in>set ips. wf_ip ip"
proof (induction xs arbitrary: acc)
  case Nil
  then show ?case by simp
next
  case (Cons x xs)
  obtain ip where ip: "parseRange Q x = Inr (Some ip)" "parseRanges Q xs (acc @ [ip]) = Inr (Some ips)"
    using Cons.prems(1) by (auto dest!: fbind_InrD split: option.splits)
  with Cons.IH [OF ip(2)] Cons.prems(2) IPAddress_fromPrefix_wf [OF assms parseRange_some [OF ip(1)]]
  show ?case by auto
qed

lemma sorted_sortByPrefix: "sorted_wrt (\<lambda>a b. m_prefixLength b \<le> m_prefixLength a) (sortByPrefix ips)"
  using sorted_sort_key [of "\<lambda>ip. - m_prefixLength ip" ips]
  by (simp add: sortByPrefix_def sorted_map)

lemma mset_sortByPrefix [simp]: "mset (sortByPrefix ips) = mset ips"
  by (simp add: sortByPrefix_def)

lemma set_sortByPrefix [simp]: "set (sortByPrefix ips) = set ips"
  by (simp add: sortByPrefix_def)

lemma parseAllowed_some:
  assumes "parseAllowed Q obj config = Inr (Some c)"
  shows "\<exists>ips apps. parseRanges Q (jToArray (jValue obj ''allowedIPAddressRanges'')) (m_allowedIPAddressRanges config) = Inr (Some ips)
    \<and> parseStringList obj ''vpnDisabledApps'' (m_vpnDisabledApps config) = Some apps
    \<and> c = config\<lparr>m_allowedIPAddressRanges := sortByPrefix ips, m_vpnDisabledApps := apps\<rparr>"
  using assms
  by (auto simp: parseAllowed_def Let_def dest!: fbind_InrD split: if_splits option.splits)

lemma parseAddresses_some:
  assumes "parseAddresses obj config = Some c"
  shows "c = config\<lparr>m_deviceIpv4Address := jToString (jValue obj ''deviceIpv4Address''),
             m_deviceIpv6Address := jToString (jValue obj ''deviceIpv6Address''),
             m_serverIpv4AddrIn := jToString (jValue obj ''serverIpv4AddrIn''),
             m_serverIpv6AddrIn := jToString (jValue obj ''serverIpv6AddrIn''),
             m_serverIpv4Gateway := jToString (jValue obj ''serverIpv4Gateway''),
             m_serverIpv6Gateway := jToString (jValue obj ''serverIpv6Gateway'')\<rparr>
     \<and> (m_deviceIpv4Address c \<noteq> None \<or> m_deviceIpv6Address c \<noteq> None)
     \<and> (m_serverIpv4AddrIn c \<noteq> None \<or> m_serverIpv6AddrIn c \<noteq> None)"
  using assms by (auto simp: parseAddresses_def Let_def qIsNull_def split: if_splits)

text \<open>The steps of a successful run.\<close>

lemma parseConfig_some:
  assumes "parseConfig Q obj config = Inr (Some c)"
  obtains pk spk r port c1 dns hop where
    "jValue obj ''privateKey'' = Some (JString pk)" "jValue obj ''serverPublicKey'' = Some (JString spk)"
    "jValue obj ''serverPort'' = Some (JDouble r)" "doubleToInt r = Inr port"
    "parseAddresses obj (config\<lparr>m_privateKey := Some pk, m_serverPublicKey := Some spk, m_serverPort := port\<rparr>) = Some c1"
    "parseDns obj = Some dns" "parseHopType obj = Some hop"
    "parseAllowed Q obj (c1\<lparr>m_dnsServer := dns, m_hopType := hop\<rparr>) = Inr (Some c)"
  using assms
  by (auto simp: parseConfig_def Let_def jToDouble_def dest!: fbind_InrD jIs_cases
        split: if_splits option.splits)

subsection \<open>Round trip\<close>

text \<open>Only the values of the keys matter to the reader, and it does not look at the type of the message.\<close>

lemma parseConfig_cong:
  assumes "\<And>k. k \<noteq> ''type'' \<Longrightarrow> jValue ob k = jValue ob' k"
  shows "parseConfig Q ob c = parseConfig Q ob' c"
proof -
  have "parseAddresses ob = parseAddresses ob'" "parseDns ob = parseDns ob'" "parseHopType ob = parseHopType ob'"
    by (auto simp: fun_eq_iff parseAddresses_def parseDns_def parseHopType_def assms)
  moreover have "parseStringList ob ''vpnDisabledApps'' = parseStringList ob' ''vpnDisabledApps''"
    by (simp add: fun_eq_iff parseStringList_def assms)
  then have "parseAllowed Q ob = parseAllowed Q ob'"
    by (simp add: fun_eq_iff parseAllowed_def Let_def assms)
  moreover have "jValue ob ''privateKey'' = jValue ob' ''privateKey''" "jValue ob ''serverPublicKey'' = jValue ob' ''serverPublicKey''"
      "jValue ob ''serverPort'' = jValue ob' ''serverPort''"
    by (simp_all add: assms)
  ultimately show ?thesis
    unfolding parseConfig_def by (simp only:)
qed

text \<open>
  What arrives of a configuration: null strings arrive as empty ones, the gateways and the DNS server
  are sent for the last hop only, the city names are not sent, and the ranges arrive sorted.
\<close>

definition transported :: "InterfaceConfig \<Rightarrow> InterfaceConfig" where
  "transported c =
     (let text = (\<lambda>s. Some (qtext s)); lastHop = (\<lambda>s. if m_hopType c = MultiHopEntry then None else Some (qtext s)) in
      \<lparr>m_hopType = m_hopType c, m_privateKey = text (m_privateKey c),
       m_deviceIpv4Address = text (m_deviceIpv4Address c), m_deviceIpv6Address = text (m_deviceIpv6Address c),
       m_serverIpv4Gateway = lastHop (m_serverIpv4Gateway c), m_serverIpv6Gateway = lastHop (m_serverIpv6Gateway c),
       m_serverPublicKey = text (m_serverPublicKey c), m_serverIpv4AddrIn = text (m_serverIpv4AddrIn c),
       m_serverIpv6AddrIn = text (m_serverIpv6AddrIn c), m_dnsServer = lastHop (m_dnsServer c),
       m_entryCity = None, m_exitCity = None, m_serverPort = m_serverPort c,
       m_allowedIPAddressRanges = sortByPrefix (m_allowedIPAddressRanges c),
       m_vpnDisabledApps = m_vpnDisabledApps c\<rparr>)"

text \<open>Qt reads back the text it writes for this address.\<close>

definition addr_reads_back :: "qt_net \<Rightarrow> QHostAddress \<Rightarrow> bool" where
  "addr_reads_back Q a \<longleftrightarrow> qHostAddress Q (qAddrToString Q a) = a"

lemma doubleToInt_of_int:
  "- (2^31) \<le> n \<Longrightarrow> n < 2^31 \<Longrightarrow> doubleToInt (of_int n) = Inr n"
  by (simp add: doubleToInt_def truncate_def Let_def)

lemma parseRange_rangeToJson:
  assumes "wf_ip ip" "addr_reads_back Q (m_address ip)"
  shows "parseRange Q (rangeToJson Q ip) = Inr (Some ip)"
proof -
  have "IPAddress_fromPrefix (m_address ip) (m_prefixLength ip) = Some ip"
    using assms(1) by (cases ip; cases "m_address ip") (auto simp: IPAddress_fromPrefix_def wf_ip_def)
  moreover have "- (2^31) \<le> m_prefixLength ip" "m_prefixLength ip < 2^31"
    using assms(1) by (cases "m_address ip"; simp add: wf_ip_def)+
  ultimately show ?thesis
    using assms(2) by (simp add: parseRange_def rangeToJson_def addr_reads_back_def Let_def)
qed

lemma parseRanges_map:
  assumes "\<forall>ip\<in>set ips. wf_ip ip \<and> addr_reads_back Q (m_address ip)"
  shows "parseRanges Q (map (rangeToJson Q) ips) acc = Inr (Some (acc @ ips))"
  using assms by (induction ips arbitrary: acc) (simp_all add: parseRange_rangeToJson)

lemma string_items_map: "string_items (map JString xs) acc = Some (acc @ xs)"
  by (simp add: string_items_some)

lemma config_toJson_values:
  "jValue (config_toJson Q c) ''hopType'' = Some (JString (hopTypeToKey (m_hopType c)))"
  "jValue (config_toJson Q c) ''privateKey'' = Some (jString (m_privateKey c))"
  "jValue (config_toJson Q c) ''deviceIpv4Address'' = Some (jString (m_deviceIpv4Address c))"
  "jValue (config_toJson Q c) ''deviceIpv6Address'' = Some (jString (m_deviceIpv6Address c))"
  "jValue (config_toJson Q c) ''serverPublicKey'' = Some (jString (m_serverPublicKey c))"
  "jValue (config_toJson Q c) ''serverIpv4AddrIn'' = Some (jString (m_serverIpv4AddrIn c))"
  "jValue (config_toJson Q c) ''serverIpv6AddrIn'' = Some (jString (m_serverIpv6AddrIn c))"
  "jValue (config_toJson Q c) ''serverPort'' = Some (JDouble (of_int (m_serverPort c)))"
  "jValue (config_toJson Q c) ''allowedIPAddressRanges'' = Some (JArray (map (rangeToJson Q) (m_allowedIPAddressRanges c)))"
  "jValue (config_toJson Q c) ''vpnDisabledApps'' = Some (JArray (map JString (m_vpnDisabledApps c)))"
  by (simp_all add: config_toJson_def Let_def)

lemma config_toJson_last_hop:
  "jValue (config_toJson Q c) ''dnsServer'' = (if m_hopType c = MultiHopEntry then None else Some (jString (m_dnsServer c)))"
  "jValue (config_toJson Q c) ''serverIpv4Gateway'' = (if m_hopType c = MultiHopEntry then None else Some (jString (m_serverIpv4Gateway c)))"
  "jValue (config_toJson Q c) ''serverIpv6Gateway'' = (if m_hopType c = MultiHopEntry then None else Some (jString (m_serverIpv6Gateway c)))"
  by (cases "m_hopType c"; simp add: config_toJson_def Let_def)+

lemma parseConfig_config_toJson:
  assumes port: "- (2^31) \<le> m_serverPort c" "m_serverPort c < 2^31"
    and ips: "\<forall>ip\<in>set (m_allowedIPAddressRanges c). wf_ip ip \<and> addr_reads_back Q (m_address ip)"
  shows "parseConfig Q (config_toJson Q c) emptyConfig = Inr (Some (transported c))"
proof -
  have dns: "parseDns (config_toJson Q c) = Some (m_dnsServer (transported c))"
    by (simp add: parseDns_def transported_def config_toJson_last_hop jString_def Let_def)
  have hop: "parseHopType (config_toJson Q c) = Some (m_hopType c)"
    by (simp add: parseHopType_def config_toJson_values)
  have apps: "parseStringList (config_toJson Q c) ''vpnDisabledApps'' [] = Some (m_vpnDisabledApps c)"
    by (simp add: parseStringList_def config_toJson_values string_items_map)
  have double: "jToDouble (Some (JDouble r)) = r" for r by (simp add: jToDouble_def)
  show ?thesis
    by (simp add: parseConfig_def parseAddresses_def parseAllowed_def dns hop apps double
          config_toJson_values config_toJson_last_hop jString_def doubleToInt_of_int [OF port]
          parseRanges_map [OF ips] emptyConfig_def)
       (simp add: transported_def Let_def)
qed

subsection \<open>Properties\<close>

text \<open>
  C14. The daemon understands the client: the text the client sends for a configuration whose ranges
  are well-formed is accepted by \<open>parseConfig\<close>, and the result is the configuration that was sent
  up to null strings, which arrive empty, the members that are not sent, and the order of the ranges,
  which arrive as a permutation sorted by decreasing prefix length.
\<close>

theorem client_config_reaches_daemon:
  assumes "- (2^31) \<le> m_serverPort c" "m_serverPort c < 2^31"
    and "\<forall>ip\<in>set (m_allowedIPAddressRanges c). wf_ip ip \<and> addr_reads_back Q (m_address ip)"
    and "reads_back C (config_toJson Q c)"
  shows "parseConfig Q (jToObject (jsonFromText C (jsonToText C (config_toJson Q c)))) emptyConfig = Inr (Some (transported c)) \<and>
    mset (m_allowedIPAddressRanges (transported c)) = mset (m_allowedIPAddressRanges c) \<and>
    sorted_wrt (\<lambda>a b. m_prefixLength b \<le> m_prefixLength a) (m_allowedIPAddressRanges (transported c))"
proof -
  obtain ob' where ob': "jsonFromText C (jsonToText C (config_toJson Q c)) = Some (JObject ob')"
      "\<And>k. jValue ob' k = jValue (config_toJson Q c) k"
    using reads_backD [OF assms(4)] by blast
  have "parseConfig Q ob' emptyConfig = Inr (Some (transported c))"
    using parseConfig_cong [of ob' "config_toJson Q c" Q emptyConfig, OF ob'(2)]
    by (simp add: parseConfig_config_toJson [OF assms(1-3)])
  then show ?thesis
    by (simp add: ob'(1) transported_def Let_def sorted_sortByPrefix)
qed

text \<open>Two ranges, sent in the order of increasing prefix length.\<close>

definition twoRangesConfig :: InterfaceConfig where
  "twoRangesConfig = exampleConfig\<lparr>m_allowedIPAddressRanges := [ip4 0 0, ip4 0x0A000002 32]\<rparr>"

definition daemonNet :: qt_net where
  "daemonNet = exampleNet\<lparr>qHostAddress := (\<lambda>s. if s = ''0.0.0.0'' then IPv4Address 0
     else if s = ''10.0.0.2'' then IPv4Address 0x0A000002 else NullAddress)\<rparr>"

definition sendCodec :: json_codec where
  "sendCodec = \<lparr>jsonToText = (\<lambda>ob. ''sent''), jsonFromText = (\<lambda>t. Some (JObject (config_toJson daemonNet twoRangesConfig)))\<rparr>"

theorem client_config_reaches_daemon_witness:
  "parseConfig daemonNet (jToObject (jsonFromText sendCodec (jsonToText sendCodec (config_toJson daemonNet twoRangesConfig)))) emptyConfig
     = Inr (Some (transported twoRangesConfig)) \<and>
   m_allowedIPAddressRanges (transported twoRangesConfig) = [ip4 0x0A000002 32, ip4 0 0]"
proof -
  have port: "- (2^31) \<le> m_serverPort twoRangesConfig" "m_serverPort twoRangesConfig < 2^31"
    by (simp_all add: twoRangesConfig_def exampleConfig_def)
  have ips: "\<forall>ip\<in>set (m_allowedIPAddressRanges twoRangesConfig). wf_ip ip \<and> addr_reads_back daemonNet (m_address ip)"
    by code_simp
  have codec: "reads_back sendCodec (config_toJson daemonNet twoRangesConfig)"
    by (simp add: reads_back_def sendCodec_def)
  have order: "m_allowedIPAddressRanges (transported twoRangesConfig) = [ip4 0x0A000002 32, ip4 0 0]"
    by code_simp
  show ?thesis
    using client_config_reaches_daemon [OF port ips codec] order by blast
qed

text \<open>
  C36. What the daemon accepts: a configuration it accepts has its two keys, a device address and a
  server address, a port of the \<open>int\<close> range, and ranges that are well-formed blocks, the more
  specific ones first.
\<close>

theorem parseConfig_sound:
  assumes "qt_net_ok Q" and "parseConfig Q obj emptyConfig = Inr (Some c)"
  shows "m_privateKey c \<noteq> None \<and> m_serverPublicKey c \<noteq> None \<and>
    (m_deviceIpv4Address c, m_deviceIpv6Address c) \<noteq> (None, None) \<and>
    (m_serverIpv4AddrIn c, m_serverIpv6AddrIn c) \<noteq> (None, None) \<and>
    - (2^31) \<le> m_serverPort c \<and> m_serverPort c < 2^31 \<and>
    (\<forall>ip\<in>set (m_allowedIPAddressRanges c). wf_ip ip) \<and>
    sorted_wrt (\<lambda>a b. m_prefixLength b \<le> m_prefixLength a) (m_allowedIPAddressRanges c)"
proof -
  from parseConfig_some [OF assms(2)] obtain pk spk r port c1 dns hop where
    port: "doubleToInt r = Inr port" and
    c1: "parseAddresses obj (emptyConfig\<lparr>m_privateKey := Some pk, m_serverPublicKey := Some spk, m_serverPort := port\<rparr>) = Some c1" and
    c: "parseAllowed Q obj (c1\<lparr>m_dnsServer := dns, m_hopType := hop\<rparr>) = Inr (Some c)"
    by metis
  note c1' = parseAddresses_some [OF c1]
  have none: "m_allowedIPAddressRanges c1 = []" using c1' by (simp add: emptyConfig_def)
  obtain ips apps where
    ips: "parseRanges Q (jToArray (jValue obj ''allowedIPAddressRanges'')) [] = Inr (Some ips)" and
    c': "c = c1\<lparr>m_dnsServer := dns, m_hopType := hop, m_allowedIPAddressRanges := sortByPrefix ips, m_vpnDisabledApps := apps\<rparr>"
    using parseAllowed_some [OF c] by (auto simp: none)
  have "- (2^31) \<le> port" "port < 2^31"
    using port by (auto simp: doubleToInt_def Let_def split: if_splits)
  moreover have "\<forall>ip\<in>set ips. wf_ip ip"
    using parseRanges_wf [OF assms(1) ips] by simp
  ultimately show ?thesis
    using c1' by (auto simp: c' sorted_sortByPrefix)
qed

theorem parseConfig_sound_witness:
  "parseConfig exampleNet (config_toJson exampleNet (exampleConfig\<lparr>m_allowedIPAddressRanges := [ip4 0x0A000002 32]\<rparr>)) emptyConfig
     = Inr (Some (transported (exampleConfig\<lparr>m_allowedIPAddressRanges := [ip4 0x0A000002 32]\<rparr>))) \<and>
   m_serverPort (transported (exampleConfig\<lparr>m_allowedIPAddressRanges := [ip4 0x0A000002 32]\<rparr>)) < 2^31"
proof -
  have run: "parseConfig exampleNet (config_toJson exampleNet (exampleConfig\<lparr>m_allowedIPAddressRanges := [ip4 0x0A000002 32]\<rparr>)) emptyConfig
     = Inr (Some (transported (exampleConfig\<lparr>m_allowedIPAddressRanges := [ip4 0x0A000002 32]\<rparr>)))"
    by (rule parseConfig_config_toJson) (simp add: exampleConfig_def, simp add: exampleConfig_def, code_simp)
  show ?thesis
    using run parseConfig_sound [OF exampleNet_ok run] by blast
qed

subsection \<open>Observation\<close>

text \<open>
  An address that Qt cannot read reaches the assertion of the address constructor: the daemon does
  not check it first.
\<close>

lemma parseRange_unreadable_address:
  assumes "protocol (qHostAddress Q s) = UnknownNetworkLayerProtocol"
  shows "parseRange Q (JObject [(''address'', JString s), (''range'', JDouble r), (''isIpv6'', JBool b)]) = Inl Assertion_failed"
  using assms by (simp add: parseRange_def IPAddress_fromPrefix_def jValue_def Let_def)

end
