(* ===== verification/Daemon.thy ===== *)
theory Daemon
  imports Daemon_Config
begin

text \<open>
  \<^verbatim>\<open>src/src/daemon/daemon.cpp\<close> and \<^verbatim>\<open>daemon.h\<close>: the privileged process that owns the
  tunnel.  It keeps one connection per hop, drives the platform's WireGuard, routing and DNS
  utilities, and polls for handshakes.  The utilities are virtual classes
  (\<^verbatim>\<open>wireguardutils.h\<close>, \<^verbatim>\<open>dnsutils.h\<close>, \<^verbatim>\<open>iputils.h\<close>); the record \<open>backend\<close> holds their
  operations on the platform's state, and the theorems hold for every such record.  The mock
  utilities of \<^verbatim>\<open>src/src/daemon/mock\<close> are one of them, and the contract \<open>peer_backend\<close> is
  discharged for it.

  \<open>Daemon::activate\<close> calls the virtual functions \<open>activate\<close> and \<open>deactivate\<close> again; its body
  takes them as arguments, and \<open>daemon_activate\<close> ties the knot for the base class.
\<close>

subsection \<open>The platform's utilities\<close>

datatype Op = Up | Down | Switch

record PeerStatus =
  m_pubkey :: string
  m_handshake :: int
  m_rxBytes :: int
  m_txBytes :: int

record 'b backend =
  interfaceExists :: "'b \<Rightarrow> bool"
  interfaceName :: "'b \<Rightarrow> string"
  addInterface :: "InterfaceConfig \<Rightarrow> 'b \<Rightarrow> bool \<times> 'b"
  deleteInterface :: "'b \<Rightarrow> bool \<times> 'b"
  updatePeer :: "InterfaceConfig \<Rightarrow> 'b \<Rightarrow> bool \<times> 'b"
  deletePeer :: "InterfaceConfig \<Rightarrow> 'b \<Rightarrow> bool \<times> 'b"
  getPeerStatus :: "'b \<Rightarrow> PeerStatus list"
  updateRoutePrefix :: "IPAddress \<Rightarrow> 'b \<Rightarrow> bool \<times> 'b"
  deleteRoutePrefix :: "IPAddress \<Rightarrow> 'b \<Rightarrow> bool \<times> 'b"
  excludeLocalNetworks :: "IPAddress list \<Rightarrow> 'b \<Rightarrow> bool \<times> 'b"
  hasIPUtils :: bool
  addInterfaceIPs :: "InterfaceConfig \<Rightarrow> 'b \<Rightarrow> bool \<times> 'b"
  setMTUAndUp :: "InterfaceConfig \<Rightarrow> 'b \<Rightarrow> bool \<times> 'b"
  updateResolvers :: "string \<Rightarrow> QHostAddress list \<Rightarrow> 'b \<Rightarrow> bool \<times> 'b"
  restoreResolvers :: "'b \<Rightarrow> bool \<times> 'b"
  daemonRun :: "Op \<Rightarrow> InterfaceConfig \<Rightarrow> 'b \<Rightarrow> bool \<times> 'b"

subsection \<open>State\<close>

text \<open>\<open>m_date\<close> is the time of the handshake in milliseconds, or nothing while it is invalid.\<close>

record ConnectionState =
  m_date :: "int option"
  m_config :: InterfaceConfig

datatype daemon_signal = Connected string | ActivationFailure | Disconnected | BackendFailure

record 'b Daemon =
  m_connections :: "HopType \<Rightarrow> ConnectionState option"
  m_pollTimer :: "int option"
  d_signals :: "daemon_signal list"
  d_backend :: 'b

definition HANDSHAKE_POLL_MSEC :: int where
  "HANDSHAKE_POLL_MSEC = 250"

definition newConnection :: "InterfaceConfig \<Rightarrow> ConnectionState" where
  "newConnection config = \<lparr>m_date = None, m_config = config\<rparr>"

definition newDaemon :: "'b \<Rightarrow> 'b Daemon" where
  "newDaemon b = \<lparr>m_connections = (\<lambda>_. None), m_pollTimer = None, d_signals = [], d_backend = b\<rparr>"

text \<open>\<open>QMap\<close> iterates in the order of the keys.\<close>

definition hops :: "HopType list" where
  "hops = [SingleHop, MultiHopEntry, MultiHopExit]"

definition connectionList :: "('b, 'z) Daemon_scheme \<Rightarrow> ConnectionState list" where
  "connectionList d = List.map_filter (m_connections d) hops"

definition d_emit :: "daemon_signal \<Rightarrow> ('b, 'z) Daemon_scheme \<Rightarrow> ('b, 'z) Daemon_scheme" where
  "d_emit s d = d\<lparr>d_signals := d_signals d @ [s]\<rparr>"

text \<open>Answer and new state of an operation that may fail an assertion.\<close>

type_synonym 'd outcome = "fault + bool \<times> 'd"

text \<open>A call of a utility, and going on only when it answered true.\<close>

definition dcall :: "('b \<Rightarrow> bool \<times> 'b) \<Rightarrow> ('b, 'z) Daemon_scheme \<Rightarrow> ('b, 'z) Daemon_scheme outcome" where
  "dcall op d = (let (ok, b) = op (d_backend d) in Inr (ok, d\<lparr>d_backend := b\<rparr>))"

definition andThen :: "'d outcome \<Rightarrow> ('d \<Rightarrow> 'd outcome) \<Rightarrow> 'd outcome" where
  "andThen m k = fbind m (\<lambda>(ok, d). if ok then k d else Inr (False, d))"

text \<open>A call whose answer is not looked at.\<close>

definition dignore :: "('b \<Rightarrow> bool \<times> 'b) \<Rightarrow> ('b, 'z) Daemon_scheme \<Rightarrow> ('b, 'z) Daemon_scheme" where
  "dignore op d = d\<lparr>d_backend := snd (op (d_backend d))\<rparr>"

subsection \<open>Activation\<close>

definition maybeUpdateResolvers ::
    "'b backend \<Rightarrow> qt_net \<Rightarrow> InterfaceConfig \<Rightarrow> ('b, 'z) Daemon_scheme \<Rightarrow> ('b, 'z) Daemon_scheme outcome" where
  "maybeUpdateResolvers B Q config d =
     (if m_hopType config = MultiHopExit \<or> m_hopType config = SingleHop then
        (let resolvers = [qHostAddress Q (qtext (m_dnsServer config))] @
               (if qEq (m_dnsServer config) (m_serverIpv4Gateway config)
                then [qHostAddress Q (qtext (m_serverIpv6Gateway config))] else [])
         in dcall (updateResolvers B (interfaceName B (d_backend d)) resolvers) d)
      else Inr (True, d))"

fun updateRoutes :: "'b backend \<Rightarrow> IPAddress list \<Rightarrow> ('b, 'z) Daemon_scheme \<Rightarrow> ('b, 'z) Daemon_scheme outcome" where
  "updateRoutes B [] d = Inr (True, d)"
| "updateRoutes B (ip # ips) d = andThen (dcall (updateRoutePrefix B ip) d) (updateRoutes B ips)"

text \<open>The connection is recorded and the poll starts.\<close>

definition recordConnection :: "InterfaceConfig \<Rightarrow> ('b, 'z) Daemon_scheme \<Rightarrow> ('b, 'z) Daemon_scheme" where
  "recordConnection config d =
     d\<lparr>m_connections := (m_connections d)(m_hopType config := Some (newConnection config)),
       m_pollTimer := Some HANDSHAKE_POLL_MSEC\<rparr>"

definition createInterface ::
    "'b backend \<Rightarrow> qt_net \<Rightarrow> InterfaceConfig \<Rightarrow> ('b, 'z) Daemon_scheme \<Rightarrow> ('b, 'z) Daemon_scheme outcome" where
  "createInterface B Q config d =
     andThen (dcall (addInterface B config) d) (\<lambda>d.
     andThen (if hasIPUtils B then andThen (dcall (addInterfaceIPs B config) d) (dcall (setMTUAndUp B config))
              else Inr (True, d)) (\<lambda>d.
     (if None \<in> set (lanAddressRanges Q) then Inl Assertion_failed
      else dcall (excludeLocalNetworks B (map the (lanAddressRanges Q))) d)))"

definition bringUp ::
    "'b backend \<Rightarrow> qt_net \<Rightarrow> InterfaceConfig \<Rightarrow> ('b, 'z) Daemon_scheme \<Rightarrow> ('b, 'z) Daemon_scheme outcome" where
  "bringUp B Q config d =
     andThen (if \<not> interfaceExists B (d_backend d) then createInterface B Q config d else Inr (True, d)) (\<lambda>d.
     andThen (dcall (updatePeer B config) d) (\<lambda>d.
     andThen (maybeUpdateResolvers B Q config d) (\<lambda>d.
     andThen (updateRoutes B (m_allowedIPAddressRanges config) d) (\<lambda>d.
     andThen (dcall (daemonRun B Up config) d) (\<lambda>d.
       Inr (True, recordConnection config d))))))"

subsection \<open>Server switching\<close>

definition supportServerSwitching :: "InterfaceConfig \<Rightarrow> ('b, 'z) Daemon_scheme \<Rightarrow> bool" where
  "supportServerSwitching config d =
     (case m_connections d (m_hopType config) of
        None \<Rightarrow> False
      | Some state \<Rightarrow>
          (let current = m_config state in
           qEq (m_privateKey current) (m_privateKey config) \<and>
           qEq (m_deviceIpv4Address current) (m_deviceIpv4Address config) \<and>
           qEq (m_deviceIpv6Address current) (m_deviceIpv6Address config) \<and>
           qEq (m_serverIpv4Gateway current) (m_serverIpv4Gateway config) \<and>
           qEq (m_serverIpv6Gateway current) (m_serverIpv6Gateway config)))"

text \<open>The loop over the new routes stops at the first failure and goes on.\<close>

fun switchRoutes :: "'b backend \<Rightarrow> IPAddress list \<Rightarrow> ('b, 'z) Daemon_scheme \<Rightarrow> ('b, 'z) Daemon_scheme" where
  "switchRoutes B [] d = d"
| "switchRoutes B (ip # ips) d =
     (let (ok, b) = updateRoutePrefix B ip (d_backend d); d' = d\<lparr>d_backend := b\<rparr> in
      if ok then switchRoutes B ips d' else d')"

fun deleteRoutes :: "'b backend \<Rightarrow> IPAddress list \<Rightarrow> ('b, 'z) Daemon_scheme \<Rightarrow> ('b, 'z) Daemon_scheme" where
  "deleteRoutes B [] d = d"
| "deleteRoutes B (ip # ips) d = deleteRoutes B ips (dignore (deleteRoutePrefix B ip) d)"

definition switchServer ::
    "'b backend \<Rightarrow> InterfaceConfig \<Rightarrow> ('b, 'z) Daemon_scheme \<Rightarrow> ('b, 'z) Daemon_scheme outcome" where
  "switchServer B config d =
     (case m_connections d (m_hopType config) of
        None \<Rightarrow> Inl Assertion_failed
      | Some state \<Rightarrow>
          (let lastConfig = m_config state in
           andThen (dcall (updatePeer B config) d) (\<lambda>d.
           (let d = switchRoutes B (m_allowedIPAddressRanges config) d;
                d = deleteRoutes B
                      (filter (\<lambda>ip. \<not> list_ex (ip_equal ip) (m_allowedIPAddressRanges config))
                         (m_allowedIPAddressRanges lastConfig)) d
            in andThen (if \<not> qEq (m_serverPublicKey config) (m_serverPublicKey lastConfig)
                        then dcall (deletePeer B lastConfig) d else Inr (True, d)) (\<lambda>d.
               Inr (True, d\<lparr>m_connections := (m_connections d)(m_hopType config := Some (newConnection config))\<rparr>))))))"

subsection \<open>Deactivation\<close>

fun deletePeers :: "'b backend \<Rightarrow> ConnectionState list \<Rightarrow> ('b, 'z) Daemon_scheme \<Rightarrow> ('b, 'z) Daemon_scheme" where
  "deletePeers B [] d = d"
| "deletePeers B (state # rest) d =
     (let d = deleteRoutes B (m_allowedIPAddressRanges (m_config state)) d
      in deletePeers B rest (dignore (deletePeer B (m_config state)) d))"

definition daemon_deactivate ::
    "'b backend \<Rightarrow> bool \<Rightarrow> ('b, 'z) Daemon_scheme \<Rightarrow> ('b, 'z) Daemon_scheme outcome" where
  "daemon_deactivate B emitSignals d =
     andThen (case connectionList d of
                [] \<Rightarrow> Inr (True, d)
              | state # _ \<Rightarrow> dcall (daemonRun B Down (m_config state)) d) (\<lambda>d.
     (let d = dignore (restoreResolvers B) d;
          d = deletePeers B (connectionList d) d;
          d = d\<lparr>m_connections := (\<lambda>_. None)\<rparr>
      in fbind (dcall (deleteInterface B) d) (\<lambda>(ok, d).
           Inr (ok, if emitSignals then d_emit Disconnected d else d))))"

text \<open>The scope guard: a return with \<open>false\<close> announces the failure.\<close>

definition failureGuard :: "('b, 'z) Daemon_scheme outcome \<Rightarrow> ('b, 'z) Daemon_scheme outcome" where
  "failureGuard m = fbind m (\<lambda>(ok, d). Inr (ok, if ok then d else d_emit ActivationFailure d))"

definition activate_body ::
    "'b backend \<Rightarrow> qt_net \<Rightarrow>
     (InterfaceConfig \<Rightarrow> ('b, 'z) Daemon_scheme \<Rightarrow> ('b, 'z) Daemon_scheme outcome) \<Rightarrow>
     (bool \<Rightarrow> ('b, 'z) Daemon_scheme \<Rightarrow> ('b, 'z) Daemon_scheme outcome) \<Rightarrow>
     InterfaceConfig \<Rightarrow> ('b, 'z) Daemon_scheme \<Rightarrow> ('b, 'z) Daemon_scheme outcome" where
  "activate_body B Q self_activate self_deactivate config d = failureGuard
     (if m_connections d (m_hopType config) \<noteq> None then
        (if supportServerSwitching config d then
           andThen (switchServer B config d) (\<lambda>d.
           andThen (dcall (restoreResolvers B) d) (\<lambda>d.
           andThen (maybeUpdateResolvers B Q config d) (\<lambda>d.
           andThen (dcall (daemonRun B Switch config) d) (\<lambda>d.
             Inr (True, recordConnection config d)))))
         else
           andThen (self_deactivate False d) (\<lambda>d.
             fassert (m_connections d (m_hopType config) = None) (self_activate config d)))
      else bringUp B Q config d)"

text \<open>
  The base class.  After the nested \<open>deactivate\<close> no connection is left, so the nested \<open>activate\<close>
  does not nest again: the inner call never reaches its own nested call.
\<close>

definition daemon_activate ::
    "'b backend \<Rightarrow> qt_net \<Rightarrow> InterfaceConfig \<Rightarrow> ('b, 'z) Daemon_scheme \<Rightarrow> ('b, 'z) Daemon_scheme outcome" where
  "daemon_activate B Q =
     activate_body B Q (activate_body B Q (\<lambda>_ _. Inl Assertion_failed) (daemon_deactivate B)) (daemon_deactivate B)"

text \<open>\<open>activate(const QString&)\<close>.\<close>

definition daemon_activate_text ::
    "'b backend \<Rightarrow> qt_net \<Rightarrow> json_codec \<Rightarrow> string \<Rightarrow> ('b, 'z) Daemon_scheme \<Rightarrow> ('b, 'z) Daemon_scheme outcome" where
  "daemon_activate_text B Q C json d =
     fbind (parseConfig Q (jToObject (jsonFromText C json)) emptyConfig) (\<lambda>r.
       case r of None \<Rightarrow> Inr (False, d) | Some config \<Rightarrow> daemon_activate B Q config d)"

definition abortBackendFailure :: "'b backend \<Rightarrow> ('b, 'z) Daemon_scheme \<Rightarrow> ('b, 'z) Daemon_scheme outcome" where
  "abortBackendFailure B d = daemon_deactivate B True (d_emit BackendFailure d)"

subsection \<open>Status and handshakes\<close>

fun peerStatusJson :: "(int option \<Rightarrow> string) \<Rightarrow> ConnectionState \<Rightarrow> PeerStatus list \<Rightarrow> json_object \<Rightarrow> json_object option" where
  "peerStatusJson dateText connection [] json = None"
| "peerStatusJson dateText connection (status # rest) json =
     (if m_pubkey status \<noteq> qtext (m_serverPublicKey (m_config connection)) then
        peerStatusJson dateText connection rest json
      else Some
        (jInsert ''rxBytes'' (JDouble (of_int (m_rxBytes status)))
        (jInsert ''txBytes'' (JDouble (of_int (m_txBytes status)))
        (jInsert ''date'' (JString (dateText (m_date connection)))
        (jInsert ''deviceIpv4Address'' (jString (m_deviceIpv4Address (m_config connection)))
        (jInsert ''serverIpv4Gateway'' (jString (m_serverIpv4Gateway (m_config connection)))
        (jInsert ''connected'' (JBool True) json)))))))"

definition getStatus ::
    "'b backend \<Rightarrow> (int option \<Rightarrow> string) \<Rightarrow> string \<Rightarrow> string list \<Rightarrow> ('b, 'z) Daemon_scheme \<Rightarrow> json_object" where
  "getStatus B dateText version features d =
     (let json = jInsert ''features'' (JArray (map JString features)) (jInsert ''version'' (JString version) [])
      in case connectionList d of
           [] \<Rightarrow> jInsert ''connected'' (JBool False) json
         | connection # _ \<Rightarrow>
             (if \<not> interfaceExists B (d_backend d) then jInsert ''connected'' (JBool False) json
              else case peerStatusJson dateText connection (getPeerStatus B (d_backend d)) json of
                Some json' \<Rightarrow> json' | None \<Rightarrow> jInsert ''connected'' (JBool False) json))"

text \<open>The inner loop of \<open>checkHandshake\<close>: every matching status sets the date and is announced.\<close>

fun checkPeers :: "PeerStatus list \<Rightarrow> ConnectionState \<Rightarrow> daemon_signal list \<Rightarrow> ConnectionState \<times> daemon_signal list" where
  "checkPeers [] connection sigs = (connection, sigs)"
| "checkPeers (status # rest) connection sigs =
     (if qtext (m_serverPublicKey (m_config connection)) \<noteq> m_pubkey status then checkPeers rest connection sigs
      else if m_handshake status \<noteq> 0 then
        checkPeers rest (connection\<lparr>m_date := Some (m_handshake status)\<rparr>) (sigs @ [Connected (m_pubkey status)])
      else checkPeers rest connection sigs)"

fun checkConnections :: "PeerStatus list \<Rightarrow> HopType list \<Rightarrow> int \<Rightarrow> ('b, 'z) Daemon_scheme \<Rightarrow> int \<times> ('b, 'z) Daemon_scheme" where
  "checkConnections peers [] pending d = (pending, d)"
| "checkConnections peers (h # rest) pending d =
     (case m_connections d h of
        None \<Rightarrow> checkConnections peers rest pending d
      | Some connection \<Rightarrow>
          (if m_date connection \<noteq> None then checkConnections peers rest pending d
           else
             (let (connection', sigs) = checkPeers peers connection (d_signals d);
                  d' = d\<lparr>m_connections := (m_connections d)(h := Some connection'), d_signals := sigs\<rparr>;
                  pending' = (if m_date connection' = None then pending + 1 else pending)
              in checkConnections peers rest pending' d')))"

definition checkHandshake :: "'b backend \<Rightarrow> ('b, 'z) Daemon_scheme \<Rightarrow> ('b, 'z) Daemon_scheme" where
  "checkHandshake B d =
     (let (pending, d') = checkConnections (getPeerStatus B (d_backend d)) hops 0 d
      in if pending > 0 then d'\<lparr>m_pollTimer := Some HANDSHAKE_POLL_MSEC\<rparr> else d')"

text \<open>The single-shot timer fires.\<close>

definition firePollTimer :: "'b backend \<Rightarrow> ('b, 'z) Daemon_scheme \<Rightarrow> ('b, 'z) Daemon_scheme" where
  "firePollTimer B d = (if m_pollTimer d = None then d else checkHandshake B (d\<lparr>m_pollTimer := None\<rparr>))"

subsection \<open>Reasoning about outcomes\<close>

text \<open>\<open>post m P\<close>: when \<open>m\<close> returns, its answer and state satisfy \<open>P\<close>.\<close>

definition post :: "'d outcome \<Rightarrow> (bool \<Rightarrow> 'd \<Rightarrow> bool) \<Rightarrow> bool" where
  "post m P \<longleftrightarrow> (\<forall>ok d. m = Inr (ok, d) \<longrightarrow> P ok d)"

lemma postD: "post m P \<Longrightarrow> m = Inr (ok, d) \<Longrightarrow> P ok d"
  by (simp add: post_def)

lemma post_return [simp]: "post (Inr (ok, d)) P \<longleftrightarrow> P ok d" "post (Inl f) P"
  by (simp_all add: post_def)

lemma post_weaken: "post m P \<Longrightarrow> (\<And>ok d. P ok d \<Longrightarrow> R ok d) \<Longrightarrow> post m R"
  by (simp add: post_def)

lemma post_andThen:
  assumes "post m R" "\<And>d. R True d \<Longrightarrow> post (k d) P" "\<And>d. R False d \<Longrightarrow> P False d"
  shows "post (andThen m k) P"
  using assms by (auto simp: post_def andThen_def fbind_def split: sum.splits if_splits)

lemma post_dcall: "post (dcall op d) P \<longleftrightarrow> (\<forall>ok b. op (d_backend d) = (ok, b) \<longrightarrow> P ok (d\<lparr>d_backend := b\<rparr>))"
  by (auto simp: dcall_def split: prod.splits)

lemma andThen_Inr [simp]: "andThen (Inr (ok, d)) k = (if ok then k d else Inr (False, d))"
  by (simp add: andThen_def)

text \<open>Steps that touch the backend only, keeping a property \<open>K\<close> of it.\<close>

definition moved :: "('b \<Rightarrow> bool) \<Rightarrow> ('b, 'z) Daemon_scheme \<Rightarrow> ('b, 'z) Daemon_scheme \<Rightarrow> bool" where
  "moved K d d' \<longleftrightarrow> (\<exists>b. d' = d\<lparr>d_backend := b\<rparr> \<and> K b)"

lemma moved_simps:
  assumes "moved K d d'"
  shows "m_connections d' = m_connections d" "m_pollTimer d' = m_pollTimer d" "d_signals d' = d_signals d"
    "Daemon.more d' = Daemon.more d" "K (d_backend d')" "connectionList d' = connectionList d"
  using assms by (auto simp: moved_def connectionList_def)

lemma moved_trans: "moved K d d' \<Longrightarrow> moved L d' d'' \<Longrightarrow> moved L d d''"
  by (auto simp: moved_def)

lemma moved_refl: "K (d_backend d) \<Longrightarrow> moved K d d"
  by (auto simp: moved_def intro!: exI [of _ "d_backend d"])

lemma moved_mono: "moved K d d' \<Longrightarrow> (\<And>b. K b \<Longrightarrow> L b) \<Longrightarrow> moved L d d'"
  by (auto simp: moved_def)

lemma moved_orI:
  "moved K d d' \<Longrightarrow> moved (\<lambda>b. K b \<or> L b) d d'" "moved L d d' \<Longrightarrow> moved (\<lambda>b. K b \<or> L b) d d'"
  by (auto simp: moved_def)

lemma post_dcall_moved:
  "(\<And>ok b. op (d_backend d) = (ok, b) \<Longrightarrow> K b) \<Longrightarrow> post (dcall op d) (\<lambda>ok. moved K d)"
  by (auto simp: post_dcall moved_def)

text \<open>A list of steps, each of which keeps \<open>K\<close>.\<close>

definition op_keeps :: "('b \<Rightarrow> bool) \<Rightarrow> ('b \<Rightarrow> bool \<times> 'b) \<Rightarrow> bool" where
  "op_keeps K op \<longleftrightarrow> (\<forall>b. K b \<longrightarrow> K (snd (op b)))"

lemma op_keepsD: "op_keeps K op \<Longrightarrow> K b \<Longrightarrow> op b = (ok, b') \<Longrightarrow> K b'"
  by (auto simp: op_keeps_def dest: spec [of _ b])

lemma post_dcall_keeps: "op_keeps K op \<Longrightarrow> K (d_backend d) \<Longrightarrow> post (dcall op d) (\<lambda>ok. moved K d)"
  by (rule post_dcall_moved) (rule op_keepsD)

lemma post_from: "post m (\<lambda>ok. moved L d1) \<Longrightarrow> moved K d d1 \<Longrightarrow> post m (\<lambda>ok. moved L d)"
  by (erule post_weaken) (rule moved_trans)

lemma post_dcall_from: "op_keeps K op \<Longrightarrow> moved K d d1 \<Longrightarrow> post (dcall op d1) (\<lambda>ok. moved K d)"
  by (rule post_from [OF post_dcall_keeps]) (simp_all add: moved_simps)

lemma updateRoutes_keeps:
  assumes "\<And>ip. op_keeps K (updateRoutePrefix B ip)"
  shows "K (d_backend d) \<Longrightarrow> post (updateRoutes B ips d) (\<lambda>ok. moved K d)"
proof (induction ips arbitrary: d)
  case Nil
  then show ?case by (simp add: moved_refl)
next
  case (Cons ip ips)
  show ?case
    unfolding updateRoutes.simps
  proof (rule post_andThen [OF post_dcall_keeps [OF assms Cons.prems]])
    fix d1 assume "moved K d d1"
    then show "post (updateRoutes B ips d1) (\<lambda>ok. moved K d)"
      using Cons.IH [of d1] by (auto intro: post_weaken moved_trans simp: moved_simps)
  qed
qed

lemma maybeUpdateResolvers_keeps:
  assumes "\<And>n rs. op_keeps K (updateResolvers B n rs)" "K (d_backend d)"
  shows "post (maybeUpdateResolvers B Q c d) (\<lambda>ok. moved K d)"
  using assms by (auto simp: maybeUpdateResolvers_def Let_def intro: post_dcall_keeps moved_refl)

lemma dignore_moved: "op_keeps K op \<Longrightarrow> K (d_backend d) \<Longrightarrow> moved K d (dignore op d)"
  by (auto simp: dignore_def moved_def op_keeps_def)

lemma deleteRoutes_moved:
  assumes "\<And>ip. op_keeps K (deleteRoutePrefix B ip)"
  shows "K (d_backend d) \<Longrightarrow> moved K d (deleteRoutes B ips d)"
proof (induction ips arbitrary: d)
  case Nil
  then show ?case by (simp add: moved_refl)
next
  case (Cons ip ips)
  have "moved K d (dignore (deleteRoutePrefix B ip) d)"
    by (rule dignore_moved [OF assms Cons.prems])
  then show ?case
    using Cons.IH [of "dignore (deleteRoutePrefix B ip) d"] by (auto intro: moved_trans simp: moved_simps)
qed

lemma switchRoutes_moved:
  assumes "\<And>ip. op_keeps K (updateRoutePrefix B ip)"
  shows "K (d_backend d) \<Longrightarrow> moved K d (switchRoutes B ips d)"
proof (induction ips arbitrary: d)
  case Nil
  then show ?case by (simp add: moved_refl)
next
  case (Cons ip ips)
  obtain ok b where b: "updateRoutePrefix B ip (d_backend d) = (ok, b)" by fastforce
  then have K: "K b" using op_keepsD [OF assms Cons.prems b] by simp
  then have "moved K d (d\<lparr>d_backend := b\<rparr>)" by (auto simp: moved_def)
  then show ?case
    using Cons.IH [of "d\<lparr>d_backend := b\<rparr>"] b K by (auto intro: moved_trans simp: Let_def)
qed

lemma op_keeps_True [simp]: "op_keeps (\<lambda>_. True) op"
  by (simp add: op_keeps_def)

abbreviation touches_backend :: "('b, 'z) Daemon_scheme \<Rightarrow> ('b, 'z) Daemon_scheme \<Rightarrow> bool" where
  "touches_backend \<equiv> moved (\<lambda>_. True)"

text \<open>
  The phases of an activation: \<open>K\<close> holds of the backend until the peer is added, \<open>L\<close> afterwards.
\<close>

definition phases :: "'b backend \<Rightarrow> InterfaceConfig \<Rightarrow> ('b \<Rightarrow> bool) \<Rightarrow> ('b \<Rightarrow> bool) \<Rightarrow> bool" where
  "phases B c K L \<longleftrightarrow>
     op_keeps K (addInterface B c) \<and> op_keeps K (addInterfaceIPs B c) \<and> op_keeps K (setMTUAndUp B c) \<and>
     (\<forall>ips. op_keeps K (excludeLocalNetworks B ips)) \<and>
     (\<forall>b ok b'. K b \<longrightarrow> updatePeer B c b = (ok, b') \<longrightarrow> (if ok then L b' else K b')) \<and>
     (\<forall>n rs. op_keeps L (updateResolvers B n rs)) \<and> (\<forall>ip. op_keeps L (updateRoutePrefix B ip)) \<and>
     (\<forall>op c'. op_keeps L (daemonRun B op c'))"

lemma phases_True: "phases B c (\<lambda>_. True) (\<lambda>_. True)"
  by (simp add: phases_def)

lemma createInterface_keeps:
  assumes P: "phases B c K L" and K: "K (d_backend d)"
  shows "post (createInterface B Q c d) (\<lambda>ok. moved K d)"
  unfolding createInterface_def
proof (rule post_andThen [OF post_dcall_keeps])
  show "op_keeps K (addInterface B c)" "K (d_backend d)" using P K by (simp_all add: phases_def)
  fix d1 assume d1: "moved K d d1"
  show "post (andThen (if hasIPUtils B then andThen (dcall (addInterfaceIPs B c) d1) (dcall (setMTUAndUp B c))
          else Inr (True, d1)) (\<lambda>d. if None \<in> set (lanAddressRanges Q) then Inl Assertion_failed
          else dcall (excludeLocalNetworks B (map the (lanAddressRanges Q))) d)) (\<lambda>ok. moved K d)"
  proof (rule post_andThen [where R = "\<lambda>ok. moved K d"])
    have "post (andThen (dcall (addInterfaceIPs B c) d1) (dcall (setMTUAndUp B c))) (\<lambda>ok. moved K d)"
    proof (rule post_andThen [OF post_dcall_keeps])
      show "op_keeps K (addInterfaceIPs B c)" "K (d_backend d1)" using P d1 by (simp_all add: phases_def moved_simps)
      fix d2 assume "moved K d1 d2"
      then show d2: "moved K d d2" by (rule moved_trans [OF d1])
      show "post (dcall (setMTUAndUp B c) d2) (\<lambda>ok. moved K d)"
        using P by (intro post_dcall_from [OF _ d2]) (simp add: phases_def)
    qed
    then show "post (if hasIPUtils B then andThen (dcall (addInterfaceIPs B c) d1) (dcall (setMTUAndUp B c))
          else Inr (True, d1)) (\<lambda>ok. moved K d)"
      using d1 by simp
    fix d2 assume "moved K d d2"
    then show "post (if None \<in> set (lanAddressRanges Q) then Inl Assertion_failed
          else dcall (excludeLocalNetworks B (map the (lanAddressRanges Q))) d2) (\<lambda>ok. moved K d)"
      using P by (simp add: phases_def post_dcall_from)
  qed
qed

definition brought_up ::
    "InterfaceConfig \<Rightarrow> ('b \<Rightarrow> bool) \<Rightarrow> ('b \<Rightarrow> bool) \<Rightarrow> ('b, 'z) Daemon_scheme \<Rightarrow> bool \<Rightarrow> ('b, 'z) Daemon_scheme \<Rightarrow> bool" where
  "brought_up c K L d ok d' \<longleftrightarrow>
     (if ok then \<exists>d1. moved L d d1 \<and> d' = recordConnection c d1 else moved (\<lambda>b. K b \<or> L b) d d')"

lemma post_step:
  assumes "post m (\<lambda>ok. moved L d1)" "moved L d d1"
    and "\<And>d2. moved L d d2 \<Longrightarrow> post (k d2) (brought_up c K L d)"
  shows "post (andThen m k) (brought_up c K L d)"
  using post_from [OF assms(1,2)] assms(3)
  by (rule post_andThen) (auto simp: brought_up_def intro: moved_mono)

lemma bringUp_post:
  assumes P: "phases B c K L" and K: "K (d_backend d)"
  shows "post (bringUp B Q c d) (brought_up c K L d)"
  unfolding bringUp_def
proof (rule post_andThen [where R = "\<lambda>ok. moved K d"])
  show "post (if \<not> interfaceExists B (d_backend d) then createInterface B Q c d else Inr (True, d)) (\<lambda>ok. moved K d)"
    using createInterface_keeps [OF P K] K by (simp add: moved_refl)
  show "\<And>d1. moved K d d1 \<Longrightarrow> brought_up c K L d False d1"
    by (auto simp: brought_up_def moved_def)
  fix d1 assume d1: "moved K d d1"
  show "post (andThen (dcall (updatePeer B c) d1) (\<lambda>d.
     andThen (maybeUpdateResolvers B Q c d) (\<lambda>d.
     andThen (updateRoutes B (m_allowedIPAddressRanges c) d) (\<lambda>d.
     andThen (dcall (daemonRun B Up c) d) (\<lambda>d. Inr (True, recordConnection c d)))))) (brought_up c K L d)"
  proof (rule post_andThen [where R = "\<lambda>ok. if ok then moved L d else moved K d"])
    show "post (dcall (updatePeer B c) d1) (\<lambda>ok. if ok then moved L d else moved K d)"
      unfolding post_dcall
    proof (intro allI impI)
      fix ok b assume b: "updatePeer B c (d_backend d1) = (ok, b)"
      have "K (d_backend d1)" using d1 by (rule moved_simps)
      then have "if ok then L b else K b" using P b unfolding phases_def by blast
      moreover obtain b1 where "d1 = d\<lparr>d_backend := b1\<rparr>" using d1 by (auto simp: moved_def)
      ultimately show "(if ok then moved L d else moved K d) (d1\<lparr>d_backend := b\<rparr>)"
        by (cases ok) (auto simp: moved_def)
    qed
  next
    fix d2 assume "(if True then moved L d else moved K d) d2"
    then have d2: "moved L d d2" by simp
    show "post (andThen (maybeUpdateResolvers B Q c d2) (\<lambda>d.
        andThen (updateRoutes B (m_allowedIPAddressRanges c) d) (\<lambda>d.
        andThen (dcall (daemonRun B Up c) d) (\<lambda>d. Inr (True, recordConnection c d))))) (brought_up c K L d)"
    proof (rule post_step [OF maybeUpdateResolvers_keeps d2])
      show "\<And>n rs. op_keeps L (updateResolvers B n rs)" "L (d_backend d2)"
        using P d2 by (simp_all add: phases_def moved_simps)
      fix d3 assume d3: "moved L d d3"
      show "post (andThen (updateRoutes B (m_allowedIPAddressRanges c) d3) (\<lambda>d.
        andThen (dcall (daemonRun B Up c) d) (\<lambda>d. Inr (True, recordConnection c d)))) (brought_up c K L d)"
      proof (rule post_step [OF updateRoutes_keeps d3])
        show "\<And>ip. op_keeps L (updateRoutePrefix B ip)" "L (d_backend d3)"
          using P d3 by (simp_all add: phases_def moved_simps)
        fix d4 assume d4: "moved L d d4"
        show "post (andThen (dcall (daemonRun B Up c) d4) (\<lambda>d. Inr (True, recordConnection c d))) (brought_up c K L d)"
          by (rule post_step [OF post_dcall_keeps d4])
             (use P d4 in \<open>auto simp: phases_def moved_simps brought_up_def\<close>)
      qed
    qed
  qed (auto simp: brought_up_def moved_def)
qed

lemma deletePeers_moved:
  assumes "\<And>ip. op_keeps K (deleteRoutePrefix B ip)"
  shows "\<forall>s\<in>set ss. op_keeps K (deletePeer B (m_config s)) \<Longrightarrow> K (d_backend d) \<Longrightarrow> moved K d (deletePeers B ss d)"
proof (induction ss arbitrary: d)
  case Nil
  then show ?case by (simp add: moved_refl)
next
  case (Cons s ss)
  define d1 where "d1 = deleteRoutes B (m_allowedIPAddressRanges (m_config s)) d"
  have d1: "moved K d d1" unfolding d1_def by (rule deleteRoutes_moved [OF assms Cons.prems(2)])
  have d2: "moved K d1 (dignore (deletePeer B (m_config s)) d1)"
    using Cons.prems(1) d1 by (auto intro: dignore_moved simp: moved_simps)
  have "moved K (dignore (deletePeer B (m_config s)) d1) (deletePeers B ss (dignore (deletePeer B (m_config s)) d1))"
    using Cons.prems(1) d2 by (intro Cons.IH) (auto simp: moved_simps)
  then show ?case
    using moved_trans [OF moved_trans [OF d1 d2]] by (simp add: d1_def)
qed

text \<open>The rest of a deactivation, once the platform's \<open>Down\<close> step was accepted.\<close>

definition takeDown :: "'b backend \<Rightarrow> ('b, 'z) Daemon_scheme \<Rightarrow> ('b, 'z) Daemon_scheme" where
  "takeDown B d = (let d = dignore (restoreResolvers B) d in deletePeers B (connectionList d) d)"

lemma takeDown_moved: "touches_backend d (takeDown B d)"
proof -
  have "touches_backend d (dignore (restoreResolvers B) d)" by (rule dignore_moved) simp_all
  then show ?thesis
    unfolding takeDown_def Let_def
    using deletePeers_moved [of "\<lambda>_. True" B "connectionList (dignore (restoreResolvers B) d)" "dignore (restoreResolvers B) d"]
    by (auto intro: moved_trans)
qed

definition downAccepted :: "'b backend \<Rightarrow> ('b, 'z) Daemon_scheme \<Rightarrow> bool \<times> ('b, 'z) Daemon_scheme" where
  "downAccepted B d = (case connectionList d of
       [] \<Rightarrow> (True, d)
     | state # _ \<Rightarrow> (let (ok, b) = daemonRun B Down (m_config state) (d_backend d) in (ok, d\<lparr>d_backend := b\<rparr>)))"

lemma downAccepted_moved: "touches_backend d (snd (downAccepted B d))"
  by (auto simp: downAccepted_def moved_def split: list.splits prod.splits intro: exI [of _ "d_backend d"])

lemma daemon_deactivate_eq:
  "daemon_deactivate B e d =
     (let (ok, d1) = downAccepted B d in
      if ok then
        (let d2 = (takeDown B d1)\<lparr>m_connections := (\<lambda>_. None)\<rparr>; (ok', b) = deleteInterface B (d_backend d2)
         in Inr (ok', (d2\<lparr>d_backend := b\<rparr>)\<lparr>d_signals := d_signals d2 @ (if e then [Disconnected] else [])\<rparr>))
      else Inr (False, d1))"
  by (auto simp: daemon_deactivate_def downAccepted_def takeDown_def dcall_def d_emit_def Let_def
        split: list.splits prod.splits)

lemma daemon_deactivate_cases:
  obtains (refused) d1 where "daemon_deactivate B e d = Inr (False, d1)" "touches_backend d d1" "\<not> fst (downAccepted B d)"
  | (down) ok d1 b where "daemon_deactivate B e d = Inr (ok, d1)" "fst (downAccepted B d)"
      "m_connections d1 = (\<lambda>_. None)" "m_pollTimer d1 = m_pollTimer d" "Daemon.more d1 = Daemon.more d"
      "d_signals d1 = d_signals d @ (if e then [Disconnected] else [])"
      "(ok, d_backend d1) = deleteInterface B (d_backend (takeDown B (snd (downAccepted B d))))"
proof (cases "downAccepted B d")
  case (Pair ok d1)
  have d1: "touches_backend d d1" using downAccepted_moved [of d B] by (simp add: Pair)
  show ?thesis
  proof (cases ok)
    case False
    then show ?thesis using d1 Pair by (intro refused) (auto simp: daemon_deactivate_eq)
  next
    case True
    obtain ok' b where del: "deleteInterface B (d_backend (takeDown B d1)) = (ok', b)" by fastforce
    have t: "touches_backend d (takeDown B d1)" by (rule moved_trans [OF d1 takeDown_moved])
    show ?thesis
      by (rule down [of ok' "(takeDown B d1)\<lparr>m_connections := (\<lambda>_. None), d_backend := b,
            d_signals := d_signals (takeDown B d1) @ (if e then [Disconnected] else [])\<rparr>"])
         (use Pair True del t in \<open>simp_all add: daemon_deactivate_eq moved_simps Let_def\<close>)
  qed
qed

lemma daemon_deactivate_total: "\<exists>ok d'. daemon_deactivate B e d = Inr (ok, d')"
  by (rule daemon_deactivate_cases [of B e d]) auto

text \<open>Nesting ends: a second activation inside an activation meets no connection.\<close>

lemma activate_body_fresh:
  "m_connections d (m_hopType c) = None \<Longrightarrow> activate_body B Q act deact c d = failureGuard (bringUp B Q c d)"
  by (simp add: activate_body_def)

lemma deactivated_then:
  "(\<And>d1. m_connections d1 (m_hopType c) = None \<Longrightarrow> f d1 = g d1) \<Longrightarrow>
     andThen (daemon_deactivate B e d) (\<lambda>d. fassert (m_connections d (m_hopType c) = None) (f d)) =
     andThen (daemon_deactivate B e d) (\<lambda>d. fassert (m_connections d (m_hopType c) = None) (g d))"
  by (rule daemon_deactivate_cases [of B e d]) (auto simp: fassert_def)

lemma daemon_activate_fresh:
  "m_connections d (m_hopType c) = None \<Longrightarrow> daemon_activate B Q c d = failureGuard (bringUp B Q c d)"
  by (simp add: daemon_activate_def activate_body_fresh)

lemma daemon_activate_unfold:
  "daemon_activate B Q c d = activate_body B Q (daemon_activate B Q) (daemon_deactivate B) c d"
proof -
  have "andThen (daemon_deactivate B False d) (\<lambda>d. fassert (m_connections d (m_hopType c) = None)
            (activate_body B Q (\<lambda>_ _. Inl Assertion_failed) (daemon_deactivate B) c d)) =
        andThen (daemon_deactivate B False d) (\<lambda>d. fassert (m_connections d (m_hopType c) = None)
            (daemon_activate B Q c d))"
    by (rule deactivated_then) (simp add: activate_body_fresh daemon_activate_fresh)
  then show ?thesis
    by (subst daemon_activate_def) (simp add: activate_body_def)
qed

text \<open>The phases of a switch: \<open>K\<close> before the new peer, \<open>L\<close> with both, \<open>M\<close> without the old one.\<close>

definition switch_phases ::
    "'b backend \<Rightarrow> InterfaceConfig \<Rightarrow> InterfaceConfig \<Rightarrow> ('b \<Rightarrow> bool) \<Rightarrow> ('b \<Rightarrow> bool) \<Rightarrow> ('b \<Rightarrow> bool) \<Rightarrow> bool" where
  "switch_phases B c old K L M \<longleftrightarrow>
     (\<forall>b ok b'. K b \<longrightarrow> updatePeer B c b = (ok, b') \<longrightarrow> (if ok then L b' else K b')) \<and>
     (\<forall>ip. op_keeps L (updateRoutePrefix B ip)) \<and> (\<forall>ip. op_keeps L (deleteRoutePrefix B ip)) \<and>
     (if qEq (m_serverPublicKey c) (m_serverPublicKey old) then (\<forall>b. L b \<longrightarrow> M b)
      else (\<forall>b ok b'. L b \<longrightarrow> deletePeer B old b = (ok, b') \<longrightarrow> (if ok then M b' else L b'))) \<and>
     op_keeps M (restoreResolvers B) \<and> (\<forall>n rs. op_keeps M (updateResolvers B n rs)) \<and>
     (\<forall>op c'. op_keeps M (daemonRun B op c'))"

lemma switch_phases_True: "switch_phases B c old (\<lambda>_. True) (\<lambda>_. True) (\<lambda>_. True)"
  by (simp add: switch_phases_def)

lemma switch_phases_delete:
  assumes "switch_phases B c old K L M" "\<not> qEq (m_serverPublicKey c) (m_serverPublicKey old)"
    "L b" "deletePeer B old b = (ok, b')"
  shows "if ok then M b' else L b'"
proof -
  have "\<forall>b ok b'. L b \<longrightarrow> deletePeer B old b = (ok, b') \<longrightarrow> (if ok then M b' else L b')"
    using assms(1) unfolding switch_phases_def if_not_P [OF assms(2)] by (elim conjE)
  with assms(3,4) show ?thesis by blast
qed

definition setConnection :: "InterfaceConfig \<Rightarrow> ('b, 'z) Daemon_scheme \<Rightarrow> ('b, 'z) Daemon_scheme" where
  "setConnection c d = d\<lparr>m_connections := (m_connections d)(m_hopType c := Some (newConnection c))\<rparr>"

lemma post_dcall_phase:
  assumes "\<And>ok b. op (d_backend d1) = (ok, b) \<Longrightarrow> (if ok then L b else K b)" "moved N d d1"
  shows "post (dcall op d1) (\<lambda>ok. if ok then moved L d else moved K d)"
  unfolding post_dcall
proof (intro allI impI)
  fix ok b assume "op (d_backend d1) = (ok, b)"
  then have "if ok then L b else K b" by (rule assms(1))
  moreover obtain b1 where "d1 = d\<lparr>d_backend := b1\<rparr>" using assms(2) by (auto simp: moved_def)
  ultimately show "(if ok then moved L d else moved K d) (d1\<lparr>d_backend := b\<rparr>)"
    by (cases ok) (auto simp: moved_def)
qed

lemma switchServer_post:
  fixes d :: "('b, 'z) Daemon_scheme"
  assumes old: "m_connections d (m_hopType c) = Some s" and P: "switch_phases B c (m_config s) K L M" and K: "K (d_backend d)"
  shows "post (switchServer B c d) (\<lambda>ok d'. if ok then \<exists>d1. moved M d d1 \<and> d' = setConnection c d1
           else moved (\<lambda>b. K b \<or> L b) d d')"
proof -
  define gone where "gone = filter (\<lambda>ip. \<not> list_ex (ip_equal ip) (m_allowedIPAddressRanges c)) (m_allowedIPAddressRanges (m_config s))"
  define rest where "rest d = deleteRoutes B gone (switchRoutes B (m_allowedIPAddressRanges c) d)" for d :: "('b, 'z) Daemon_scheme"
  have eq: "switchServer B c d = andThen (dcall (updatePeer B c) d) (\<lambda>d.
      andThen (if \<not> qEq (m_serverPublicKey c) (m_serverPublicKey (m_config s)) then dcall (deletePeer B (m_config s)) (rest d)
               else Inr (True, rest d)) (\<lambda>d. Inr (True, setConnection c d)))"
    unfolding switchServer_def old rest_def gone_def setConnection_def Let_def by simp
  show ?thesis
    unfolding eq
  proof (rule post_andThen [OF post_dcall_phase [where L = L and K = K, OF _ moved_refl [of K]]])
    show "K (d_backend d)" by (rule K)
    show "\<And>ok b. updatePeer B c (d_backend d) = (ok, b) \<Longrightarrow> if ok then L b else K b"
      using P K unfolding switch_phases_def by blast
  next
    fix d1 assume "(if True then moved L d else moved K d) d1"
    then have d1: "moved L d d1" by simp
    have routes: "op_keeps L (updateRoutePrefix B ip)" "op_keeps L (deleteRoutePrefix B ip)" for ip
      using P by (simp_all add: switch_phases_def)
    have sw: "moved L d (switchRoutes B (m_allowedIPAddressRanges c) d1)"
      by (rule moved_trans [OF d1 switchRoutes_moved [OF routes(1) moved_simps(5) [OF d1]]])
    have r: "moved L d (rest d1)"
      unfolding rest_def by (rule moved_trans [OF sw deleteRoutes_moved [OF routes(2) moved_simps(5) [OF sw]]])
    show "post (andThen (if \<not> qEq (m_serverPublicKey c) (m_serverPublicKey (m_config s)) then dcall (deletePeer B (m_config s)) (rest d1)
               else Inr (True, rest d1)) (\<lambda>d. Inr (True, setConnection c d)))
         (\<lambda>ok d'. if ok then \<exists>d1. moved M d d1 \<and> d' = setConnection c d1 else moved (\<lambda>b. K b \<or> L b) d d')"
    proof (rule post_andThen [where R = "\<lambda>ok. if ok then moved M d else moved L d"])
      show "post (if \<not> qEq (m_serverPublicKey c) (m_serverPublicKey (m_config s)) then dcall (deletePeer B (m_config s)) (rest d1)
               else Inr (True, rest d1)) (\<lambda>ok. if ok then moved M d else moved L d)"
      proof (cases "qEq (m_serverPublicKey c) (m_serverPublicKey (m_config s))")
        case True
        then have "\<forall>b. L b \<longrightarrow> M b" using P by (simp add: switch_phases_def)
        with r have "moved M d (rest d1)" by (auto simp only: moved_def)
        with True show ?thesis by simp
      next
        case False
        have "L (d_backend (rest d1))" using r by (rule moved_simps)
        note del = switch_phases_delete [OF P False this]
        show ?thesis
          by (simp only: False not_False_eq_True if_True) (rule post_dcall_phase [OF del r])
      qed
    qed (auto simp: moved_orI)
  qed (auto simp: moved_orI)
qed

lemma moved_setConnection:
  assumes "moved M (setConnection c d1) d2" "moved N d d1"
  shows "\<exists>d1'. moved M d d1' \<and> d2 = setConnection c d1'"
proof -
  obtain b where b: "d2 = (setConnection c d1)\<lparr>d_backend := b\<rparr>" "M b" using assms(1) by (auto simp: moved_def)
  obtain b1 where "d1 = d\<lparr>d_backend := b1\<rparr>" using assms(2) by (auto simp: moved_def)
  with b have "moved M d (d1\<lparr>d_backend := b\<rparr>)" "d2 = setConnection c (d1\<lparr>d_backend := b\<rparr>)"
    by (auto simp: moved_def setConnection_def)
  then show ?thesis by blast
qed

definition switchTo ::
    "'b backend \<Rightarrow> qt_net \<Rightarrow> InterfaceConfig \<Rightarrow> ('b, 'z) Daemon_scheme \<Rightarrow> ('b, 'z) Daemon_scheme outcome" where
  "switchTo B Q c d =
     andThen (switchServer B c d) (\<lambda>d.
     andThen (dcall (restoreResolvers B) d) (\<lambda>d.
     andThen (maybeUpdateResolvers B Q c d) (\<lambda>d.
     andThen (dcall (daemonRun B Switch c) d) (\<lambda>d. Inr (True, recordConnection c d)))))"

definition switched ::
    "InterfaceConfig \<Rightarrow> ('b \<Rightarrow> bool) \<Rightarrow> ('b \<Rightarrow> bool) \<Rightarrow> ('b, 'z) Daemon_scheme \<Rightarrow> bool \<Rightarrow> ('b, 'z) Daemon_scheme \<Rightarrow> bool" where
  "switched c N M d ok d' \<longleftrightarrow>
     (if ok then \<exists>d1. moved M d d1 \<and> d' = recordConnection c d1
      else moved N d d' \<or> (\<exists>d1. moved M d d1 \<and> d' = setConnection c d1))"

lemma recordConnection_setConnection [simp]: "recordConnection c (setConnection c d) = recordConnection c d"
  by (simp add: recordConnection_def setConnection_def)

lemma post_after_switch:
  assumes "post m (\<lambda>ok. moved M (setConnection c d1))" "moved M d d1"
    and "\<And>d2. moved M d d2 \<Longrightarrow> post (k (setConnection c d2)) (switched c N M d)"
  shows "post (andThen m k) (switched c N M d)"
proof (rule post_andThen [OF assms(1)])
  fix d2 assume "moved M (setConnection c d1) d2"
  then obtain d1' where "moved M d d1'" "d2 = setConnection c d1'"
    using moved_setConnection [OF _ assms(2)] by blast
  then show "post (k d2) (switched c N M d)" "switched c N M d False d2"
    using assms(3) by (auto simp: switched_def)
qed

lemma switchTo_post:
  fixes d :: "('b, 'z) Daemon_scheme"
  assumes old: "m_connections d (m_hopType c) = Some s" and P: "switch_phases B c (m_config s) K L M" and K: "K (d_backend d)"
  shows "post (switchTo B Q c d) (switched c (\<lambda>b. K b \<or> L b) M d)"
  unfolding switchTo_def
proof (rule post_andThen [OF switchServer_post [OF old P K]])
  have keeps: "op_keeps M (restoreResolvers B)" "op_keeps M (updateResolvers B n rs)" "op_keeps M (daemonRun B op c')" for n rs op c'
    using P unfolding switch_phases_def by (elim conjE; simp only:)+
  have backend: "M (d_backend (setConnection c d1))" if "moved M d d1" for d1 :: "('b, 'z) Daemon_scheme"
    using moved_simps(5) [OF that] by (simp add: setConnection_def)
  fix d2 assume "if True then \<exists>d1. moved M d d1 \<and> d2 = setConnection c d1 else moved (\<lambda>b. K b \<or> L b) d d2"
  then obtain d1 where d1: "moved M d d1" and d2: "d2 = setConnection c d1" by auto
  show "post (andThen (dcall (restoreResolvers B) d2) (\<lambda>d.
     andThen (maybeUpdateResolvers B Q c d) (\<lambda>d.
     andThen (dcall (daemonRun B Switch c) d) (\<lambda>d. Inr (True, recordConnection c d))))) (switched c (\<lambda>b. K b \<or> L b) M d)"
    unfolding d2
  proof (rule post_after_switch [OF post_dcall_keeps [OF keeps(1) backend [OF d1]] d1])
    fix d3 assume d3: "moved M d d3"
    show "post (andThen (maybeUpdateResolvers B Q c (setConnection c d3)) (\<lambda>d.
       andThen (dcall (daemonRun B Switch c) d) (\<lambda>d. Inr (True, recordConnection c d)))) (switched c (\<lambda>b. K b \<or> L b) M d)"
    proof (rule post_after_switch [OF maybeUpdateResolvers_keeps [OF keeps(2) backend [OF d3]] d3])
      fix d4 assume d4: "moved M d d4"
      show "post (andThen (dcall (daemonRun B Switch c) (setConnection c d4)) (\<lambda>d. Inr (True, recordConnection c d)))
         (switched c (\<lambda>b. K b \<or> L b) M d)"
        by (rule post_after_switch [OF post_dcall_keeps [OF keeps(3) backend [OF d4]] d4])
           (auto simp: switched_def)
    qed
  qed
qed (simp add: switched_def)

lemma post_failureGuard: "post (failureGuard m) P \<longleftrightarrow> post m (\<lambda>ok d. P ok (if ok then d else d_emit ActivationFailure d))"
  by (auto simp: post_def failureGuard_def fbind_def split: sum.splits)

lemma activate_body_eq:
  "activate_body B Q act deact c d = failureGuard
     (if m_connections d (m_hopType c) \<noteq> None then
        (if supportServerSwitching c d then switchTo B Q c d
         else andThen (deact False d) (\<lambda>d. fassert (m_connections d (m_hopType c) = None) (act c d)))
      else bringUp B Q c d)"
  by (simp add: activate_body_def switchTo_def)

text \<open>The three ways through an activation.\<close>

lemma daemon_activate_ways:
  "daemon_activate B Q c d = failureGuard
     (if m_connections d (m_hopType c) \<noteq> None then
        (if supportServerSwitching c d then switchTo B Q c d
         else andThen (daemon_deactivate B False d) (\<lambda>d1.
                fassert (m_connections d1 (m_hopType c) = None) (failureGuard (bringUp B Q c d1))))
      else bringUp B Q c d)"
proof -
  have "andThen (daemon_deactivate B False d) (\<lambda>d1. fassert (m_connections d1 (m_hopType c) = None) (daemon_activate B Q c d1)) =
    andThen (daemon_deactivate B False d) (\<lambda>d1. fassert (m_connections d1 (m_hopType c) = None) (failureGuard (bringUp B Q c d1)))"
    by (rule deactivated_then) (rule daemon_activate_fresh)
  then show ?thesis
    by (subst daemon_activate_unfold) (simp only: activate_body_eq)
qed

subsection \<open>What an activation leaves behind\<close>

definition activation_result :: "InterfaceConfig \<Rightarrow> ('b, 'z) Daemon_scheme \<Rightarrow> nat \<Rightarrow> bool \<Rightarrow> ('b, 'z) Daemon_scheme \<Rightarrow> bool" where
  "activation_result c d n ok d' \<longleftrightarrow>
     (if ok then m_connections d' (m_hopType c) = Some (newConnection c) \<and> m_pollTimer d' = Some HANDSHAKE_POLL_MSEC \<and>
                 d_signals d' = d_signals d
      else \<exists>k\<le>n. d_signals d' = d_signals d @ replicate k ActivationFailure)"

lemma bringUp_result: "post (bringUp B Q c d) (activation_result c d 0)"
  by (rule post_weaken [OF bringUp_post [OF phases_True]])
     (auto simp: brought_up_def activation_result_def recordConnection_def moved_def split: if_splits)

lemma switchTo_result: "m_connections d (m_hopType c) = Some s \<Longrightarrow> post (switchTo B Q c d) (activation_result c d 0)"
  by (rule post_weaken [OF switchTo_post [OF _ switch_phases_True]])
     (auto simp: switched_def activation_result_def recordConnection_def setConnection_def moved_def split: if_splits)

lemma activation_result_Suc:
  "activation_result c d n ok d' \<Longrightarrow> activation_result c d (Suc n) ok d'"
  by (auto simp: activation_result_def intro: le_SucI split: if_splits)

lemma activation_result_emit:
  assumes "activation_result c d n False d'"
  shows "\<exists>k. 1 \<le> k \<and> k \<le> Suc n \<and> d_signals (d_emit ActivationFailure d') = d_signals d @ replicate k ActivationFailure"
proof -
  obtain k where "k \<le> n" "d_signals d' = d_signals d @ replicate k ActivationFailure"
    using assms by (auto simp: activation_result_def)
  then have "d_signals (d_emit ActivationFailure d') = d_signals d @ replicate (Suc k) ActivationFailure"
    by (simp add: d_emit_def replicate_append_same)
  with \<open>k \<le> n\<close> show ?thesis by (intro exI [of _ "Suc k"]) simp
qed

lemma nested_result:
  "post (andThen (daemon_deactivate B False d) (\<lambda>d1.
      fassert (m_connections d1 (m_hopType c) = None) (failureGuard (bringUp B Q c d1)))) (activation_result c d 1)"
proof (rule daemon_deactivate_cases [of B False d])
  fix d1 assume "daemon_deactivate B False d = Inr (False, d1)" "touches_backend d d1"
  then show ?thesis by (auto simp: activation_result_def moved_simps)
next
  fix ok d1 assume d1: "daemon_deactivate B False d = Inr (ok, d1)" "m_connections d1 = (\<lambda>_. None)"
    and sig: "d_signals d1 = d_signals d @ (if False then [Disconnected] else [])"
  have "post (failureGuard (bringUp B Q c d1)) (activation_result c d 1)"
    unfolding post_failureGuard
    by (rule post_weaken [OF bringUp_result]) (use sig in \<open>auto simp: activation_result_def d_emit_def split: if_splits\<close>)
  then show ?thesis using d1 sig by (cases ok) (simp_all add: activation_result_def)
qed

lemma daemon_activate_result:
  "post (daemon_activate B Q c d) (\<lambda>ok d'.
     if ok then activation_result c d 0 True d'
     else \<exists>k. 1 \<le> k \<and> k \<le> 2 \<and> d_signals d' = d_signals d @ replicate k ActivationFailure)"
proof -
  define way where "way = (if m_connections d (m_hopType c) \<noteq> None then
        (if supportServerSwitching c d then switchTo B Q c d
         else andThen (daemon_deactivate B False d) (\<lambda>d1.
                fassert (m_connections d1 (m_hopType c) = None) (failureGuard (bringUp B Q c d1))))
      else bringUp B Q c d)"
  have "post way (activation_result c d 1)"
    unfolding way_def using nested_result [of B d c Q] switchTo_result [of d c _ B Q] bringUp_result [of B Q c d]
    by (auto intro!: post_weaken [OF switchTo_result] post_weaken [OF bringUp_result] dest: activation_result_Suc)
  then have "post (failureGuard way) (\<lambda>ok d'. if ok then activation_result c d 0 True d'
     else \<exists>k. 1 \<le> k \<and> k \<le> 2 \<and> d_signals d' = d_signals d @ replicate k ActivationFailure)"
    unfolding post_failureGuard
  proof (rule post_weaken)
    fix ok d' assume r: "activation_result c d 1 ok d'"
    show "if ok then activation_result c d 0 True (if ok then d' else d_emit ActivationFailure d')
       else \<exists>k. 1 \<le> k \<and> k \<le> 2 \<and> d_signals (if ok then d' else d_emit ActivationFailure d') = d_signals d @ replicate k ActivationFailure"
      using r activation_result_emit [of c d 1 d'] by (cases ok) (simp_all add: activation_result_def numeral_2_eq_2)
  qed
  then show ?thesis unfolding daemon_activate_ways way_def .
qed

subsection \<open>Runs return\<close>

definition returns :: "'d outcome \<Rightarrow> bool" where
  "returns m \<longleftrightarrow> (\<exists>ok d. m = Inr (ok, d))"

lemma returns_simps [simp]: "returns (Inr p)" "returns (dcall op d)"
  by (cases p) (auto simp: returns_def dcall_def split: prod.splits)

lemma returns_andThen: "returns m \<Longrightarrow> (\<And>d. returns (k d)) \<Longrightarrow> returns (andThen m k)"
  by (auto simp: returns_def)

lemma returns_failureGuard [simp]: "returns (failureGuard m) \<longleftrightarrow> returns m"
  by (auto simp: returns_def failureGuard_def fbind_def split: sum.splits)

lemma returns_updateRoutes: "returns (updateRoutes B ips d)"
  by (induction ips arbitrary: d) (simp_all add: returns_andThen)

lemma returns_maybeUpdateResolvers: "returns (maybeUpdateResolvers B Q c d)"
  by (simp add: maybeUpdateResolvers_def)

lemma returns_createInterface: "None \<notin> set (lanAddressRanges Q) \<Longrightarrow> returns (createInterface B Q c d)"
  by (simp add: createInterface_def returns_andThen)

lemma returns_bringUp: "None \<notin> set (lanAddressRanges Q) \<Longrightarrow> returns (bringUp B Q c d)"
  unfolding bringUp_def
  by (intro returns_andThen) (simp_all add: returns_createInterface returns_updateRoutes returns_maybeUpdateResolvers)

lemma returns_switchTo: "m_connections d (m_hopType c) = Some s \<Longrightarrow> returns (switchTo B Q c d)"
  unfolding switchTo_def
  by (intro returns_andThen)
     (simp_all add: switchServer_def returns_andThen returns_maybeUpdateResolvers Let_def)

lemma returns_nested:
  assumes "None \<notin> set (lanAddressRanges Q)"
  shows "returns (andThen (daemon_deactivate B False d) (\<lambda>d1.
      fassert (m_connections d1 (m_hopType c) = None) (failureGuard (bringUp B Q c d1))))"
  by (rule daemon_deactivate_cases [of B False d]) (use returns_bringUp [OF assms] in auto)

lemma returns_daemon_activate: "None \<notin> set (lanAddressRanges Q) \<Longrightarrow> returns (daemon_activate B Q c d)"
  using returns_bringUp [of Q B c d] returns_switchTo [of d c _ B Q] returns_nested [of Q B d c]
  by (auto simp: daemon_activate_ways)

subsection \<open>Handshakes\<close>

text \<open>The statuses that report a handshake of a connection's peer.\<close>

definition handshakes :: "PeerStatus list \<Rightarrow> ConnectionState \<Rightarrow> PeerStatus list" where
  "handshakes st s = filter (\<lambda>p. m_pubkey p = qtext (m_serverPublicKey (m_config s)) \<and> m_handshake p \<noteq> 0) st"

definition completed :: "PeerStatus list \<Rightarrow> ConnectionState \<Rightarrow> ConnectionState" where
  "completed st s =
     (if m_date s \<noteq> None \<or> handshakes st s = [] then s else s\<lparr>m_date := Some (m_handshake (last (handshakes st s)))\<rparr>)"

definition announced :: "PeerStatus list \<Rightarrow> ConnectionState \<Rightarrow> daemon_signal list" where
  "announced st s = (if m_date s \<noteq> None then [] else map (\<lambda>p. Connected (m_pubkey p)) (handshakes st s))"

lemma handshakes_config: "m_config s = m_config s' \<Longrightarrow> handshakes st s = handshakes st s'"
  by (simp add: handshakes_def)

lemma checkPeers_eq:
  "checkPeers st s sigs =
     ((if handshakes st s = [] then s else s\<lparr>m_date := Some (m_handshake (last (handshakes st s)))\<rparr>),
      sigs @ map (\<lambda>p. Connected (m_pubkey p)) (handshakes st s))"
proof (induction st arbitrary: s sigs)
  case Nil
  then show ?case by (simp add: handshakes_def)
next
  case (Cons p st)
  have eq: "handshakes st (s\<lparr>m_date := x\<rparr>) = handshakes st s" for x
    by (rule handshakes_config) simp
  have hs: "handshakes (p # st) s = (if m_pubkey p = qtext (m_serverPublicKey (m_config s)) \<and> m_handshake p \<noteq> 0
      then p # handshakes st s else handshakes st s)"
    by (simp add: handshakes_def)
  show ?case
    by (simp add: hs Cons.IH eq del: checkPeers.simps) (simp add: Cons.IH eq)
qed

definition completeAt :: "PeerStatus list \<Rightarrow> HopType list \<Rightarrow> (HopType \<Rightarrow> ConnectionState option) \<Rightarrow> HopType \<Rightarrow> ConnectionState option" where
  "completeAt st hs M h = (if h \<in> set hs then map_option (completed st) (M h) else M h)"

lemma completeAt_Cons:
  "M h = None \<Longrightarrow> completeAt st (h # hs) M = completeAt st hs M"
  "M h = Some s \<Longrightarrow> h \<notin> set hs \<Longrightarrow> completeAt st (h # hs) M = completeAt st hs (M(h := Some (completed st s)))"
  by (auto simp: completeAt_def fun_eq_iff)

lemma checkConnections_eq:
  fixes d :: "('b, 'z) Daemon_scheme"
  assumes "distinct hs"
  shows "checkConnections st hs n d =
     (n + int (length (filter (\<lambda>s. m_date (completed st s) = None) (List.map_filter (m_connections d) hs))),
      d\<lparr>m_connections := completeAt st hs (m_connections d),
        d_signals := d_signals d @ concat (map (announced st) (List.map_filter (m_connections d) hs))\<rparr>)"
  using assms
proof (induction hs arbitrary: n d)
  case Nil
  have "completeAt st [] (m_connections d) = m_connections d" by (simp add: completeAt_def fun_eq_iff)
  then show ?case by (simp add: map_filter_simps)
next
  case (Cons h hs)
  have h: "h \<notin> set hs" and hs: "distinct hs" using Cons.prems by auto
  have other: "List.map_filter ((m_connections d)(h := x)) hs = List.map_filter (m_connections d) hs" for x
    using h by (auto simp: List.map_filter_def intro!: filter_cong map_cong)
  show ?case
  proof (cases "m_connections d h")
    case None
    then show ?thesis by (simp add: Cons.IH [OF hs] map_filter_simps completeAt_Cons)
  next
    case (Some s)
    show ?thesis
    proof (cases "m_date s")
      case None
      have "checkPeers st s (d_signals d) = (completed st s, d_signals d @ announced st s)"
        by (simp add: checkPeers_eq completed_def announced_def None)
      then show ?thesis
        using Some None by (simp add: Cons.IH [OF hs] other map_filter_simps completeAt_Cons(2) [OF _ h])
    next
      case (Some t)
      then have "completed st s = s" "announced st s = []" by (simp_all add: completed_def announced_def)
      moreover have "(m_connections d)(h \<mapsto> s) = m_connections d" using \<open>m_connections d h = Some s\<close> by auto
      ultimately show ?thesis
        using \<open>m_connections d h = Some s\<close> Some
        by (simp add: Cons.IH [OF hs] map_filter_simps completeAt_Cons(2) [OF _ h])
    qed
  qed
qed

lemma completeAt_hops: "completeAt st hops M = (\<lambda>h. map_option (completed st) (M h))"
proof
  fix h show "completeAt st hops M h = map_option (completed st) (M h)"
    by (cases h) (simp_all add: completeAt_def hops_def)
qed

lemma checkHandshake_eq:
  "checkHandshake B d =
     (let st = getPeerStatus B (d_backend d);
          d' = d\<lparr>m_connections := (\<lambda>h. map_option (completed st) (m_connections d h)),
                 d_signals := d_signals d @ concat (map (announced st) (connectionList d))\<rparr>
      in if \<exists>s\<in>set (connectionList d). m_date (completed st s) = None
         then d'\<lparr>m_pollTimer := Some HANDSHAKE_POLL_MSEC\<rparr> else d')"
proof -
  have "distinct hops" by (simp add: hops_def)
  from checkConnections_eq [OF this, of "getPeerStatus B (d_backend d)" 0 d] show ?thesis
    by (auto simp: checkHandshake_def completeAt_hops connectionList_def [symmetric] Let_def filter_empty_conv)
qed

end
