(* ===== verification/Daemon_Mock.thy ===== *)
theory Daemon_Mock
  imports Daemon "HOL-Library.Char_ord" "HOL-Library.List_Lexorder"
begin

text \<open>
  The contract between the daemon and the platform's WireGuard utilities as the locale
  \<open>peer_backend\<close> (and \<open>reliable_backend\<close> for utilities whose deletions succeed), what the daemon
  guarantees on top of it, and the utilities of \<^verbatim>\<open>src/src/daemon/mock\<close> with
  \<open>MockDaemon::activate\<close>, for which the contract is discharged.  The clock of the mock is part of
  its state.
\<close>

subsection \<open>The contract\<close>

definition peerKey :: "InterfaceConfig \<Rightarrow> string" where
  "peerKey c = qtext (m_serverPublicKey c)"

text \<open>The peers the backend knows, and which operations change them.\<close>

locale peer_backend =
  fixes B :: "'b backend" and peers :: "'b \<Rightarrow> string set"
  assumes updatePeer_peers: "updatePeer B c b = (ok, b') \<Longrightarrow> peers b' = (if ok then insert (peerKey c) (peers b) else peers b)"
    and deletePeer_peers: "deletePeer B c b = (ok, b') \<Longrightarrow> peers b' = (if ok then peers b - {peerKey c} else peers b)"
    and addInterface_peers: "addInterface B c b = (ok, b') \<Longrightarrow> peers b' = peers b"
    and addInterfaceIPs_peers: "addInterfaceIPs B c b = (ok, b') \<Longrightarrow> peers b' = peers b"
    and setMTUAndUp_peers: "setMTUAndUp B c b = (ok, b') \<Longrightarrow> peers b' = peers b"
    and excludeLocalNetworks_peers: "excludeLocalNetworks B ips b = (ok, b') \<Longrightarrow> peers b' = peers b"
    and updateRoutePrefix_peers: "updateRoutePrefix B ip b = (ok, b') \<Longrightarrow> peers b' = peers b"
    and deleteRoutePrefix_peers: "deleteRoutePrefix B ip b = (ok, b') \<Longrightarrow> peers b' = peers b"
    and updateResolvers_peers: "updateResolvers B n rs b = (ok, b') \<Longrightarrow> peers b' = peers b"
    and restoreResolvers_peers: "restoreResolvers B b = (ok, b') \<Longrightarrow> peers b' = peers b"
    and daemonRun_peers: "daemonRun B op c b = (ok, b') \<Longrightarrow> peers b' = peers b"
    and getPeerStatus_peers: "m_pubkey ` set (getPeerStatus B b) = peers b"
begin

text \<open>Every recorded connection has its peer in the backend, and no two hops share a peer.\<close>

definition conn_inv :: "('b, 'z) Daemon_scheme \<Rightarrow> bool" where
  "conn_inv d \<longleftrightarrow>
     (\<forall>h s. m_connections d h = Some s \<longrightarrow> m_hopType (m_config s) = h \<and> peerKey (m_config s) \<in> peers (d_backend d)) \<and>
     (\<forall>h h' s s'. m_connections d h = Some s \<longrightarrow> m_connections d h' = Some s' \<longrightarrow> h \<noteq> h' \<longrightarrow>
        peerKey (m_config s) \<noteq> peerKey (m_config s'))"

text \<open>The peer of a new configuration is not the peer of another hop.\<close>

definition fresh_peer :: "InterfaceConfig \<Rightarrow> ('b, 'z) Daemon_scheme \<Rightarrow> bool" where
  "fresh_peer c d \<longleftrightarrow> (\<forall>h s. m_connections d h = Some s \<longrightarrow> h \<noteq> m_hopType c \<longrightarrow> peerKey (m_config s) \<noteq> peerKey c)"

lemma keeps_peers:
  "op_keeps (\<lambda>b. peers b = P) (addInterface B c)" "op_keeps (\<lambda>b. peers b = P) (addInterfaceIPs B c)"
  "op_keeps (\<lambda>b. peers b = P) (setMTUAndUp B c)" "op_keeps (\<lambda>b. peers b = P) (excludeLocalNetworks B ips)"
  "op_keeps (\<lambda>b. peers b = P) (updateResolvers B n rs)" "op_keeps (\<lambda>b. peers b = P) (restoreResolvers B)"
  "op_keeps (\<lambda>b. peers b = P) (updateRoutePrefix B ip)" "op_keeps (\<lambda>b. peers b = P) (deleteRoutePrefix B ip)"
  "op_keeps (\<lambda>b. peers b = P) (daemonRun B op c)"
  unfolding op_keeps_def
  by (auto simp: addInterface_peers [OF prod.collapse [symmetric]] addInterfaceIPs_peers [OF prod.collapse [symmetric]]
        setMTUAndUp_peers [OF prod.collapse [symmetric]] excludeLocalNetworks_peers [OF prod.collapse [symmetric]]
        updateResolvers_peers [OF prod.collapse [symmetric]] restoreResolvers_peers [OF prod.collapse [symmetric]]
        updateRoutePrefix_peers [OF prod.collapse [symmetric]] deleteRoutePrefix_peers [OF prod.collapse [symmetric]]
        daemonRun_peers [OF prod.collapse [symmetric]])

lemma peer_phases: "phases B c (\<lambda>b. peers b = P) (\<lambda>b. peers b = insert (peerKey c) P)"
  unfolding phases_def by (auto simp: keeps_peers dest: updatePeer_peers)

lemma peer_switch_phases:
  "switch_phases B c old (\<lambda>b. peers b = P) (\<lambda>b. peers b = insert (peerKey c) P)
     (\<lambda>b. peers b = insert (peerKey c) P - (if peerKey c = peerKey old then {} else {peerKey old}))"
proof -
  have key: "qEq (m_serverPublicKey c) (m_serverPublicKey old) \<longleftrightarrow> peerKey c = peerKey old"
    by (simp add: qEq_def peerKey_def)
  have up: "if ok then peers b' = insert (peerKey c) P else peers b' = P"
    if "peers b = P" "updatePeer B c b = (ok, b')" for b ok b'
    using updatePeer_peers [OF that(2)] that(1) by simp
  have del: "if ok then peers b' = X - {peerKey old} else peers b' = X"
    if "peers b = X" "deletePeer B old b = (ok, b')" for b ok b' X
    using deletePeer_peers [OF that(2)] that(1) by simp
  show ?thesis
  proof (cases "peerKey c = peerKey old")
    case True
    show ?thesis
      unfolding switch_phases_def key if_P [OF True]
      by (intro conjI allI impI; (rule keeps_peers | erule (1) up | simp))
  next
    case False
    show ?thesis
      unfolding switch_phases_def key if_not_P [OF False]
      by (intro conjI allI impI; (rule keeps_peers | erule (1) up | erule (1) del))
  qed
qed

lemma conn_inv_moved:
  "conn_inv d \<Longrightarrow> moved (\<lambda>b. peers (d_backend d) \<subseteq> peers b) d d' \<Longrightarrow> conn_inv d'"
  unfolding conn_inv_def moved_def by (elim exE conjE) (simp, blast)

lemma conn_inv_signals [simp]: "conn_inv (d\<lparr>d_signals := x\<rparr>) \<longleftrightarrow> conn_inv d" "conn_inv (d\<lparr>m_pollTimer := t\<rparr>) \<longleftrightarrow> conn_inv d"
  by (auto simp: conn_inv_def)

lemma conn_inv_none: "m_connections d = (\<lambda>_. None) \<Longrightarrow> conn_inv d"
  by (simp add: conn_inv_def)

lemma conn_inv_record:
  assumes "conn_inv d" "fresh_peer c d" "moved K d d1"
    and "peerKey c \<in> peers (d_backend d1)"
    and "\<And>h s. m_connections d h = Some s \<Longrightarrow> h \<noteq> m_hopType c \<Longrightarrow> peerKey (m_config s) \<in> peers (d_backend d1)"
  shows "conn_inv (setConnection c d1)"
proof -
  have m: "m_connections (setConnection c d1) = (m_connections d)(m_hopType c := Some (newConnection c))"
    "d_backend (setConnection c d1) = d_backend d1"
    by (simp_all add: setConnection_def moved_simps(1) [OF assms(3)])
  have new: "m_config (newConnection c) = c" by (simp add: newConnection_def)
  have old: "m_hopType (m_config s) = h" if "m_connections d h = Some s" for h s
    using assms(1) that by (simp add: conn_inv_def)
  have apart: "peerKey (m_config s) \<noteq> peerKey (m_config s')"
    if "m_connections d h = Some s" "m_connections d h' = Some s'" "h \<noteq> h'" for h h' s s'
    using assms(1) that unfolding conn_inv_def by blast
  have fresh: "peerKey (m_config s) \<noteq> peerKey c" if "m_connections d h = Some s" "h \<noteq> m_hopType c" for h s
    using assms(2) that unfolding fresh_peer_def by blast
  show ?thesis
    unfolding conn_inv_def m
  proof (intro conjI allI impI)
    fix h s assume "((m_connections d)(m_hopType c \<mapsto> newConnection c)) h = Some s"
    then show "m_hopType (m_config s) = h" "peerKey (m_config s) \<in> peers (d_backend d1)"
      using old assms(4,5) new by (auto split: if_splits)
  next
    fix h h' s s'
    assume "((m_connections d)(m_hopType c \<mapsto> newConnection c)) h = Some s"
      "((m_connections d)(m_hopType c \<mapsto> newConnection c)) h' = Some s'" "h \<noteq> h'"
    then show "peerKey (m_config s) \<noteq> peerKey (m_config s')"
      using apart fresh fresh [symmetric] new by (auto split: if_splits)
  qed
qed

lemma recordConnection_eq: "recordConnection c d = (setConnection c d)\<lparr>m_pollTimer := Some HANDSHAKE_POLL_MSEC\<rparr>"
  by (simp add: recordConnection_def setConnection_def)

lemma bringUp_inv:
  assumes inv: "conn_inv d" and fresh: "fresh_peer c d"
  shows "post (bringUp B Q c d) (\<lambda>ok. conn_inv)"
proof (rule post_weaken [OF bringUp_post [OF peer_phases [of c "peers (d_backend d)"]]])
  fix ok d'
  assume r: "brought_up c (\<lambda>b. peers b = peers (d_backend d)) (\<lambda>b. peers b = insert (peerKey c) (peers (d_backend d))) d ok d'"
  show "conn_inv d'"
  proof (cases ok)
    case True
    then obtain d1 where d1: "moved (\<lambda>b. peers b = insert (peerKey c) (peers (d_backend d))) d d1" "d' = recordConnection c d1"
      using r by (auto simp: brought_up_def)
    have "conn_inv (setConnection c d1)"
      by (rule conn_inv_record [OF inv fresh d1(1)]) (use inv moved_simps(5) [OF d1(1)] in \<open>auto simp: conn_inv_def\<close>)
    then show ?thesis by (simp add: d1(2) recordConnection_eq)
  next
    case False
    then have "moved (\<lambda>b. peers (d_backend d) \<subseteq> peers b) d d'"
      using r by (auto simp: brought_up_def moved_def)
    then show ?thesis by (rule conn_inv_moved [OF inv])
  qed
qed simp

lemma switchTo_inv:
  assumes inv: "conn_inv d" and fresh: "fresh_peer c d" and old: "m_connections d (m_hopType c) = Some s"
  shows "post (switchTo B Q c d) (\<lambda>ok. conn_inv)"
proof -
  define P where "P = peers (d_backend d)"
  define M where "M = insert (peerKey c) P - (if peerKey c = peerKey (m_config s) then {} else {peerKey (m_config s)})"
  have kept: "peerKey (m_config s') \<in> M" if "m_connections d h = Some s'" "h \<noteq> m_hopType c" for h s'
  proof -
    have "peerKey (m_config s') \<in> P" "peerKey (m_config s') \<noteq> peerKey (m_config s)"
      using inv old that unfolding conn_inv_def P_def by blast+
    then show ?thesis by (simp add: M_def)
  qed
  have set: "conn_inv (setConnection c d1)" if "moved (\<lambda>b. peers b = M) d d1" for d1
    by (rule conn_inv_record [OF inv fresh that]) (use moved_simps(5) [OF that] kept in \<open>auto simp: M_def\<close>)
  note post = switchTo_post [OF old peer_switch_phases [of c "m_config s" P], folded M_def]
  show ?thesis
  proof (rule post_weaken [OF post])
    fix ok d' assume r: "switched c (\<lambda>b. peers b = P \<or> peers b = insert (peerKey c) P) (\<lambda>b. peers b = M) d ok d'"
    consider d1 where "moved (\<lambda>b. peers b = M) d d1" "d' = recordConnection c d1 \<or> d' = setConnection c d1"
      | "moved (\<lambda>b. peers (d_backend d) \<subseteq> peers b) d d'"
      using r by (auto simp: switched_def moved_def P_def split: if_splits)
    then show "conn_inv d'"
      by cases (auto simp: recordConnection_eq set conn_inv_moved [OF inv])
  qed (simp add: P_def)
qed

lemma deactivate_inv: "conn_inv d \<Longrightarrow> daemon_deactivate B e d = Inr (ok, d') \<Longrightarrow> conn_inv d'"
proof (rule daemon_deactivate_cases [of B e d])
  fix d1 assume inv: "conn_inv d" and run: "daemon_deactivate B e d = Inr (ok, d')" "daemon_deactivate B e d = Inr (False, d1)"
    and refused: "\<not> fst (downAccepted B d)"
  from refused have "peers (d_backend (snd (downAccepted B d))) = peers (d_backend d)"
    by (auto simp: downAccepted_def split: list.splits prod.splits dest: daemonRun_peers)
  moreover have "d' = snd (downAccepted B d)"
    using run refused by (auto simp: daemon_deactivate_eq split: prod.splits)
  ultimately have "moved (\<lambda>b. peers (d_backend d) \<subseteq> peers b) d d'"
    using downAccepted_moved [of d B] by (auto simp: moved_def)
  then show "conn_inv d'" by (rule conn_inv_moved [OF inv])
qed (auto intro: conn_inv_none)

lemma fresh_peer_none: "m_connections d = (\<lambda>_. None) \<Longrightarrow> fresh_peer c d"
  by (simp add: fresh_peer_def)

lemma emit_inv [simp]: "conn_inv (d_emit x d) \<longleftrightarrow> conn_inv d"
  by (simp add: d_emit_def)

lemma nested_inv:
  assumes "conn_inv d"
  shows "post (andThen (daemon_deactivate B False d) (\<lambda>d1.
      fassert (m_connections d1 (m_hopType c) = None) (failureGuard (bringUp B Q c d1)))) (\<lambda>ok. conn_inv)"
proof (rule daemon_deactivate_cases [of B False d])
  fix d1 assume "daemon_deactivate B False d = Inr (False, d1)"
  then show ?thesis using deactivate_inv [OF assms] by auto
next
  fix ok d1 assume d1: "daemon_deactivate B False d = Inr (ok, d1)" "m_connections d1 = (\<lambda>_. None)"
  have "post (failureGuard (bringUp B Q c d1)) (\<lambda>ok. conn_inv)"
    unfolding post_failureGuard
    by (rule post_weaken [OF bringUp_inv [OF conn_inv_none fresh_peer_none]]) (auto simp: d1(2))
  then show ?thesis using d1 deactivate_inv [OF assms d1(1)] by (cases ok) simp_all
qed

lemma activate_inv:
  assumes inv: "conn_inv d" and fresh: "fresh_peer c d" and run: "daemon_activate B Q c d = Inr (ok, d')"
  shows "conn_inv d'"
proof -
  have "post (daemon_activate B Q c d) (\<lambda>ok. conn_inv)"
    unfolding daemon_activate_ways post_failureGuard
  proof (cases "m_connections d (m_hopType c)")
    case None
    then show "post (if m_connections d (m_hopType c) \<noteq> None then
        (if supportServerSwitching c d then switchTo B Q c d
         else andThen (daemon_deactivate B False d) (\<lambda>d1.
                fassert (m_connections d1 (m_hopType c) = None) (failureGuard (bringUp B Q c d1))))
      else bringUp B Q c d) (\<lambda>ok d. conn_inv (if ok then d else d_emit ActivationFailure d))"
      using bringUp_inv [OF inv fresh, of Q] by simp
  next
    case (Some s)
    then show "post (if m_connections d (m_hopType c) \<noteq> None then
        (if supportServerSwitching c d then switchTo B Q c d
         else andThen (daemon_deactivate B False d) (\<lambda>d1.
                fassert (m_connections d1 (m_hopType c) = None) (failureGuard (bringUp B Q c d1))))
      else bringUp B Q c d) (\<lambda>ok d. conn_inv (if ok then d else d_emit ActivationFailure d))"
      using switchTo_inv [OF inv fresh Some, of Q] nested_inv [OF inv, of c Q] by simp
  qed
  then show ?thesis using run by (rule postD)
qed

lemma completed_config [simp]: "m_config (completed st s) = m_config s"
  by (simp add: completed_def)

lemma checkHandshake_connections:
  "m_connections (checkHandshake B d) h = map_option (completed (getPeerStatus B (d_backend d))) (m_connections d h)"
  "d_backend (checkHandshake B d) = d_backend d"
  by (simp_all add: checkHandshake_eq Let_def)

lemma checkHandshake_inv: "conn_inv d \<Longrightarrow> conn_inv (checkHandshake B d)"
  unfolding conn_inv_def checkHandshake_connections by (auto simp del: not_None_eq)

lemma firePollTimer_inv: "conn_inv d \<Longrightarrow> conn_inv (firePollTimer B d)"
  by (simp add: firePollTimer_def checkHandshake_inv)

end

text \<open>Utilities that always can delete a peer they know, and whose interface takes its peers along.\<close>

locale reliable_backend = peer_backend +
  assumes deletePeer_known: "peerKey c \<in> peers b \<Longrightarrow> fst (deletePeer B c b)"
    and deleteInterface_peers: "deleteInterface B b = (ok, b') \<Longrightarrow> peers b' \<subseteq> peers b"
begin

lemma deletePeer_removes: "peers (snd (deletePeer B c b)) = peers b - {peerKey c}"
proof -
  obtain ok b' where r: "deletePeer B c b = (ok, b')" by fastforce
  then show ?thesis
    using deletePeer_peers [OF r] deletePeer_known [of c b] by (cases "peerKey c \<in> peers b") auto
qed

lemma deleteRoutes_peers: "peers (d_backend (deleteRoutes B ips d)) = peers (d_backend d)"
  by (rule moved_simps(5) [OF deleteRoutes_moved [OF keeps_peers(8)]]) simp

lemma deletePeers_removes:
  "peers (d_backend (deletePeers B ss d)) = peers (d_backend d) - peerKey ` m_config ` set ss"
  by (induction ss arbitrary: d) (auto simp: Let_def dignore_def deleteRoutes_peers deletePeer_removes)

lemma deactivate_removes_peers:
  assumes "daemon_deactivate B e d = Inr (True, d')"
  shows "peers (d_backend d') \<inter> peerKey ` m_config ` set (connectionList d) = {} \<and> peers (d_backend d') \<subseteq> peers (d_backend d)"
proof (rule daemon_deactivate_cases [of B e d])
  fix ok d1 assume d1: "daemon_deactivate B e d = Inr (ok, d1)"
    and del: "(ok, d_backend d1) = deleteInterface B (d_backend (takeDown B (snd (downAccepted B d))))"
  have "peers (d_backend (snd (downAccepted B d))) = peers (d_backend d)"
    by (auto simp: downAccepted_def split: list.splits prod.splits dest: daemonRun_peers)
  then have "peers (d_backend (dignore (restoreResolvers B) (snd (downAccepted B d)))) = peers (d_backend d)"
    by (auto simp: dignore_def restoreResolvers_peers [OF prod.collapse [symmetric]])
  moreover have "connectionList (dignore (restoreResolvers B) (snd (downAccepted B d))) = connectionList d"
    using moved_simps(1) [OF downAccepted_moved [of d B]] by (simp add: connectionList_def dignore_def)
  ultimately have "peers (d_backend (takeDown B (snd (downAccepted B d)))) =
      peers (d_backend d) - peerKey ` m_config ` set (connectionList d)"
    by (simp add: takeDown_def deletePeers_removes)
  then show ?thesis
    using deleteInterface_peers [OF del [symmetric]] assms d1 by auto
next
  fix d1 assume "daemon_deactivate B e d = Inr (False, d1)"
  then show ?thesis using assms by simp
qed

end

subsection \<open>The mock utilities\<close>

text \<open>\<open>QMap<QString, qint64>\<close>: a list sorted by key.\<close>

fun qmapInsert :: "'k::linorder \<Rightarrow> 'v \<Rightarrow> ('k \<times> 'v) list \<Rightarrow> ('k \<times> 'v) list" where
  "qmapInsert k v [] = [(k, v)]"
| "qmapInsert k v ((k', v') # rest) =
     (if k < k' then (k, v) # (k', v') # rest else if k = k' then (k, v) # rest else (k', v') # qmapInsert k v rest)"

lemma keys_qmapInsert: "fst ` set (qmapInsert k v m) = insert k (fst ` set m)"
proof (induction m)
  case (Cons e m)
  then show ?case by (cases e) (simp add: insert_commute)
qed simp

lemma in_qmapInsert: "(k, v) \<in> set (qmapInsert k v m)"
proof (induction m)
  case (Cons e m)
  then show ?case by (cases e) simp
qed simp

record WireguardUtilsMock =
  m_handshakes :: "(string \<times> int) list"
  mock_now :: int

definition MOCK_HANDSHAKE_DELAY_MSEC :: int where
  "MOCK_HANDSHAKE_DELAY_MSEC = 1500"

definition mock_updatePeer :: "InterfaceConfig \<Rightarrow> WireguardUtilsMock \<Rightarrow> bool \<times> WireguardUtilsMock" where
  "mock_updatePeer config b =
     (True, b\<lparr>m_handshakes := qmapInsert (peerKey config) (mock_now b + MOCK_HANDSHAKE_DELAY_MSEC) (m_handshakes b)\<rparr>)"

definition mock_deletePeer :: "InterfaceConfig \<Rightarrow> WireguardUtilsMock \<Rightarrow> bool \<times> WireguardUtilsMock" where
  "mock_deletePeer config b =
     (peerKey config \<in> fst ` set (m_handshakes b),
      b\<lparr>m_handshakes := filter (\<lambda>e. fst e \<noteq> peerKey config) (m_handshakes b)\<rparr>)"

definition mock_peerStatus :: "int \<Rightarrow> string \<times> int \<Rightarrow> PeerStatus" where
  "mock_peerStatus now e =
     (if now > snd e then
        \<lparr>m_pubkey = fst e, m_handshake = snd e, m_rxBytes = (now - snd e) * 7, m_txBytes = (now - snd e) * 3\<rparr>
      else \<lparr>m_pubkey = fst e, m_handshake = 0, m_rxBytes = 0, m_txBytes = 0\<rparr>)"

lemma mock_peerStatus_pubkey [simp]: "m_pubkey (mock_peerStatus now e) = fst e"
  by (simp add: mock_peerStatus_def)

definition mock_getPeerStatus :: "WireguardUtilsMock \<Rightarrow> PeerStatus list" where
  "mock_getPeerStatus b = map (mock_peerStatus (mock_now b)) (m_handshakes b)"

definition mockBackend :: "WireguardUtilsMock backend" where
  "mockBackend = \<lparr>interfaceExists = (\<lambda>_. True), interfaceName = (\<lambda>_. ''moz0''),
     addInterface = (\<lambda>_ b. (True, b)), deleteInterface = (\<lambda>b. (True, b)),
     updatePeer = mock_updatePeer, deletePeer = mock_deletePeer, getPeerStatus = mock_getPeerStatus,
     updateRoutePrefix = (\<lambda>_ b. (True, b)), deleteRoutePrefix = (\<lambda>_ b. (True, b)),
     excludeLocalNetworks = (\<lambda>_ b. (True, b)), hasIPUtils = False,
     addInterfaceIPs = (\<lambda>_ b. (True, b)), setMTUAndUp = (\<lambda>_ b. (True, b)),
     updateResolvers = (\<lambda>_ _ b. (True, b)), restoreResolvers = (\<lambda>b. (True, b)),
     daemonRun = (\<lambda>_ _ b. (True, b))\<rparr>"

lemma mockBackend_simps [simp]:
  "interfaceExists mockBackend b" "updatePeer mockBackend = mock_updatePeer" "deletePeer mockBackend = mock_deletePeer"
  "getPeerStatus mockBackend = mock_getPeerStatus" "addInterface mockBackend c b = (True, b)"
  "deleteInterface mockBackend b = (True, b)" "updateRoutePrefix mockBackend ip b = (True, b)"
  "deleteRoutePrefix mockBackend ip b = (True, b)" "excludeLocalNetworks mockBackend ips b = (True, b)"
  "addInterfaceIPs mockBackend c b = (True, b)" "setMTUAndUp mockBackend c b = (True, b)"
  "updateResolvers mockBackend n rs b = (True, b)" "restoreResolvers mockBackend b = (True, b)"
  "daemonRun mockBackend op c b = (True, b)" "\<not> hasIPUtils mockBackend"
  by (simp_all add: mockBackend_def)

definition mock_peers :: "WireguardUtilsMock \<Rightarrow> string set" where
  "mock_peers b = fst ` set (m_handshakes b)"

lemma mock_deletePeer_peers: "mock_peers (snd (mock_deletePeer c b)) = mock_peers b - {peerKey c}"
  by (force simp: mock_deletePeer_def mock_peers_def)

lemma mock_updatePeer_peers: "mock_peers (snd (mock_updatePeer c b)) = insert (peerKey c) (mock_peers b)"
  by (simp add: mock_updatePeer_def mock_peers_def keys_qmapInsert)

interpretation mock: reliable_backend mockBackend mock_peers
proof
  fix c b ok b' assume r: "deletePeer mockBackend c b = (ok, b')"
  then have "ok \<longleftrightarrow> peerKey c \<in> mock_peers b" "b' = snd (mock_deletePeer c b)"
    by (auto simp: mock_deletePeer_def mock_peers_def)
  then show "mock_peers b' = (if ok then mock_peers b - {peerKey c} else mock_peers b)"
    by (simp add: mock_deletePeer_peers)
next
  fix c b ok b' assume "updatePeer mockBackend c b = (ok, b')"
  then have "ok" "b' = snd (mock_updatePeer c b)" by (auto simp: mock_updatePeer_def)
  then show "mock_peers b' = (if ok then insert (peerKey c) (mock_peers b) else mock_peers b)"
    by (simp add: mock_updatePeer_peers)
next
  fix b show "m_pubkey ` set (getPeerStatus mockBackend b) = mock_peers b"
    by (simp add: mock_getPeerStatus_def mock_peers_def image_image mock_peerStatus_pubkey)
qed (auto simp: mock_deletePeer_def mock_peers_def)

text \<open>\<open>MockDaemon::activate\<close>: the addresses become loopback addresses.\<close>

definition mock_config :: "InterfaceConfig \<Rightarrow> InterfaceConfig" where
  "mock_config config = config\<lparr>m_serverIpv4Gateway := Some ''127.0.0.1'', m_serverIpv6Gateway := Some ''::1'',
     m_deviceIpv4Address := Some ''127.0.0.1'', m_deviceIpv6Address := Some ''::1''\<rparr>"

definition mock_activate ::
    "qt_net \<Rightarrow> InterfaceConfig \<Rightarrow> WireguardUtilsMock Daemon \<Rightarrow> WireguardUtilsMock Daemon outcome" where
  "mock_activate Q config =
     activate_body mockBackend Q
       (\<lambda>c. activate_body mockBackend Q (\<lambda>_ _. Inl Assertion_failed) (daemon_deactivate mockBackend) (mock_config c))
       (daemon_deactivate mockBackend) (mock_config config)"

lemma mock_config_idem [simp]: "mock_config (mock_config c) = mock_config c"
  by (simp add: mock_config_def)

lemma mock_activate_eq: "mock_activate Q c d = daemon_activate mockBackend Q (mock_config c) d"
  by (simp add: mock_activate_def daemon_activate_def activate_body_def)

subsection \<open>The mock daemon as a system\<close>

text \<open>
  The client activates hops with distinct servers (anything else is refused by the client's own
  choice of servers), deactivates, the poll timer fires, and time passes.
\<close>

definition passTime :: "int \<Rightarrow> WireguardUtilsMock Daemon \<Rightarrow> WireguardUtilsMock Daemon" where
  "passTime n d = d\<lparr>d_backend := (d_backend d)\<lparr>mock_now := n\<rparr>\<rparr>"

inductive mock_step :: "qt_net \<Rightarrow> WireguardUtilsMock Daemon \<Rightarrow> WireguardUtilsMock Daemon \<Rightarrow> bool" for Q :: qt_net where
  step_activate: "mock.fresh_peer c d \<Longrightarrow> mock_activate Q c d = Inr (ok, d') \<Longrightarrow> mock_step Q d d'"
| step_deactivate: "daemon_deactivate mockBackend e d = Inr (ok, d') \<Longrightarrow> mock_step Q d d'"
| step_poll: "mock_step Q d (firePollTimer mockBackend d)"
| step_time: "mock_now (d_backend d) \<le> n \<Longrightarrow> mock_step Q d (passTime n d)"

definition mock_init :: "WireguardUtilsMock Daemon \<Rightarrow> bool" where
  "mock_init d \<longleftrightarrow> (\<exists>n. d = newDaemon \<lparr>m_handshakes = [], mock_now = n\<rparr>)"

text \<open>The peers are the peers of the recorded connections, no more and no less.\<close>

definition connectionKeys :: "('b, 'z) Daemon_scheme \<Rightarrow> string set" where
  "connectionKeys d = {peerKey (m_config s) | h s. m_connections d h = Some s}"

definition mock_inv :: "WireguardUtilsMock Daemon \<Rightarrow> bool" where
  "mock_inv d \<longleftrightarrow> mock.conn_inv d \<and> mock_peers (d_backend d) = connectionKeys d"

lemma peerKey_mock_config [simp]: "peerKey (mock_config c) = peerKey c" "m_hopType (mock_config c) = m_hopType c"
  by (simp_all add: mock_config_def peerKey_def)

lemma fresh_peer_mock_config [simp]: "mock.fresh_peer (mock_config c) d \<longleftrightarrow> mock.fresh_peer c d"
  by (simp add: mock.fresh_peer_def)

lemma mock_updateRoutes [simp]: "updateRoutes mockBackend ips d = Inr (True, d)"
  by (induction ips) (simp_all add: dcall_def)

lemma mock_maybeUpdateResolvers [simp]: "maybeUpdateResolvers mockBackend Q c d = Inr (True, d)"
  by (simp add: maybeUpdateResolvers_def dcall_def)

lemma mock_deleteRoutes [simp]: "deleteRoutes mockBackend ips d = d"
  by (induction ips) (simp_all add: dignore_def)

lemma mock_switchRoutes [simp]: "switchRoutes mockBackend ips d = d"
  by (induction ips) simp_all

lemma mock_bringUp:
  "bringUp mockBackend Q c d = Inr (True, recordConnection c (d\<lparr>d_backend := snd (mock_updatePeer c (d_backend d))\<rparr>))"
  by (simp add: bringUp_def dcall_def mock_updatePeer_def)

text \<open>On the mock a switch succeeds, because the old peer is known.\<close>

definition mock_switched :: "InterfaceConfig \<Rightarrow> InterfaceConfig \<Rightarrow> WireguardUtilsMock \<Rightarrow> WireguardUtilsMock" where
  "mock_switched c old b =
     (let b = snd (mock_updatePeer c b) in if peerKey c = peerKey old then b else snd (mock_deletePeer old b))"

lemma mock_switchTo:
  assumes "mock.conn_inv d" "m_connections d (m_hopType c) = Some s"
  shows "switchTo mockBackend Q c d = Inr (True, recordConnection c (d\<lparr>d_backend := mock_switched c (m_config s) (d_backend d)\<rparr>))"
proof -
  have key: "qEq (m_serverPublicKey c) (m_serverPublicKey (m_config s)) \<longleftrightarrow> peerKey c = peerKey (m_config s)"
    by (simp add: qEq_def peerKey_def)
  obtain b1 where up: "mock_updatePeer c (d_backend d) = (True, b1)" by (simp add: mock_updatePeer_def)
  have "peerKey (m_config s) \<in> mock_peers b1"
    using assms mock_updatePeer_peers [of c "d_backend d"] by (auto simp: mock.conn_inv_def up)
  then obtain b2 where del: "mock_deletePeer (m_config s) b1 = (True, b2)"
    by (simp add: mock_deletePeer_def mock_peers_def)
  have "switchServer mockBackend c d = Inr (True, setConnection c (d\<lparr>d_backend := mock_switched c (m_config s) (d_backend d)\<rparr>))"
    unfolding switchServer_def assms(2) option.case Let_def key
    by (cases "peerKey c = peerKey (m_config s)") (simp_all add: dcall_def up del mock_switched_def setConnection_def)
  then show ?thesis by (simp add: switchTo_def dcall_def)
qed

definition otherKeys :: "HopType \<Rightarrow> ('b, 'z) Daemon_scheme \<Rightarrow> string set" where
  "otherKeys h0 d = {peerKey (m_config s) | h s. m_connections d h = Some s \<and> h \<noteq> h0}"

lemma connectionKeys_record:
  "connectionKeys (recordConnection c d) = insert (peerKey c) (otherKeys (m_hopType c) d)"
  by (auto simp: connectionKeys_def otherKeys_def recordConnection_def newConnection_def split: if_splits)

lemma otherKeys_backend [simp]: "otherKeys h (d\<lparr>d_backend := b\<rparr>) = otherKeys h d"
  by (simp add: otherKeys_def)

lemma otherKeys_fresh: "m_connections d h = None \<Longrightarrow> otherKeys h d = connectionKeys d"
  unfolding otherKeys_def connectionKeys_def by (metis option.distinct(1))

lemma otherKeys_known:
  assumes "mock.conn_inv d" "m_connections d h = Some s"
  shows "otherKeys h d = connectionKeys d - {peerKey (m_config s)}"
proof -
  have "peerKey (m_config s') \<noteq> peerKey (m_config s)" if "m_connections d h' = Some s'" "h' \<noteq> h" for h' s'
    using assms that unfolding mock.conn_inv_def by blast
  then show ?thesis
    using assms(2) by (fastforce simp: otherKeys_def connectionKeys_def)
qed

lemma keys_connectionList: "connectionKeys d = peerKey ` m_config ` set (connectionList d)"
proof -
  have "h \<in> set hops" for h by (cases h) (simp_all add: hops_def)
  then show ?thesis
    by (force simp: connectionKeys_def connectionList_def List.map_filter_def)
qed

lemma mock_deactivate:
  assumes "mock_inv d"
  shows "\<exists>d'. daemon_deactivate mockBackend e d = Inr (True, d') \<and> m_connections d' = (\<lambda>_. None) \<and>
    mock_peers (d_backend d') = {} \<and> d_signals d' = d_signals d @ (if e then [Disconnected] else []) \<and>
    m_pollTimer d' = m_pollTimer d"
proof (rule daemon_deactivate_cases [of mockBackend e d])
  assume "\<not> fst (downAccepted mockBackend d)"
  moreover have "fst (downAccepted mockBackend d)" by (simp add: downAccepted_def split: list.splits)
  ultimately show ?thesis by blast
next
  fix ok d1 assume d1: "daemon_deactivate mockBackend e d = Inr (ok, d1)" "m_connections d1 = (\<lambda>_. None)"
      "m_pollTimer d1 = m_pollTimer d" "d_signals d1 = d_signals d @ (if e then [Disconnected] else [])"
    and "(ok, d_backend d1) = deleteInterface mockBackend (d_backend (takeDown mockBackend (snd (downAccepted mockBackend d))))"
  then have ok: "ok" by simp
  have "mock_peers (d_backend d1) = {}"
    using mock.deactivate_removes_peers [OF d1(1) [unfolded ok [THEN eqTrueI]]] assms keys_connectionList [of d]
    by (auto simp: mock_inv_def)
  with d1 ok show ?thesis by simp
qed

lemma mock_inv_none: "m_connections d = (\<lambda>_. None) \<Longrightarrow> mock_peers (d_backend d) = {} \<Longrightarrow> mock_inv d"
  by (simp add: mock_inv_def mock.conn_inv_none connectionKeys_def)

lemma mock_inv_bringUp:
  assumes "mock_inv d" "mock.fresh_peer c d" "m_connections d (m_hopType c) = None"
  shows "mock_inv (recordConnection c (d\<lparr>d_backend := snd (mock_updatePeer c (d_backend d))\<rparr>))"
proof -
  define d1 where "d1 = d\<lparr>d_backend := snd (mock_updatePeer c (d_backend d))\<rparr>"
  have "mock.conn_inv (recordConnection c d1)"
    using mock.bringUp_inv [of d c] assms by (auto simp: mock_inv_def mock_bringUp d1_def)
  moreover have "mock_peers (d_backend (recordConnection c d1)) = connectionKeys (recordConnection c d1)"
    using assms by (simp add: connectionKeys_record d1_def otherKeys_fresh mock_inv_def)
       (simp add: recordConnection_def mock_updatePeer_peers)
  ultimately show ?thesis by (simp add: mock_inv_def d1_def)
qed

lemma mock_inv_switch:
  assumes inv: "mock_inv d" and "mock.fresh_peer c d" and old: "m_connections d (m_hopType c) = Some s"
  shows "mock_inv (recordConnection c (d\<lparr>d_backend := mock_switched c (m_config s) (d_backend d)\<rparr>))"
proof -
  define d1 where "d1 = d\<lparr>d_backend := mock_switched c (m_config s) (d_backend d)\<rparr>"
  have ci: "mock.conn_inv d" using inv by (simp add: mock_inv_def)
  have "mock.conn_inv (recordConnection c d1)"
    using mock.switchTo_inv [OF ci assms(2) old] by (simp add: mock_switchTo [OF ci old] d1_def)
  moreover have "mock_peers (mock_switched c (m_config s) (d_backend d)) = insert (peerKey c) (mock_peers (d_backend d) - {peerKey (m_config s)})"
    by (auto simp: mock_switched_def Let_def mock_deletePeer_peers mock_updatePeer_peers)
  then have "mock_peers (d_backend (recordConnection c d1)) = connectionKeys (recordConnection c d1)"
    using inv by (simp add: connectionKeys_record d1_def otherKeys_known [OF ci old] mock_inv_def)
       (simp add: recordConnection_def)
  ultimately show ?thesis by (simp add: mock_inv_def d1_def)
qed

lemma failureGuard_True [simp]: "failureGuard (Inr (True, d)) = Inr (True, d)"
  by (simp add: failureGuard_def)

lemma mock_activate_ok:
  assumes inv: "mock_inv d" and fresh: "mock.fresh_peer c d"
  shows "\<exists>d1. daemon_activate mockBackend Q c d = Inr (True, recordConnection c d1) \<and> mock_inv (recordConnection c d1) \<and>
     d_signals d1 = d_signals d \<and> (peerKey c, mock_now (d_backend d1) + MOCK_HANDSHAKE_DELAY_MSEC) \<in> set (m_handshakes (d_backend d1))"
proof -
  have ci: "mock.conn_inv d" using inv by (simp add: mock_inv_def)
  have hs: "(peerKey c, mock_now b + MOCK_HANDSHAKE_DELAY_MSEC) \<in> set (m_handshakes (snd (mock_updatePeer c b)))" for b
    by (simp add: mock_updatePeer_def in_qmapInsert)
  consider (fresh) "m_connections d (m_hopType c) = None"
    | (switch) s where "m_connections d (m_hopType c) = Some s" "supportServerSwitching c d"
    | (again) s where "m_connections d (m_hopType c) = Some s" "\<not> supportServerSwitching c d"
    by (cases "m_connections d (m_hopType c)") auto
  then show ?thesis
  proof cases
    case fresh
    then show ?thesis
      using mock_inv_bringUp [OF inv assms(2)] hs [of "d_backend d"]
      by (intro exI [of _ "d\<lparr>d_backend := snd (mock_updatePeer c (d_backend d))\<rparr>"])
         (simp add: daemon_activate_ways mock_bringUp mock_updatePeer_def)
  next
    case (switch s)
    have "(peerKey c, mock_now (mock_switched c (m_config s) (d_backend d)) + MOCK_HANDSHAKE_DELAY_MSEC)
        \<in> set (m_handshakes (mock_switched c (m_config s) (d_backend d)))"
      by (simp add: mock_switched_def Let_def mock_deletePeer_def mock_updatePeer_def in_qmapInsert)
    then show ?thesis
      using mock_inv_switch [OF inv assms(2) switch(1)] switch mock_switchTo [OF ci switch(1)]
      by (intro exI [of _ "d\<lparr>d_backend := mock_switched c (m_config s) (d_backend d)\<rparr>"])
         (simp add: daemon_activate_ways)
  next
    case (again s)
    obtain d1 where d1: "daemon_deactivate mockBackend False d = Inr (True, d1)" "m_connections d1 = (\<lambda>_. None)"
        "mock_peers (d_backend d1) = {}" "d_signals d1 = d_signals d"
      using mock_deactivate [OF inv, of False] by auto
    then show ?thesis
      using mock_inv_bringUp [OF mock_inv_none [OF d1(2,3)] mock.fresh_peer_none [OF d1(2)], of c] hs [of "d_backend d1"] again
      by (intro exI [of _ "d1\<lparr>d_backend := snd (mock_updatePeer c (d_backend d1))\<rparr>"])
         (simp add: daemon_activate_ways mock_bringUp mock_updatePeer_def)
  qed
qed

lemma connectionKeys_alt:
  "connectionKeys d = (\<Union>h. set_option (map_option (\<lambda>s. peerKey (m_config s)) (m_connections d h)))"
  by (auto simp: connectionKeys_def)

lemma connectionKeys_poll:
  fixes d :: "WireguardUtilsMock Daemon"
  shows "connectionKeys (firePollTimer mockBackend d) = connectionKeys d"
proof -
  have "connectionKeys (checkHandshake mockBackend e) = connectionKeys e" for e :: "WireguardUtilsMock Daemon"
    by (simp add: connectionKeys_alt mock.checkHandshake_connections option.map_comp comp_def)
  moreover have "connectionKeys (d\<lparr>m_pollTimer := t\<rparr>) = connectionKeys d" for t
    by (simp add: connectionKeys_def)
  ultimately show ?thesis by (simp add: firePollTimer_def)
qed

lemma mock_inv_poll:
  assumes "mock_inv d"
  shows "mock_inv (firePollTimer mockBackend d)"
proof -
  have "mock.conn_inv (firePollTimer mockBackend d)"
    using assms mock.firePollTimer_inv unfolding mock_inv_def by blast
  moreover have "d_backend (firePollTimer mockBackend d) = d_backend d"
    by (simp add: firePollTimer_def mock.checkHandshake_connections)
  ultimately show ?thesis using assms by (simp add: mock_inv_def connectionKeys_poll)
qed

lemma mock_inv_time: "mock_inv d \<Longrightarrow> mock_inv (passTime n d)"
  by (auto simp: mock_inv_def passTime_def mock.conn_inv_def connectionKeys_def mock_peers_def)

interpretation mock_system: invariant_system mock_init "mock_step Q" mock_inv for Q
proof
  show "mock_inv d" if "mock_init d" for d
    using that by (auto simp: mock_init_def newDaemon_def mock_peers_def intro: mock_inv_none)
  show "mock_inv d'" if inv: "mock_inv d" and step: "mock_step Q d d'" for d d'
    using step
  proof cases
    case (step_activate c ok)
    then obtain d1 where "daemon_activate mockBackend Q (mock_config c) d = Inr (True, recordConnection (mock_config c) d1)"
        "mock_inv (recordConnection (mock_config c) d1)"
      using mock_activate_ok [OF inv, of "mock_config c" Q] by auto
    then show ?thesis using step_activate(2) by (simp add: mock_activate_eq)
  next
    case (step_deactivate e ok)
    then show ?thesis using mock_deactivate [OF inv, of e] by (auto intro: mock_inv_none)
  qed (simp_all add: inv mock_inv_poll mock_inv_time)
qed

text \<open>The first connection of an idle mock daemon: it is accepted silently and announced by a later poll.\<close>

lemma mock_first_connection:
  assumes "mock_inv d" "m_connections d = (\<lambda>_. None)"
  obtains d1 where "mock_activate Q c d = Inr (True, d1)" "d_signals d1 = d_signals d"
    "mock_now (d_backend d1) = mock_now (d_backend d)" "m_connections d1 (m_hopType c) = Some \<lparr>m_date = None, m_config = mock_config c\<rparr>"
    "\<And>n. n > mock_now (d_backend d) + 1500 \<Longrightarrow> mock_now (d_backend d) \<ge> 0 \<Longrightarrow>
       d_signals (firePollTimer mockBackend (passTime n d1)) = d_signals d @ [Connected (peerKey c)]"
proof -
  define b where "b = snd (mock_updatePeer (mock_config c) (d_backend d))"
  define d1 where "d1 = recordConnection (mock_config c) (d\<lparr>d_backend := b\<rparr>)"
  have key: "peerKey (mock_config c) = peerKey c" "m_hopType (mock_config c) = m_hopType c"
    by (simp_all add: mock_config_def peerKey_def)
  have run: "mock_activate Q c d = Inr (True, d1)"
    using assms(2) by (simp add: mock_activate_eq daemon_activate_ways mock_bringUp d1_def b_def)
  have "mock_peers (d_backend d) = {}" using assms by (simp add: mock_inv_def connectionKeys_def)
  then have "m_handshakes (d_backend d) = []" by (simp add: mock_peers_def)
  then have b: "m_handshakes b = [(peerKey c, mock_now (d_backend d) + MOCK_HANDSHAKE_DELAY_MSEC)]" "mock_now b = mock_now (d_backend d)"
    by (simp_all add: b_def mock_updatePeer_def key)
  have "d_signals (firePollTimer mockBackend (passTime n d1)) = d_signals d @ [Connected (peerKey c)]"
    if "n > mock_now (d_backend d) + 1500" "mock_now (d_backend d) \<ge> 0" for n
  proof -
    define s0 where "s0 = newConnection (mock_config c)"
    define st where "st = mock_getPeerStatus (b\<lparr>mock_now := n\<rparr>)"
    have "handshakes st s0 = st" "map m_pubkey st = [peerKey c]"
      using that by (simp_all add: st_def mock_getPeerStatus_def b handshakes_def s0_def newConnection_def mock_peerStatus_def
          MOCK_HANDSHAKE_DELAY_MSEC_def mock_config_def peerKey_def)
    then have ann: "announced st s0 = [Connected (peerKey c)]"
      by (auto simp: announced_def s0_def newConnection_def)
    have fire: "firePollTimer mockBackend (passTime n d1) = checkHandshake mockBackend ((passTime n d1)\<lparr>m_pollTimer := None\<rparr>)"
      by (simp add: firePollTimer_def passTime_def d1_def recordConnection_def)
    define x where "x = (passTime n d1)\<lparr>m_pollTimer := None\<rparr>"
    have "connectionList x = [s0]"
      using assms(2) by (cases "m_hopType c")
        (simp_all add: x_def connectionList_def hops_def map_filter_simps passTime_def d1_def recordConnection_def s0_def key)
    moreover have "mock_getPeerStatus (d_backend x) = st" "d_signals x = d_signals d"
      by (simp_all add: x_def st_def passTime_def d1_def recordConnection_def)
    ultimately have "d_signals (checkHandshake mockBackend x) = d_signals d @ [Connected (peerKey c)]"
      using ann by (simp add: checkHandshake_eq Let_def)
    then show ?thesis by (simp only: fire x_def)
  qed
  moreover have "m_connections d1 (m_hopType c) = Some \<lparr>m_date = None, m_config = mock_config c\<rparr>"
    by (simp add: d1_def recordConnection_def newConnection_def key)
  ultimately show ?thesis
    using that [of d1] run b(2) by (simp add: d1_def recordConnection_def)
qed

subsection \<open>Properties\<close>


definition lanNet :: qt_net where
  "lanNet = exampleNet\<lparr>qParseSubnet := (\<lambda>s. (IPv4Address 0, 0))\<rparr>"

definition idleMock :: "WireguardUtilsMock Daemon" where
  "idleMock = newDaemon \<lparr>m_handshakes = [], mock_now = 1000\<rparr>"


text \<open>
  A deactivation always returns.  Either the platform refuses to go down, and then the recorded
  connections, the poll timer and the signals are as before and the answer is false; or no connection
  is left, the answer is that of deleting the interface, and \<open>disconnected\<close> is announced exactly
  when signals were asked for.
\<close>

lemma daemon_deactivate_outcome:
  "\<exists>ok d'. daemon_deactivate B emitSignals d = Inr (ok, d') \<and> m_pollTimer d' = m_pollTimer d \<and>
     (if connectionList d \<noteq> [] \<and> \<not> fst (daemonRun B Down (m_config (hd (connectionList d))) (d_backend d))
      then \<not> ok \<and> m_connections d' = m_connections d \<and> d_signals d' = d_signals d
      else m_connections d' = (\<lambda>_. None) \<and> connectionList d' = [] \<and>
           d_signals d' = d_signals d @ (if emitSignals then [Disconnected] else []))"
proof -
  have acc: "fst (downAccepted B d) \<longleftrightarrow>
      \<not> (connectionList d \<noteq> [] \<and> \<not> fst (daemonRun B Down (m_config (hd (connectionList d))) (d_backend d)))"
    by (auto simp: downAccepted_def split: list.splits prod.splits)
  show ?thesis
    unfolding acc [symmetric, simplified not_not, THEN arg_cong [where f = Not], simplified not_not]
    by (rule daemon_deactivate_cases [of B emitSignals d])
       (auto simp: moved_simps acc connectionList_def map_filter_simps hops_def)
qed

text \<open>
  A check for handshakes completes exactly the connections whose peer reports one: the date of a
  pending connection becomes the reported time, each such report is announced, dates already known
  are kept, and the poll timer is started again exactly when some connection is still pending.
\<close>

lemma checkHandshake_exact:
  "m_connections (checkHandshake B d) = (\<lambda>h. map_option (completed (getPeerStatus B (d_backend d))) (m_connections d h)) \<and>
   d_signals (checkHandshake B d) = d_signals d @ concat (map (announced (getPeerStatus B (d_backend d))) (connectionList d)) \<and>
   d_backend (checkHandshake B d) = d_backend d \<and>
   m_pollTimer (checkHandshake B d) =
     (if \<exists>s\<in>set (connectionList (checkHandshake B d)). m_date s = None then Some 250 else m_pollTimer d)"
proof -
  define st where "st = getPeerStatus B (d_backend d)"
  have conns: "m_connections (checkHandshake B d) = (\<lambda>h. map_option (completed st) (m_connections d h))"
    by (simp add: checkHandshake_eq Let_def st_def)
  have list: "connectionList (checkHandshake B d) = map (completed st) (connectionList d)"
    by (simp add: connectionList_def conns hops_def map_filter_simps split: option.splits)
  have rest: "d_signals (checkHandshake B d) = d_signals d @ concat (map (announced st) (connectionList d))"
    "d_backend (checkHandshake B d) = d_backend d"
    "m_pollTimer (checkHandshake B d) =
       (if \<exists>s\<in>set (connectionList d). m_date (completed st s) = None then Some 250 else m_pollTimer d)"
    by (auto simp: checkHandshake_eq Let_def st_def HANDSHAKE_POLL_MSEC_def)
  show ?thesis
    unfolding st_def [symmetric] list conns rest by simp
qed



text \<open>
  The handshake of the mock daemon completes: whenever the poll timer fires more than a second and
  a half after a successful activation in a reachable state, the connection is announced as connected
  and gets its date.
\<close>

theorem mock_handshake_completes:
  assumes "reachable mock_init (mock_step Q) d"
    and "\<forall>h s. m_connections d h = Some s \<longrightarrow> h \<noteq> m_hopType c \<longrightarrow> peerKey (m_config s) \<noteq> peerKey c"
    and "mock_activate Q c d = Inr (True, d1)" and "n > mock_now (d_backend d1) + 1500" and "mock_now (d_backend d1) \<ge> 0"
  shows "Connected (peerKey c) \<in> set (d_signals (firePollTimer mockBackend (passTime n d1))) \<and>
    (\<exists>s t. m_connections (firePollTimer mockBackend (passTime n d1)) (m_hopType c) = Some s \<and> m_date s = Some t)"
proof -
  have inv: "mock_inv d" by (rule mock_system.reachable_inv [OF assms(1)])
  obtain d0 where d1: "d1 = recordConnection (mock_config c) d0"
    and hs: "(peerKey c, mock_now (d_backend d0) + MOCK_HANDSHAKE_DELAY_MSEC) \<in> set (m_handshakes (d_backend d0))"
    using mock_activate_ok [OF inv, of "mock_config c" Q] assms(2,3) by (auto simp: mock.fresh_peer_def mock_activate_eq)
  define s0 where "s0 = newConnection (mock_config c)"
  define st where "st = mock_getPeerStatus ((d_backend d0)\<lparr>mock_now := n\<rparr>)"
  define p where "p = mock_peerStatus n (peerKey c, mock_now (d_backend d0) + MOCK_HANDSHAKE_DELAY_MSEC)"
  have same: "d_backend d1 = d_backend d0" by (simp add: d1 recordConnection_def)
  have "p \<in> set st" using hs by (auto simp: st_def mock_getPeerStatus_def p_def)
  moreover have "m_pubkey p = peerKey c" "m_handshake p \<noteq> 0"
    using assms(4,5) same by (simp_all add: p_def mock_peerStatus_def MOCK_HANDSHAKE_DELAY_MSEC_def)
  moreover have "qtext (m_serverPublicKey (mock_config c)) = peerKey c"
    by (simp add: mock_config_def peerKey_def)
  ultimately have p: "p \<in> set (handshakes st s0)" by (simp add: handshakes_def s0_def newConnection_def)
  have date: "m_date s0 = None" by (simp add: s0_def newConnection_def)
  have fire: "firePollTimer mockBackend (passTime n d1) = checkHandshake mockBackend ((passTime n d1)\<lparr>m_pollTimer := None\<rparr>)"
    by (simp add: firePollTimer_def passTime_def d1 recordConnection_def)
  have conn: "m_connections (passTime n d1) (m_hopType c) = Some s0" "d_backend (passTime n d1) = (d_backend d0)\<lparr>mock_now := n\<rparr>"
    by (simp_all add: passTime_def d1 recordConnection_def s0_def)
  then have "s0 \<in> set (connectionList ((passTime n d1)\<lparr>m_pollTimer := None\<rparr>))"
    by (cases "m_hopType c") (auto simp: connectionList_def hops_def map_filter_simps split: option.splits)
  moreover have "Connected (peerKey c) \<in> set (announced st s0)"
    using p date \<open>m_pubkey p = peerKey c\<close> by (force simp: announced_def)
  ultimately show ?thesis
    using p date conn
    by (auto simp: fire checkHandshake_eq Let_def st_def [symmetric] completed_def)
qed

theorem mock_handshake_completes_witness:
  "\<exists>d1. mock_activate lanNet exampleConfig idleMock = Inr (True, d1) \<and>
     Connected ''def='' \<in> set (d_signals (firePollTimer mockBackend (passTime 3000 d1)))"
proof -
  define d1 where "d1 = recordConnection (mock_config exampleConfig)
    (idleMock\<lparr>d_backend := snd (mock_updatePeer (mock_config exampleConfig) (d_backend idleMock))\<rparr>)"
  have start: "reachable mock_init (mock_step lanNet) idleMock"
    by (rule reach_init) (auto simp: mock_init_def idleMock_def)
  have none: "m_connections idleMock = (\<lambda>_. None)" by (simp add: idleMock_def newDaemon_def)
  then have run: "mock_activate lanNet exampleConfig idleMock = Inr (True, d1)"
    by (simp add: mock_activate_eq daemon_activate_ways mock_bringUp d1_def)
  have now: "mock_now (d_backend d1) = 1000"
    by (simp add: d1_def recordConnection_def mock_updatePeer_def idleMock_def newDaemon_def)
  have "peerKey exampleConfig = ''def=''" by (simp add: peerKey_def exampleConfig_def)
  then show ?thesis
    using mock_handshake_completes [OF start _ run, of 3000] none now run by auto
qed

end
