(* ===== verification/Local_Socket.thy ===== *)
theory Local_Socket
  imports VPN_Controller Daemon_Mock
begin

text \<open>
  The local socket between the client and the daemon:
  \<^verbatim>\<open>src/src/localsocketcontroller.cpp\<close> on the side of the client and
  \<^verbatim>\<open>src/src/daemon/daemonlocalserverconnection.cpp\<close> on the side of the daemon.  Messages are JSON
  objects in their compact text form, one per line.  A socket is modelled by the bytes written to it
  and by the chunks a reader finds.  The daemon behind a connection is a record of its virtual
  operations; \<open>mockOps\<close> is the instance of the mock daemon.
\<close>

subsection \<open>Lines\<close>

text \<open>\<open>QByteArray::trimmed\<close> removes ASCII white space.\<close>

definition isByteSpace :: "char \<Rightarrow> bool" where
  [qstring_defs]: "isByteSpace c \<longleftrightarrow> c \<in> {CHR 0x09, CHR 0x0A, CHR 0x0B, CHR 0x0C, CHR 0x0D, CHR 0x20}"

definition bytesTrimmed :: "string \<Rightarrow> string" where
  [qstring_defs]: "bytesTrimmed s = rev (dropWhile isByteSpace (rev (dropWhile isByteSpace s)))"

definition newline :: char where
  "newline = CHR 0x0A"

text \<open>The loop of both readers over the buffered bytes: complete lines are handled, the rest stays.\<close>

function readLoop :: "(string \<Rightarrow> 's \<Rightarrow> fault + 's) \<Rightarrow> string \<Rightarrow> 's \<Rightarrow> fault + string \<times> 's" where
  "readLoop parse buffer s =
     (let pos = indexOf buffer newline in
      if pos = -1 then Inr (buffer, s)
      else let line = left buffer pos; buffer = midFrom buffer (pos + 1); command = bytesTrimmed line in
           if command = [] then readLoop parse buffer s
           else fbind (parse command s) (readLoop parse buffer))"
  by auto

termination readLoop
proof (relation "measure (\<lambda>(parse, buffer, s). length buffer)")
  have shorter: "length (midFrom b (indexOf b newline + 1)) < length b" if "indexOf b newline \<noteq> -1" for b
  proof -
    have "0 \<le> indexOf b newline" using that indexOf_neg indexOf_nonneg_iff by blast
    moreover have "b \<noteq> []" using that by auto
    ultimately show ?thesis by (simp add: midFrom_def)
  qed
  then show "((parse, y, s), (parse, b, s)) \<in> measure (\<lambda>(parse, buffer, s). length buffer)"
    if "x = indexOf b newline" "x \<noteq> -1" "xa = left b x" "y = midFrom b (x + 1)" for parse :: "string \<Rightarrow> 's \<Rightarrow> fault + 's" and b s x xa y
    using that by simp
  show "((parse, y, xc), (parse, b, s)) \<in> measure (\<lambda>(parse, buffer, s). length buffer)"
    if "x = indexOf b newline" "x \<noteq> -1" "xa = left b x" "y = midFrom b (x + 1)" for parse :: "string \<Rightarrow> 's \<Rightarrow> fault + 's" and b s x xa y xc
    using that shorter by simp
qed simp

declare readLoop.simps [simp del]

subsection \<open>The client\<close>

datatype DaemonState = eUnknown | eInitializing | eReady | eDisconnected

datatype socket_event =
    ImplInitialized bool bool "int option"
  | ImplConnected string
  | ImplDisconnected
  | ImplBackendFailure int
  | ImplStatusUpdated ControllerStatus
  | SocketAbort
  | ConnectToServer
  | LogsWritten string
  | LogsClosed

record LocalSocketController =
  m_daemonState :: DaemonState
  m_logReceiver :: bool
  m_initializingTimer :: "32 word option"
  m_initializingInterval :: "32 word"
  m_splitTunnelSupported :: bool
  m_responseTimeouts :: "string list"
  l_written :: string
  l_events :: "socket_event list"

definition CONNECTION_RETRY_INITIAL_MSEC :: "32 word" where
  "CONNECTION_RETRY_INITIAL_MSEC = 500"

definition CONNECTION_RETRY_MAXIMUM_MSEC :: "32 word" where
  "CONNECTION_RETRY_MAXIMUM_MSEC = 16000"

definition newLocalSocketController :: LocalSocketController where
  "newLocalSocketController = \<lparr>m_daemonState = eUnknown, m_logReceiver = False, m_initializingTimer = None,
     m_initializingInterval = CONNECTION_RETRY_INITIAL_MSEC, m_splitTunnelSupported = False, m_responseTimeouts = [],
     l_written = [], l_events = []\<rparr>"

definition l_emit :: "socket_event \<Rightarrow> LocalSocketController \<Rightarrow> LocalSocketController" where
  "l_emit e l = l\<lparr>l_events := l_events l @ [e]\<rparr>"

text \<open>A message that expects an answer starts a timer, which is represented by the type of that answer.\<close>

definition l_write :: "json_codec \<Rightarrow> json_object \<Rightarrow> string \<Rightarrow> LocalSocketController \<Rightarrow> LocalSocketController" where
  "l_write C message expectedResponseType l =
     (let payload = jsonToText C message @ [newline];
          l = (if expectedResponseType \<noteq> [] then l\<lparr>m_responseTimeouts := m_responseTimeouts l @ [expectedResponseType]\<rparr> else l)
      in l\<lparr>l_written := l_written l @ payload\<rparr>)"

text \<open>
  \<open>clearTimeout\<close> removes the timers of one type from the list it iterates over.  That visits every
  timer when at most one matches or when the matching ones come first; otherwise the
  iteration goes on over cells that were moved, and can read a deleted timer.
\<close>

definition clearTimeout :: "string \<Rightarrow> LocalSocketController \<Rightarrow> fault + LocalSocketController" where
  "clearTimeout responseType l =
     (let timers = m_responseTimeouts l; others = filter (\<lambda>t. t \<noteq> responseType) timers;
          n = length timers - length others in
      if n \<le> 1 \<or> timers = replicate n responseType @ others then Inr (l\<lparr>m_responseTimeouts := others\<rparr>)
      else Inl Iterator_invalidated)"

definition errorOccurred :: "LocalSocketController \<Rightarrow> LocalSocketController" where
  "errorOccurred l =
     (let l = (if m_daemonState l \<noteq> eInitializing then l_emit ImplDisconnected (l_emit (ImplBackendFailure 0) l) else l)
      in l\<lparr>m_responseTimeouts := [], m_initializingTimer := Some (m_initializingInterval l)\<rparr>)"

definition disconnectInternal :: "LocalSocketController \<Rightarrow> LocalSocketController" where
  "disconnectInternal l = l_emit ImplDisconnected (l\<lparr>m_daemonState := eReady, m_initializingTimer := None\<rparr>)"

definition initializeInternal :: "LocalSocketController \<Rightarrow> LocalSocketController" where
  "initializeInternal l =
     (let l = (if m_daemonState l \<noteq> eInitializing then l\<lparr>m_initializingInterval := CONNECTION_RETRY_INITIAL_MSEC\<rparr>
               else if m_initializingInterval l < CONNECTION_RETRY_MAXIMUM_MSEC
               then l\<lparr>m_initializingInterval := m_initializingInterval l * 2\<rparr> else l)
      in l_emit ConnectToServer (l_emit SocketAbort (l\<lparr>m_daemonState := eInitializing\<rparr>)))"

definition l_initialize :: "LocalSocketController \<Rightarrow> fault + LocalSocketController" where
  "l_initialize l = fassert (m_daemonState l = eUnknown) (Inr (initializeInternal l))"

text \<open>The expiry of the reconnection timer and of the timer of a missing response.\<close>

definition initializingTimeout :: "LocalSocketController \<Rightarrow> LocalSocketController" where
  "initializingTimeout l = initializeInternal (l\<lparr>m_initializingTimer := None\<rparr>)"

definition l_checkStatus :: "json_codec \<Rightarrow> LocalSocketController \<Rightarrow> LocalSocketController" where
  "l_checkStatus C l =
     (if m_daemonState l = eReady \<or> m_daemonState l = eInitializing
      then l_write C (jInsert ''type'' (JString ''status'') []) ''status'' l else l)"

definition daemonConnected :: "json_codec \<Rightarrow> LocalSocketController \<Rightarrow> fault + LocalSocketController" where
  "daemonConnected C l = fassert (m_daemonState l = eInitializing) (Inr (l_checkStatus C l))"

definition l_activate :: "qt_net \<Rightarrow> json_codec \<Rightarrow> InterfaceConfig \<Rightarrow> LocalSocketController \<Rightarrow> LocalSocketController" where
  "l_activate Q C config l = l_write C (jInsert ''type'' (JString ''activate'') (config_toJson Q config)) [] l"

definition l_deactivate :: "json_codec \<Rightarrow> LocalSocketController \<Rightarrow> LocalSocketController" where
  "l_deactivate C l =
     (if m_daemonState l \<noteq> eReady then l_emit ImplDisconnected l
      else l_write C (jInsert ''type'' (JString ''deactivate'') []) [] l)"

definition getBackendLogs :: "json_codec \<Rightarrow> LocalSocketController \<Rightarrow> LocalSocketController" where
  "getBackendLogs C l =
     (let l = (if m_logReceiver l then (l_emit LogsClosed l)\<lparr>m_logReceiver := False\<rparr> else l) in
      if m_daemonState l \<noteq> eReady then l_emit LogsClosed l
      else (l_write C (jInsert ''type'' (JString ''logs'') []) [] l)\<lparr>m_logReceiver := True\<rparr>)"

definition l_cleanupBackendLogs :: "json_codec \<Rightarrow> LocalSocketController \<Rightarrow> LocalSocketController" where
  "l_cleanupBackendLogs C l =
     (if m_daemonState l \<noteq> eReady then l
      else l_write C (jInsert ''type'' (JString ''cleanlogs'') []) ''logs'' l)"

definition replaceChar :: "char \<Rightarrow> char \<Rightarrow> string \<Rightarrow> string" where
  "replaceChar a b s = map (\<lambda>c. if c = a then b else c) s"

text \<open>The first status after a connection tells whether the daemon already runs a connection.\<close>

definition initialStatus :: "(string \<Rightarrow> int option) \<Rightarrow> json_object \<Rightarrow> LocalSocketController \<Rightarrow> LocalSocketController" where
  "initialStatus dateOf obj l =
     (let l = l\<lparr>m_daemonState := eReady\<rparr>; connected = jValue obj ''connected'' in
      if \<not> jIsBool connected then l
      else if \<not> jToBool connected then l_emit (ImplInitialized True False None) l
      else let date = jValue obj ''date'' in
           if \<not> jIsString date then l
           else case dateOf (qtext (jToString date)) of
             None \<Rightarrow> l
           | Some t \<Rightarrow> l_emit (ImplInitialized True True (Some t)) l)"

definition dispatchReady ::
    "qt_net \<Rightarrow> (string \<Rightarrow> int option) \<Rightarrow> string \<Rightarrow> json_object \<Rightarrow> LocalSocketController \<Rightarrow> LocalSocketController" where
  "dispatchReady Q isoDate ty obj l =
     (if m_daemonState l \<noteq> eReady then l
      else if ty = ''status'' then l_emit (ImplStatusUpdated (status_fromJson Q isoDate obj)) l
      else if ty = ''disconnected'' then disconnectInternal l
      else if ty = ''connected'' then
        (let pubkey = jValue obj ''pubkey'' in
         if \<not> jIsString pubkey then l else l_emit (ImplConnected (qtext (jToString pubkey))) l)
      else if ty = ''backendFailure'' then l_emit (ImplBackendFailure (jToInt (jValue obj ''errorCode''))) l
      else if ty = ''logs'' then
        (if \<not> m_logReceiver l then l
         else let logs = jValue obj ''logs'';
                  logString = (if jIsString logs then replaceChar (CHR ''|'') newline (qtext (jToString logs)) else [])
              in (l_emit LogsClosed (l_emit (LogsWritten logString) l))\<lparr>m_logReceiver := False\<rparr>)
      else l)"

definition dispatchTyped ::
    "qt_net \<Rightarrow> (string \<Rightarrow> int option) \<Rightarrow> (string \<Rightarrow> int option) \<Rightarrow> string \<Rightarrow> json_object \<Rightarrow> LocalSocketController \<Rightarrow> LocalSocketController" where
  "dispatchTyped Q dateOf isoDate ty obj l =
     (if ty = ''status'' then
        (let features = (if jContains obj ''features''
               then map (\<lambda>v. qtext (jToString (Some v))) (jToArray (jValue obj ''features'')) else []);
             l = l\<lparr>m_splitTunnelSupported := (''splitTunnel'' \<in> set features)\<rparr>
         in if m_daemonState l = eInitializing then initialStatus dateOf obj l else dispatchReady Q isoDate ty obj l)
      else dispatchReady Q isoDate ty obj l)"

definition l_parseCommand ::
    "qt_net \<Rightarrow> json_codec \<Rightarrow> (string \<Rightarrow> int option) \<Rightarrow> (string \<Rightarrow> int option) \<Rightarrow> string \<Rightarrow> LocalSocketController \<Rightarrow>
     fault + LocalSocketController" where
  "l_parseCommand Q C dateOf isoDate command l =
     (let json = jsonFromText C command in
      if \<not> jIsObject json then Inr l
      else
        let obj = jToObject json; typeValue = jValue obj ''type'' in
        if \<not> jIsString typeValue then Inr l
        else
          let ty = qtext (jToString typeValue) in
          fbind (clearTimeout ty l) (\<lambda>l. Inr (dispatchTyped Q dateOf isoDate ty obj l)))"

text \<open>The member \<open>m_buffer\<close>, which only this function touches, is the first component of the state.\<close>

definition l_readData ::
    "qt_net \<Rightarrow> json_codec \<Rightarrow> (string \<Rightarrow> int option) \<Rightarrow> (string \<Rightarrow> int option) \<Rightarrow> string \<Rightarrow>
     string \<times> LocalSocketController \<Rightarrow> fault + string \<times> LocalSocketController" where
  "l_readData Q C dateOf isoDate input bl = (case bl of (buffer, l) \<Rightarrow>
     fassert (m_daemonState l = eInitializing \<or> m_daemonState l = eReady)
       (readLoop (l_parseCommand Q C dateOf isoDate) (buffer @ input) l))"

subsection \<open>The daemon's side of a connection\<close>

record 'd daemon_ops =
  do_activate :: "InterfaceConfig \<Rightarrow> 'd \<Rightarrow> fault + bool \<times> 'd"
  do_deactivate :: "'d \<Rightarrow> fault + bool \<times> 'd"
  do_status :: "'d \<Rightarrow> json_object"
  do_logs :: "'d \<Rightarrow> string"
  do_cleanLogs :: "'d \<Rightarrow> 'd"
  do_signals :: "'d \<Rightarrow> daemon_signal list"

text \<open>A connection is the text written to its socket, next to the state of the daemon.\<close>

type_synonym ServerConnection = string

type_synonym 'd served = "ServerConnection \<times> 'd"

definition s_write :: "json_codec \<Rightarrow> json_object \<Rightarrow> ServerConnection \<Rightarrow> ServerConnection" where
  "s_write C obj k = k @ jsonToText C obj @ [newline]"

definition s_connected :: "json_codec \<Rightarrow> string \<Rightarrow> ServerConnection \<Rightarrow> ServerConnection" where
  "s_connected C pubkey = s_write C (jInsert ''pubkey'' (JString pubkey) (jInsert ''type'' (JString ''connected'') []))"

definition s_disconnected :: "json_codec \<Rightarrow> ServerConnection \<Rightarrow> ServerConnection" where
  "s_disconnected C = s_write C (jInsert ''type'' (JString ''disconnected'') [])"

definition s_backendFailure :: "json_codec \<Rightarrow> int \<Rightarrow> ServerConnection \<Rightarrow> ServerConnection" where
  "s_backendFailure C err = s_write C (jInsert ''errorCode'' (JDouble (of_int err)) (jInsert ''type'' (JString ''backendFailure'') []))"

text \<open>
  The slots connected to the signals of the daemon; \<open>activationFailure\<close> is not connected, and
  \<open>backendFailure\<close> is emitted by the daemon with its default argument \<open>ERROR_FATAL\<close>.
\<close>

fun s_slot :: "json_codec \<Rightarrow> daemon_signal \<Rightarrow> ServerConnection \<Rightarrow> ServerConnection" where
  "s_slot C (Connected pubkey) k = s_connected C pubkey k"
| "s_slot C Disconnected k = s_disconnected C k"
| "s_slot C BackendFailure k = s_backendFailure C 1 k"
| "s_slot C ActivationFailure k = k"

definition s_forward :: "json_codec \<Rightarrow> daemon_signal list \<Rightarrow> daemon_signal list \<Rightarrow> ServerConnection \<Rightarrow> ServerConnection" where
  "s_forward C before after k = fold (s_slot C) (drop (length before) after) k"

definition s_parseCommand ::
    "qt_net \<Rightarrow> json_codec \<Rightarrow> 'd daemon_ops \<Rightarrow> string \<Rightarrow> 'd served \<Rightarrow> fault + 'd served" where
  "s_parseCommand Q C ops command kd = (case kd of (k, d) \<Rightarrow>
     (let json = jsonFromText C command in
      if \<not> jIsObject json then Inr (k, d)
      else
        let obj = jToObject json; typeValue = jValue obj ''type'' in
        if \<not> jIsString typeValue then Inr (k, d)
        else
          let ty = qtext (jToString typeValue) in
          if ty = ''activate'' then
            fbind (parseConfig Q obj emptyConfig) (\<lambda>config.
              case config of
                None \<Rightarrow> Inr (s_disconnected C k, d)
              | Some config \<Rightarrow>
                  fbind (do_activate ops config d) (\<lambda>(ok, d').
                    let k = s_forward C (do_signals ops d) (do_signals ops d') k in
                    Inr (if ok then k else s_disconnected C k, d')))
          else if ty = ''deactivate'' then
            fbind (do_deactivate ops d) (\<lambda>(ok, d'). Inr (s_forward C (do_signals ops d) (do_signals ops d') k, d'))
          else if ty = ''status'' then
            Inr (s_write C (jInsert ''type'' (JString ''status'') (do_status ops d)) k, d)
          else if ty = ''logs'' then
            Inr (s_write C (jInsert ''logs'' (JString (replaceChar newline (CHR ''|'') (do_logs ops d)))
                   (jInsert ''type'' (JString ''logs'') [])) k, d)
          else if ty = ''cleanlogs'' then Inr (k, do_cleanLogs ops d)
          else Inr (k, d)))"

text \<open>\<open>readAll\<close> answers the chunks in turn; the loop ends when it answers nothing.\<close>

fun s_readData ::
    "qt_net \<Rightarrow> json_codec \<Rightarrow> 'd daemon_ops \<Rightarrow> string list \<Rightarrow> string \<times> 'd served \<Rightarrow> fault + string \<times> 'd served" where
  "s_readData Q C ops [] (buffer, kd) = readLoop (s_parseCommand Q C ops) buffer kd"
| "s_readData Q C ops (chunk # rest) (buffer, kd) =
     fbind (readLoop (s_parseCommand Q C ops) buffer kd) (\<lambda>(buffer, kd).
       if chunk = [] then Inr (buffer, kd) else s_readData Q C ops rest (buffer @ chunk, kd))"

subsection \<open>Framing\<close>

text \<open>The reference: the lines of a text that are complete and not blank, and what follows the last newline.\<close>

definition completeLines :: "string \<Rightarrow> string list" where
  "completeLines b = filter (\<lambda>c. c \<noteq> []) (map bytesTrimmed (butlast (qsplit newline b)))"

definition restLine :: "string \<Rightarrow> string" where
  "restLine b = last (qsplit newline b)"

fun handleAll :: "(string \<Rightarrow> 's \<Rightarrow> fault + 's) \<Rightarrow> string list \<Rightarrow> 's \<Rightarrow> fault + 's" where
  "handleAll parse [] s = Inr s"
| "handleAll parse (c # cs) s = fbind (parse c s) (handleAll parse cs)"

lemma fbind_assoc: "fbind (fbind m f) g = fbind m (\<lambda>x. fbind (f x) g)"
  by (cases m) simp_all

lemma handleAll_append: "handleAll parse (xs @ ys) s = fbind (handleAll parse xs s) (handleAll parse ys)"
proof (induction xs arbitrary: s)
  case (Cons x xs)
  then show ?case by (cases "parse x s") simp_all
qed simp

lemma lines_no_newline: "newline \<notin> set b \<Longrightarrow> completeLines b = [] \<and> restLine b = b"
  by (simp add: completeLines_def restLine_def qsplit_notin)

lemma lines_Cons:
  "newline \<notin> set x \<Longrightarrow> completeLines (x @ newline # b) =
     (if bytesTrimmed x = [] then completeLines b else bytesTrimmed x # completeLines b)"
  "newline \<notin> set x \<Longrightarrow> restLine (x @ newline # b) = restLine b"
  by (simp_all add: completeLines_def restLine_def qsplit_append)

lemma split_first_line:
  assumes "newline \<in> set b"
  obtains x y where "b = x @ newline # y" "newline \<notin> set x" "indexOf b newline = int (length x)"
  using split_list_first [OF assms] indexOf_append_notin by blast

lemma readLoop_lines:
  "readLoop parse b s = fbind (handleAll parse (completeLines b) s) (\<lambda>s. Inr (restLine b, s))"
proof (induction parse b s rule: readLoop.induct)
  case (1 parse b s)
  show ?case
  proof (cases "newline \<in> set b")
    case False
    then show ?thesis by (subst readLoop.simps) (simp add: indexOf_neg lines_no_newline)
  next
    case True
    then obtain x y where b: "b = x @ newline # y" "newline \<notin> set x" "indexOf b newline = int (length x)"
      by (rule split_first_line)
    have parts: "left b (int (length x)) = x" "midFrom b (int (length x) + 1) = y"
      by (simp_all add: b(1) left_def midFrom_def nat_add_distrib)
    have step: "readLoop parse b s =
        (if bytesTrimmed x = [] then readLoop parse y s else fbind (parse (bytesTrimmed x) s) (readLoop parse y))"
      by (subst readLoop.simps) (simp add: b(3) parts Let_def)
    have IH: "bytesTrimmed x = [] \<Longrightarrow> readLoop parse y s = fbind (handleAll parse (completeLines y) s) (\<lambda>s. Inr (restLine y, s))"
        "bytesTrimmed x \<noteq> [] \<Longrightarrow> readLoop parse y t = fbind (handleAll parse (completeLines y) t) (\<lambda>s. Inr (restLine y, s))" for t
      using 1 [OF refl _ refl refl refl] b(3) by (simp_all add: parts)
    have "completeLines b = (if bytesTrimmed x = [] then completeLines y else bytesTrimmed x # completeLines y)"
        "restLine b = restLine y"
      using lines_Cons [OF b(2), of y] by (simp_all add: b(1))
    then show ?thesis
      using IH by (cases "parse (bytesTrimmed x) s") (simp_all add: step)
  qed
qed

lemma qsplit_append_chunk: "qsplit c (a @ b) = butlast (qsplit c a) @ qsplit c (last (qsplit c a) @ b)"
proof (induction a)
  case (Cons x a)
  show ?case
  proof (cases "x = c")
    case True
    then show ?thesis using Cons by simp
  next
    case False
    obtain f fs where f: "qsplit c a = f # fs" by (cases "qsplit c a") auto
    show ?thesis
    proof (cases fs)
      case Nil
      with False f Cons show ?thesis by simp
    next
      case (Cons g gs)
      with False f \<open>qsplit c (a @ b) = butlast (qsplit c a) @ qsplit c (last (qsplit c a) @ b)\<close> show ?thesis by simp
    qed
  qed
qed simp

lemma lines_append:
  "completeLines (a @ b) = completeLines a @ completeLines (restLine a @ b)" "restLine (a @ b) = restLine (restLine a @ b)"
  by (simp_all add: completeLines_def restLine_def qsplit_append_chunk [of newline a b] butlast_append)

lemma readLoop_append:
  "readLoop parse (a @ b) s = fbind (readLoop parse a s) (\<lambda>(r, s). readLoop parse (r @ b) s)"
  by (cases "handleAll parse (completeLines a) s") (simp_all add: readLoop_lines lines_append [of a b] handleAll_append)

text \<open>
  What makes a reader independent of how the bytes arrive: a handler of lines that keeps a
  condition under which the reader may be entered again.
\<close>

locale line_reader =
  fixes parse :: "string \<Rightarrow> 's \<Rightarrow> fault + 's" and entry :: "'s \<Rightarrow> bool"
  assumes parse_entry: "entry s \<Longrightarrow> parse c s = Inr s' \<Longrightarrow> entry s'"
begin

lemma handle_entry: "entry s \<Longrightarrow> handleAll parse cs s = Inr s' \<Longrightarrow> entry s'"
proof (induction cs arbitrary: s)
  case (Cons c cs)
  then show ?case by (auto dest!: fbind_InrD intro: parse_entry)
qed simp

lemma loop_entry: "entry s \<Longrightarrow> readLoop parse b s = Inr (r, s') \<Longrightarrow> entry s'"
  by (auto simp: readLoop_lines dest!: fbind_InrD intro: handle_entry)

fun feed :: "string list \<Rightarrow> string \<times> 's \<Rightarrow> fault + string \<times> 's" where
  "feed [] bs = Inr bs"
| "feed (c # cs) (b, s) = fassert (entry s) (fbind (readLoop parse (b @ c) s) (feed cs))"

lemma feed_lines:
  assumes "entry s" "newline \<notin> set b"
  shows "feed cs (b, s) = readLoop parse (b @ concat cs) s"
  using assms
proof (induction cs arbitrary: b s)
  case Nil
  then show ?case by (simp add: readLoop_lines lines_no_newline)
next
  case (Cons c cs)
  have "newline \<notin> set (restLine x)" for x
    unfolding restLine_def using qsplit_no_sep [of "last (qsplit newline x)" newline x] by simp
  then have "newline \<notin> set r" "entry s'" if "readLoop parse (b @ c) s = Inr (r, s')" for r s'
    using that loop_entry [OF Cons.prems(1)] by (auto simp: readLoop_lines dest!: fbind_InrD)
  then have "fbind (readLoop parse (b @ c) s) (feed cs) = fbind (readLoop parse (b @ c) s) (\<lambda>(r, s). readLoop parse (r @ concat cs) s)"
    using Cons.IH by (cases "readLoop parse (b @ c) s") auto
  then show ?case using Cons.prems(1) readLoop_append [of parse "b @ c" "concat cs" s] by simp
qed

end

definition socket_open :: "LocalSocketController \<Rightarrow> bool" where
  "socket_open l \<longleftrightarrow> m_daemonState l = eInitializing \<or> m_daemonState l = eReady"

lemma clearTimeout_state: "clearTimeout ty l = Inr l' \<Longrightarrow> m_daemonState l' = m_daemonState l"
  by (auto simp: clearTimeout_def Let_def split: if_splits)

text \<open>The two ways through the dispatcher of the client: a message without a type is ignored.\<close>

lemma l_parseCommand_untyped:
  "\<not> (jIsObject (jsonFromText C command) \<and> jIsString (jValue (jToObject (jsonFromText C command)) ''type'')) \<Longrightarrow>
     l_parseCommand Q C dateOf isoDate command l = Inr l"
  unfolding l_parseCommand_def Let_def by auto

lemma l_parseCommand_typed:
  assumes "jsonFromText C command = Some (JObject obj)" "jValue obj ''type'' = Some (JString ty)"
  shows "l_parseCommand Q C dateOf isoDate command l =
    fbind (clearTimeout ty l) (\<lambda>l. Inr (dispatchTyped Q dateOf isoDate ty obj l))"
  unfolding l_parseCommand_def Let_def
  using assms by (cases "clearTimeout ty l") (simp_all add: jIsObject_def jToObject_def jIsString_def jToString_def)

lemma typed_message:
  assumes "jIsObject json" "jIsString (jValue (jToObject json) ''type'')"
  obtains obj ty where "json = Some (JObject obj)" "jValue obj ''type'' = Some (JString ty)"
  using assms by (auto simp: jIsObject_def jIsString_def jToObject_def split: option.splits json.splits)

lemma l_parseCommand_open:
  assumes "socket_open l" "l_parseCommand Q C dateOf isoDate command l = Inr l'"
  shows "socket_open l'"
proof -
  have d: "socket_open (dispatchReady Q isoDate ty obj x)" if "socket_open x" for ty obj x
    using that by (auto simp: dispatchReady_def socket_open_def l_emit_def disconnectInternal_def Let_def)
  have i: "socket_open (initialStatus dateOf obj x)" for obj x
    by (simp add: initialStatus_def socket_open_def l_emit_def Let_def split: option.split)
  have s: "socket_open (x\<lparr>m_splitTunnelSupported := b\<rparr>) = socket_open x" for x b by (simp add: socket_open_def)
  have t: "socket_open (dispatchTyped Q dateOf isoDate ty obj x)" if "socket_open x" for ty obj x
    unfolding dispatchTyped_def Let_def using that by (simp add: d i s)
  show ?thesis
  proof (cases "jIsObject (jsonFromText C command) \<and> jIsString (jValue (jToObject (jsonFromText C command)) ''type'')")
    case False
    then show ?thesis using assms by (simp add: l_parseCommand_untyped)
  next
    case True
    then obtain obj ty where m: "jsonFromText C command = Some (JObject obj)" "jValue obj ''type'' = Some (JString ty)"
      using typed_message by blast
    obtain a where a: "clearTimeout ty l = Inr a" "l' = dispatchTyped Q dateOf isoDate ty obj a"
      using assms(2) unfolding l_parseCommand_typed [OF m] by (auto dest!: fbind_InrD)
    have "socket_open a" using assms(1) clearTimeout_state [OF a(1)] by (simp add: socket_open_def)
    with a(2) t show ?thesis by simp
  qed
qed

interpretation client_reader: line_reader "l_parseCommand Q C dateOf isoDate" socket_open for Q C dateOf isoDate
  by unfold_locales (rule l_parseCommand_open)

interpretation server_reader: line_reader "s_parseCommand Q C ops" "\<lambda>_. True" for Q C ops
  by unfold_locales simp

text \<open>A sequence of \<open>readyRead\<close> signals at the client.\<close>

fun l_readAll ::
    "qt_net \<Rightarrow> json_codec \<Rightarrow> (string \<Rightarrow> int option) \<Rightarrow> (string \<Rightarrow> int option) \<Rightarrow> string list \<Rightarrow>
     string \<times> LocalSocketController \<Rightarrow> fault + string \<times> LocalSocketController" where
  "l_readAll Q C dateOf isoDate [] bl = Inr bl"
| "l_readAll Q C dateOf isoDate (c # cs) bl = fbind (l_readData Q C dateOf isoDate c bl) (l_readAll Q C dateOf isoDate cs)"

lemma l_readData_eq:
  "l_readData Q C dateOf isoDate c (b, l) = fassert (socket_open l) (readLoop (l_parseCommand Q C dateOf isoDate) (b @ c) l)"
  by (simp add: l_readData_def socket_open_def)

lemma l_readAll_feed: "l_readAll Q C dateOf isoDate cs bl = client_reader.feed Q C dateOf isoDate cs bl"
proof (induction cs arbitrary: bl)
  case (Cons c cs)
  obtain b l where bl: "bl = (b, l)" by fastforce
  have "l_readAll Q C dateOf isoDate cs = client_reader.feed Q C dateOf isoDate cs" using Cons by blast
  then show ?case
    by (cases "socket_open l") (simp_all add: bl l_readData_eq)
qed simp

lemma s_readData_lines:
  "[] \<notin> set chunks \<Longrightarrow> s_readData Q C ops chunks (b, kd) = readLoop (s_parseCommand Q C ops) (b @ concat chunks) kd"
proof (induction chunks arbitrary: b kd)
  case (Cons c cs)
  have "readLoop (s_parseCommand Q C ops) (b @ concat (c # cs)) kd =
      fbind (readLoop (s_parseCommand Q C ops) b kd) (\<lambda>(r, s). readLoop (s_parseCommand Q C ops) (r @ concat (c # cs)) s)"
    by (rule readLoop_append)
  with Cons show ?case by (cases "readLoop (s_parseCommand Q C ops) b kd") auto
qed simp

subsection \<open>Properties\<close>

text \<open>
  C8. Framing.  However the bytes of a stream are cut into chunks, both ends of the socket handle
  exactly the complete lines of the whole stream that are not blank, trimmed, in order, and keep
  what follows the last newline; the client never reads in a state that its assertion forbids.
\<close>

theorem socket_framing:
  assumes "socket_open l" "[] \<notin> set chunks"
  shows "l_readAll Q C dateOf isoDate chunks ([], l) =
      fbind (handleAll (l_parseCommand Q C dateOf isoDate) (completeLines (concat chunks)) l) (\<lambda>l. Inr (restLine (concat chunks), l)) \<and>
    s_readData Q C ops chunks ([], kd) =
      fbind (handleAll (s_parseCommand Q C ops) (completeLines (concat chunks)) kd) (\<lambda>kd. Inr (restLine (concat chunks), kd))"
  using client_reader.feed_lines [OF assms(1), of "[]" Q C dateOf isoDate chunks] s_readData_lines [OF assms(2), of Q C ops "[]" kd]
  by (simp add: l_readAll_feed readLoop_lines)

definition nullCodec :: json_codec where
  "nullCodec = \<lparr>jsonToText = (\<lambda>ob. ''{}''), jsonFromText = (\<lambda>t. None)\<rparr>"

definition readySocket :: LocalSocketController where
  "readySocket = newLocalSocketController\<lparr>m_daemonState := eReady\<rparr>"

theorem socket_framing_witness:
  "l_readAll exampleNet nullCodec (\<lambda>_. None) (\<lambda>_. None) [''{'', ''}'' @ [newline, CHR ''x'']] ([], readySocket) = Inr (''x'', readySocket)"
proof -
  have parse: "l_parseCommand exampleNet nullCodec (\<lambda>_. None) (\<lambda>_. None) c l = Inr l" for c l
    by (simp add: l_parseCommand_def nullCodec_def jIsObject_def)
  have lines: "completeLines (''{}'' @ newline # ''x'') = [''{}'']" "restLine (''{}'' @ newline # ''x'') = ''x''"
    by (simp_all add: completeLines_def restLine_def newline_def bytesTrimmed_def isByteSpace_def)
  let ?chunks = "[''{'', ''}'' @ [newline, CHR ''x'']]"
  have "l_readAll exampleNet nullCodec (\<lambda>_. None) (\<lambda>_. None) ?chunks ([], readySocket) =
      fbind (handleAll (l_parseCommand exampleNet nullCodec (\<lambda>_. None) (\<lambda>_. None)) (completeLines (concat ?chunks)) readySocket)
        (\<lambda>l. Inr (restLine (concat ?chunks), l))"
    by (rule conjunct1 [OF socket_framing]) (simp_all add: socket_open_def readySocket_def)
  also have "\<dots> = Inr (''x'', readySocket)" using lines by (simp add: parse)
  finally show ?thesis .
qed

definition failedAttempt :: "LocalSocketController \<Rightarrow> LocalSocketController" where
  "failedAttempt l = errorOccurred (initializingTimeout l)"

lemma backoff_step:
  fixes w :: "32 word"
  assumes "w = word_of_nat (min 16000 (500 * 2^n))"
  shows "(if w < CONNECTION_RETRY_MAXIMUM_MSEC then w * 2 else w) = word_of_nat (min 16000 (500 * 2^Suc n))"
proof (cases "n < 5")
  case True
  then have "n \<in> {0, 1, 2, 3, 4}" by auto
  then show ?thesis using assms by (auto simp: CONNECTION_RETRY_MAXIMUM_MSEC_def)
next
  case False
  have "(32::nat) \<le> 2^n" using power_increasing [of 5 n "2::nat"] False by simp
  then have "min 16000 (500 * 2^n) = (16000::nat)" "min 16000 (500 * 2^Suc n) = (16000::nat)" by simp_all
  then show ?thesis using assms by (simp add: CONNECTION_RETRY_MAXIMUM_MSEC_def)
qed

lemma failedAttempt_effect:
  assumes "m_daemonState l = eInitializing"
  shows "m_initializingInterval (failedAttempt l) =
      (if m_initializingInterval l < CONNECTION_RETRY_MAXIMUM_MSEC then m_initializingInterval l * 2 else m_initializingInterval l)"
    "m_initializingTimer (failedAttempt l) = Some (m_initializingInterval (failedAttempt l))"
    "m_daemonState (failedAttempt l) = eInitializing"
    "filter (\<lambda>e. e = ImplDisconnected) (l_events (failedAttempt l)) = filter (\<lambda>e. e = ImplDisconnected) (l_events l)"
  using assms by (simp_all add: failedAttempt_def errorOccurred_def initializingTimeout_def initializeInternal_def l_emit_def Let_def)

text \<open>
  Reconnection backs off exponentially and stays bounded: after the \<open>n\<close>-th failed attempt in a
  row the client waits \<open>500 * 2^n\<close> milliseconds, at most 16 seconds, without overflow of the 32
  bit interval; the backend failure and the disconnection are announced once, at the first
  failure, and not at the attempts that follow.
\<close>

theorem reconnection_backoff:
  assumes "m_daemonState l \<noteq> eInitializing"
  shows "let l' = (failedAttempt ^^ Suc n) (errorOccurred l) in
    m_initializingTimer l' = Some (word_of_nat (min 16000 (500 * 2^n))) \<and> m_daemonState l' = eInitializing \<and>
    filter (\<lambda>e. e = ImplDisconnected) (l_events l') = filter (\<lambda>e. e = ImplDisconnected) (l_events l) @ [ImplDisconnected] \<and>
    unat (the (m_initializingTimer l')) \<le> 16000"
proof -
  define r where "r k = (failedAttempt ^^ Suc k) (errorOccurred l)" for k
  have "m_initializingTimer (r n) = Some (m_initializingInterval (r n)) \<and> m_daemonState (r n) = eInitializing \<and>
      m_initializingInterval (r n) = word_of_nat (min 16000 (500 * 2^n)) \<and>
      filter (\<lambda>e. e = ImplDisconnected) (l_events (r n)) = filter (\<lambda>e. e = ImplDisconnected) (l_events l) @ [ImplDisconnected]"
  proof (induction n)
    case 0
    then show ?case using assms
      by (simp add: r_def failedAttempt_def errorOccurred_def initializingTimeout_def initializeInternal_def l_emit_def
          CONNECTION_RETRY_INITIAL_MSEC_def Let_def)
  next
    case (Suc n)
    have "r (Suc n) = failedAttempt (r n)" by (simp add: r_def)
    then show ?case
      using Suc failedAttempt_effect [of "r n"] backoff_step [of "m_initializingInterval (r n)" n] by metis
  qed
  moreover have "unat (word_of_nat (min 16000 k) :: 32 word) \<le> 16000" for k
    by (simp add: unsigned_of_nat take_bit_nat_eq_self)
  ultimately show ?thesis unfolding r_def Let_def by auto
qed

theorem reconnection_backoff_witness:
  "m_initializingTimer ((failedAttempt ^^ Suc 3) (errorOccurred readySocket)) = Some 4000"
  using reconnection_backoff [of readySocket 3] by (simp add: readySocket_def Let_def)

subsection \<open>Messages\<close>

text \<open>
  What is used of Qt's compact JSON text of an object: it is one line without surrounding white
  space, and it reads back as an object with the same members.
\<close>

definition line_ok :: "json_codec \<Rightarrow> json_object \<Rightarrow> bool" where
  "line_ok C ob \<longleftrightarrow> reads_back C ob \<and> newline \<notin> set (jsonToText C ob) \<and>
     bytesTrimmed (jsonToText C ob) = jsonToText C ob \<and> jsonToText C ob \<noteq> []"

lemma line_ok_lines:
  assumes "line_ok C ob"
  shows "completeLines (jsonToText C ob @ newline # b) = jsonToText C ob # completeLines b"
    "restLine (jsonToText C ob @ newline # b) = restLine b"
  using assms lines_Cons [of "jsonToText C ob" b] by (simp_all add: line_ok_def)

lemma lines_empty [simp]: "completeLines [] = []" "restLine [] = []"
  by (simp_all add: completeLines_def restLine_def)

fun signalMessages :: "daemon_signal \<Rightarrow> json_object list" where
  "signalMessages (Connected pubkey) = [jInsert ''pubkey'' (JString pubkey) (jInsert ''type'' (JString ''connected'') [])]"
| "signalMessages Disconnected = [jInsert ''type'' (JString ''disconnected'') []]"
| "signalMessages BackendFailure = [jInsert ''errorCode'' (JDouble 1) (jInsert ''type'' (JString ''backendFailure'') [])]"
| "signalMessages ActivationFailure = []"

fun signalEvents :: "daemon_signal \<Rightarrow> socket_event list" where
  "signalEvents (Connected pubkey) = [ImplConnected pubkey]"
| "signalEvents Disconnected = [ImplDisconnected]"
| "signalEvents BackendFailure = [ImplBackendFailure 1]"
| "signalEvents ActivationFailure = []"

definition messageText :: "json_codec \<Rightarrow> json_object list \<Rightarrow> string" where
  "messageText C obs = concat (map (\<lambda>ob. jsonToText C ob @ [newline]) obs)"

lemma messageText_simps [simp]:
  "messageText C [] = []" "messageText C (ob # obs) = jsonToText C ob @ newline # messageText C obs"
  "messageText C (xs @ ys) = messageText C xs @ messageText C ys"
  by (simp_all add: messageText_def)

lemma s_slot_text: "s_slot C sig k = k @ messageText C (signalMessages sig)"
  by (cases sig) (simp_all add: s_connected_def s_disconnected_def s_backendFailure_def s_write_def)

lemma s_forward_text: "s_forward C before (before @ sigs) k = k @ messageText C (concat (map signalMessages sigs))"
proof -
  have "fold (s_slot C) sigs k = k @ messageText C (concat (map signalMessages sigs))"
    by (induction sigs arbitrary: k) (simp_all add: s_slot_text)
  then show ?thesis by (simp add: s_forward_def)
qed

lemma messageText_lines:
  "\<forall>ob\<in>set obs. line_ok C ob \<Longrightarrow> completeLines (messageText C obs) = map (jsonToText C) obs \<and> restLine (messageText C obs) = []"
  by (induction obs) (simp_all add: line_ok_lines)

lemma l_parseCommand_message:
  assumes "line_ok C ob" "jValue ob ''type'' = Some (JString ty)" "ty \<notin> set (m_responseTimeouts l)"
  shows "\<exists>obj. (\<forall>k. jValue obj k = jValue ob k) \<and>
    l_parseCommand Q C dateOf isoDate (jsonToText C ob) l = Inr (dispatchTyped Q dateOf isoDate ty obj l)"
proof -
  obtain obj where obj: "jsonFromText C (jsonToText C ob) = Some (JObject obj)" "\<And>k. jValue obj k = jValue ob k"
    using assms(1) reads_backD [of C ob] by (auto simp: line_ok_def)
  have "clearTimeout ty l = Inr l" using assms(3) filter_id_conv [of "\<lambda>t. t \<noteq> ty" "m_responseTimeouts l"]
    by (auto simp: clearTimeout_def Let_def)
  then show ?thesis
    using l_parseCommand_typed [OF obj(1)] obj(2) assms(2) by (intro exI [of _ obj]) simp
qed

text \<open>The messages of the daemon's signals never answer a request, so they leave the timers alone.\<close>

definition request_timers :: "LocalSocketController \<Rightarrow> bool" where
  "request_timers l \<longleftrightarrow> m_daemonState l = eReady \<and> set (m_responseTimeouts l) \<subseteq> {''status'', ''logs''}"

lemma signal_handled:
  assumes "request_timers l" "\<forall>ob\<in>set (signalMessages sig). line_ok C ob"
  shows "\<exists>l'. handleAll (l_parseCommand Q C dateOf isoDate) (map (jsonToText C) (signalMessages sig)) l = Inr l' \<and>
    l_events l' = l_events l @ signalEvents sig \<and> request_timers l' \<and> l_written l' = l_written l"
proof (cases sig)
  case (Connected pubkey)
  let ?ob = "jInsert ''pubkey'' (JString pubkey) (jInsert ''type'' (JString ''connected'') [])"
  have "''connected'' \<notin> set (m_responseTimeouts l)" "line_ok C ?ob" "jValue ?ob ''type'' = Some (JString ''connected'')"
    using assms Connected by (auto simp: request_timers_def)
  then obtain obj where "\<And>k. jValue obj k = jValue ?ob k"
      "l_parseCommand Q C dateOf isoDate (jsonToText C ?ob) l = Inr (dispatchTyped Q dateOf isoDate ''connected'' obj l)"
    using l_parseCommand_message [of C ?ob _ l Q dateOf isoDate] by blast
  then show ?thesis
    using assms(1) Connected by (simp add: dispatchTyped_def dispatchReady_def l_emit_def request_timers_def jIsString_def jToString_def Let_def)
next
  case Disconnected
  let ?ob = "jInsert ''type'' (JString ''disconnected'') []"
  have "''disconnected'' \<notin> set (m_responseTimeouts l)" "line_ok C ?ob" "jValue ?ob ''type'' = Some (JString ''disconnected'')"
    using assms Disconnected by (auto simp: request_timers_def)
  then obtain obj where "\<And>k. jValue obj k = jValue ?ob k"
      "l_parseCommand Q C dateOf isoDate (jsonToText C ?ob) l = Inr (dispatchTyped Q dateOf isoDate ''disconnected'' obj l)"
    using l_parseCommand_message [of C ?ob _ l Q dateOf isoDate] by blast
  then show ?thesis
    using assms(1) Disconnected by (simp add: dispatchTyped_def dispatchReady_def l_emit_def request_timers_def disconnectInternal_def)
next
  case BackendFailure
  let ?ob = "jInsert ''errorCode'' (JDouble 1) (jInsert ''type'' (JString ''backendFailure'') [])"
  have "''backendFailure'' \<notin> set (m_responseTimeouts l)" "line_ok C ?ob" "jValue ?ob ''type'' = Some (JString ''backendFailure'')"
    using assms BackendFailure by (auto simp: request_timers_def)
  then obtain obj where "\<And>k. jValue obj k = jValue ?ob k"
      "l_parseCommand Q C dateOf isoDate (jsonToText C ?ob) l = Inr (dispatchTyped Q dateOf isoDate ''backendFailure'' obj l)"
    using l_parseCommand_message [of C ?ob _ l Q dateOf isoDate] by blast
  then show ?thesis
    using assms(1) BackendFailure by (simp add: dispatchTyped_def dispatchReady_def l_emit_def request_timers_def jToInt_def)
qed (use assms in simp)

lemma signals_handled:
  assumes "request_timers l" "\<forall>ob\<in>set (concat (map signalMessages sigs)). line_ok C ob"
  shows "\<exists>l'. handleAll (l_parseCommand Q C dateOf isoDate) (map (jsonToText C) (concat (map signalMessages sigs))) l = Inr l' \<and>
    l_events l' = l_events l @ concat (map signalEvents sigs) \<and> request_timers l' \<and> l_written l' = l_written l"
  using assms
proof (induction sigs arbitrary: l)
  case (Cons sig sigs)
  obtain l1 where l1: "handleAll (l_parseCommand Q C dateOf isoDate) (map (jsonToText C) (signalMessages sig)) l = Inr l1"
      "l_events l1 = l_events l @ signalEvents sig" "request_timers l1" "l_written l1 = l_written l"
    using signal_handled [of l sig C Q dateOf isoDate] Cons.prems by auto
  obtain l2 where "handleAll (l_parseCommand Q C dateOf isoDate) (map (jsonToText C) (concat (map signalMessages sigs))) l1 = Inr l2"
      "l_events l2 = l_events l1 @ concat (map signalEvents sigs)" "request_timers l2" "l_written l2 = l_written l1"
    using Cons.IH [OF l1(3)] Cons.prems(2) by auto
  with l1 show ?case by (simp add: handleAll_append)
qed simp

lemma signals_reach_client:
  assumes "request_timers l" "\<forall>ob\<in>set (concat (map signalMessages sigs)). line_ok C ob"
    and "concat chunks = s_forward C before (before @ sigs) []"
  shows "\<exists>l'. l_readAll Q C dateOf isoDate chunks ([], l) = Inr ([], l') \<and>
    l_events l' = l_events l @ concat (map signalEvents sigs) \<and> request_timers l' \<and> l_written l' = l_written l"
proof -
  obtain l' where l': "handleAll (l_parseCommand Q C dateOf isoDate) (map (jsonToText C) (concat (map signalMessages sigs))) l = Inr l'"
      "l_events l' = l_events l @ concat (map signalEvents sigs)" "request_timers l'" "l_written l' = l_written l"
    using signals_handled [OF assms(1,2)] by blast
  have "socket_open l" using assms(1) by (simp add: request_timers_def socket_open_def)
  then have "l_readAll Q C dateOf isoDate chunks ([], l) =
      readLoop (l_parseCommand Q C dateOf isoDate) (messageText C (concat (map signalMessages sigs))) l"
    using client_reader.feed_lines [of l "[]" Q C dateOf isoDate chunks] by (simp add: l_readAll_feed assms(3) s_forward_text)
  with l' show ?thesis
    using messageText_lines [OF assms(2)] by (simp add: readLoop_lines)
qed


definition downCodec :: json_codec where
  "downCodec = \<lparr>jsonToText = (\<lambda>ob. ''{}''), jsonFromText = (\<lambda>t. Some (JObject (jInsert ''type'' (JString ''disconnected'') [])))\<rparr>"


subsection \<open>Requests\<close>

text \<open>The virtual operations of the mock daemon; dates, version and logs are not looked at here.\<close>

definition mockOps :: "qt_net \<Rightarrow> (int option \<Rightarrow> string) \<Rightarrow> string \<Rightarrow> WireguardUtilsMock Daemon daemon_ops" where
  "mockOps Q dateText version = \<lparr>do_activate = mock_activate Q, do_deactivate = daemon_deactivate mockBackend True,
     do_status = getStatus mockBackend dateText version [], do_logs = (\<lambda>_. []), do_cleanLogs = (\<lambda>d. d), do_signals = d_signals\<rparr>"

definition activateMessage :: "qt_net \<Rightarrow> InterfaceConfig \<Rightarrow> json_object" where
  "activateMessage Q config = jInsert ''type'' (JString ''activate'') (config_toJson Q config)"

lemma l_activate_text: "l_written (l_activate Q C config l) = l_written l @ messageText C [activateMessage Q config]"
  by (simp add: l_activate_def l_write_def activateMessage_def)

lemma s_parseCommand_activate:
  assumes "line_ok C (activateMessage Q config)" "- (2^31) \<le> m_serverPort config" "m_serverPort config < 2^31"
    and "\<forall>ip\<in>set (m_allowedIPAddressRanges config). wf_ip ip \<and> addr_reads_back Q (m_address ip)"
    and "do_activate ops (transported config) d = Inr (ok, d')"
  shows "s_parseCommand Q C ops (jsonToText C (activateMessage Q config)) (k, d) =
    Inr (let k = s_forward C (do_signals ops d) (do_signals ops d') k in if ok then k else s_disconnected C k, d')"
proof -
  obtain obj where obj: "jsonFromText C (jsonToText C (activateMessage Q config)) = Some (JObject obj)"
      "\<And>k. jValue obj k = jValue (activateMessage Q config) k"
    using assms(1) reads_backD [of C "activateMessage Q config"] by (auto simp: line_ok_def)
  have "parseConfig Q obj emptyConfig = parseConfig Q (config_toJson Q config) emptyConfig"
    by (rule parseConfig_cong) (simp add: obj(2) activateMessage_def)
  then have parse: "parseConfig Q obj emptyConfig = Inr (Some (transported config))"
    by (simp add: parseConfig_config_toJson [OF assms(2-4)])
  have ty: "jValue obj ''type'' = Some (JString ''activate'')" by (simp add: obj(2) activateMessage_def)
  show ?thesis
    unfolding s_parseCommand_def prod.case Let_def
    by (simp add: obj(1) ty parse assms(5) jIsObject_def jToObject_def jIsString_def jToString_def)
qed

text \<open>
  An activation request arrives as it was sent: whatever daemon is behind the connection and
  however the bytes are cut, the line the client writes for a well-formed configuration makes the
  daemon activate that configuration (as transported, ranges sorted), once; when the daemon
  accepts, only the signals it emitted are written back, and when it refuses, a \<open>disconnected\<close>
  message follows them.
\<close>

theorem activation_request_arrives:
  assumes "line_ok C (activateMessage Q config)" "- (2^31) \<le> m_serverPort config" "m_serverPort config < 2^31"
    and "\<forall>ip\<in>set (m_allowedIPAddressRanges config). wf_ip ip \<and> addr_reads_back Q (m_address ip)"
    and "concat chunks = drop (length (l_written l)) (l_written (l_activate Q C config l))" "[] \<notin> set chunks"
    and "do_activate ops (transported config) d = Inr (ok, d')"
  shows "s_readData Q C ops chunks ([], k, d) =
    Inr ([], let k = s_forward C (do_signals ops d) (do_signals ops d') k in if ok then k else s_disconnected C k, d')"
proof -
  have "concat chunks = messageText C [activateMessage Q config]" using assms(5) by (simp add: l_activate_text)
  then show ?thesis
    using s_readData_lines [OF assms(6), of Q C ops "[]" "(k, d)"] messageText_lines [of "[activateMessage Q config]" C] assms(1)
      s_parseCommand_activate [OF assms(1-4,7), of k]
    by (simp add: readLoop_lines)
qed

definition sendLineCodec :: json_codec where
  "sendLineCodec = \<lparr>jsonToText = (\<lambda>ob. ''sent''), jsonFromText = (\<lambda>t. Some (JObject (activateMessage daemonNet twoRangesConfig)))\<rparr>"

definition refusingOps :: "nat daemon_ops" where
  "refusingOps = \<lparr>do_activate = (\<lambda>c d. Inr (False, Suc d)), do_deactivate = (\<lambda>d. Inr (True, d)), do_status = (\<lambda>d. []),
     do_logs = (\<lambda>d. []), do_cleanLogs = (\<lambda>d. d), do_signals = (\<lambda>d. [])\<rparr>"

theorem activation_request_arrives_witness:
  "s_readData daemonNet sendLineCodec refusingOps [''se'', ''nt'' @ [newline]] ([], [], 0) = Inr ([], ''sent'' @ [newline], 1)"
proof -
  have line: "line_ok sendLineCodec (activateMessage daemonNet twoRangesConfig)"
    by (simp add: line_ok_def reads_back_def sendLineCodec_def newline_def bytesTrimmed_def isByteSpace_def)
  have port: "- (2^31) \<le> m_serverPort twoRangesConfig" "m_serverPort twoRangesConfig < 2^31"
    by (simp_all add: twoRangesConfig_def exampleConfig_def)
  have ips: "\<forall>ip\<in>set (m_allowedIPAddressRanges twoRangesConfig). wf_ip ip \<and> addr_reads_back daemonNet (m_address ip)"
    by code_simp
  have "concat [''se'', ''nt'' @ [newline]] =
      drop (length (l_written readySocket)) (l_written (l_activate daemonNet sendLineCodec twoRangesConfig readySocket))"
    by (simp add: l_activate_text) (simp add: sendLineCodec_def)
  from activation_request_arrives [OF line port ips this, of refusingOps 0 False 1 "[]"]
  have "s_readData daemonNet sendLineCodec refusingOps [''se'', ''nt'' @ [newline]] ([], [], 0) =
      Inr ([], let k = s_forward sendLineCodec [] [] [] in s_disconnected sendLineCodec k, 1)"
    by (simp add: refusingOps_def del: s_readData.simps)
  then show ?thesis
    by (simp add: s_forward_def s_disconnected_def s_write_def Let_def del: s_readData.simps) (simp add: sendLineCodec_def)
qed

text \<open>
  A whole round over the socket with the mock daemon, which is idle before: the request is accepted
  silently, and a poll after the delay of the mock announces the peer to the client.
\<close>

lemma transported_key: "peerKey (transported config) = qtext (m_serverPublicKey config)" "m_hopType (transported config) = m_hopType config"
  by (simp_all add: transported_def peerKey_def Let_def)

lemma mock_round:
  assumes line: "line_ok C (activateMessage Q config)" and port: "- (2^31) \<le> m_serverPort config" "m_serverPort config < 2^31"
    and ips: "\<forall>ip\<in>set (m_allowedIPAddressRanges config). wf_ip ip \<and> addr_reads_back Q (m_address ip)"
    and answer: "\<forall>ob\<in>set (signalMessages (Connected (qtext (m_serverPublicKey config)))). line_ok C ob"
    and client: "request_timers l"
    and daemon: "mock_inv d" "m_connections d = (\<lambda>_. None)" "mock_now (d_backend d) \<ge> 0"
  obtains d1 where
    "\<And>chunks. concat chunks = drop (length (l_written l)) (l_written (l_activate Q C config l)) \<Longrightarrow> [] \<notin> set chunks \<Longrightarrow>
       s_readData Q C (mockOps Q dateText version) chunks ([], [], d) = Inr ([], [], d1)"
    "\<And>n chunks. n > mock_now (d_backend d) + 1500 \<Longrightarrow>
       concat chunks = s_forward C (d_signals d1) (d_signals (firePollTimer mockBackend (passTime n d1))) [] \<Longrightarrow>
       \<exists>l'. l_readAll Q C dateOf isoDate chunks ([], l_activate Q C config l) = Inr ([], l') \<and>
          l_events l' = l_events l @ [ImplConnected (qtext (m_serverPublicKey config))]"
proof -
  let ?ops = "mockOps Q dateText version" and ?key = "qtext (m_serverPublicKey config)"
  obtain d1 where d1: "mock_activate Q (transported config) d = Inr (True, d1)" "d_signals d1 = d_signals d"
      "\<And>n. n > mock_now (d_backend d) + 1500 \<Longrightarrow> d_signals (firePollTimer mockBackend (passTime n d1)) = d_signals d1 @ [Connected ?key]"
    using mock_first_connection [OF daemon(1,2), of Q "transported config"] daemon(3) by (auto simp: transported_key)
  have parse: "s_parseCommand Q C ?ops (jsonToText C (activateMessage Q config)) ([], d) = Inr ([], d1)"
    using s_parseCommand_activate [OF line port ips, of ?ops d True d1 "[]"] d1(1,2) by (simp add: mockOps_def s_forward_def Let_def)
  have "s_readData Q C ?ops chunks ([], [], d) = Inr ([], [], d1)"
    if "concat chunks = drop (length (l_written l)) (l_written (l_activate Q C config l))" "[] \<notin> set chunks" for chunks
    using s_readData_lines [OF that(2), of Q C ?ops "[]" "([], d)"] messageText_lines [of "[activateMessage Q config]" C] line that(1)
    by (simp add: l_activate_text readLoop_lines parse)
  moreover have l: "request_timers (l_activate Q C config l)" "l_events (l_activate Q C config l) = l_events l"
    using client by (simp_all add: request_timers_def l_activate_def l_write_def)
  have "\<exists>l'. l_readAll Q C dateOf isoDate chunks ([], l_activate Q C config l) = Inr ([], l') \<and> l_events l' = l_events l @ [ImplConnected ?key]"
    if "n > mock_now (d_backend d) + 1500"
      "concat chunks = s_forward C (d_signals d1) (d_signals (firePollTimer mockBackend (passTime n d1))) []" for n chunks
    using signals_reach_client [OF l(1), of "[Connected ?key]" C chunks "d_signals d1" Q dateOf isoDate] that(2) d1(3) [OF that(1)] answer l(2)
    by auto
  ultimately show ?thesis by (rule that)
qed

subsection \<open>Observations\<close>

text \<open>
  The request to clean the logs waits for a message of type \<open>logs\<close>, but the daemon answers that
  request with nothing: the timer of the response stays, and its expiry reports a failure of the
  backend and a disconnection of a healthy connection.
\<close>

lemma clean_logs_is_not_answered:
  assumes "line_ok C (jInsert ''type'' (JString ''cleanlogs'') [])"
  shows "s_parseCommand Q C ops (jsonToText C (jInsert ''type'' (JString ''cleanlogs'') [])) (k, d) = Inr (k, do_cleanLogs ops d)"
proof -
  obtain obj where obj: "jsonFromText C (jsonToText C (jInsert ''type'' (JString ''cleanlogs'') [])) = Some (JObject obj)"
      "\<And>k. jValue obj k = jValue (jInsert ''type'' (JString ''cleanlogs'') []) k"
    using assms reads_backD [of C "jInsert ''type'' (JString ''cleanlogs'') []"] unfolding line_ok_def by blast
  then have "jValue obj ''type'' = Some (JString ''cleanlogs'')" by simp
  then show ?thesis
    unfolding s_parseCommand_def prod.case Let_def
    by (simp add: obj(1) jIsObject_def jToObject_def jIsString_def jToString_def)
qed

lemma clean_logs_disconnects:
  assumes "m_daemonState l = eReady"
  shows "''logs'' \<in> set (m_responseTimeouts (l_cleanupBackendLogs C l)) \<and>
    l_events (errorOccurred (l_cleanupBackendLogs C l)) = l_events l @ [ImplBackendFailure 0, ImplDisconnected]"
  using assms by (simp add: l_cleanupBackendLogs_def l_write_def errorOccurred_def l_emit_def)

text \<open>
  A client that finds the daemon with a connection whose handshake is still pending (its date is
  empty) becomes ready without announcing that it is initialized.
\<close>

lemma pending_handshake_never_initializes:
  assumes "jValue obj ''connected'' = Some (JBool True)" "jValue obj ''date'' = Some (JString [])" "dateOf [] = None"
  shows "initialStatus dateOf obj l = l\<lparr>m_daemonState := eReady\<rparr>"
  using assms by (simp add: initialStatus_def jIsBool_def jToBool_def jIsString_def jToString_def Let_def)

end
