(* ===== verification/Recent_Connections.thy ===== *)
theory Recent_Connections
  imports Server_Data
begin

text \<open>
  \<^verbatim>\<open>src/src/models/recentconnections.cpp\<close> and \<^verbatim>\<open>recentconnections.h\<close>: the lists of the most
  recent single hop and multi hop locations.  The first entry of a list is the current connection
  and is not shown.  The lists are shown to be most-recently-used lists cut at their bound, and to
  come back from the settings after a restart.  The text form of a JSON array and the translation of city names
  are arguments.
\<close>

subsection \<open>State\<close>

record RecentConnection =
  rc_entryCityName :: string
  rc_entryCountryCode :: string
  rc_exitCityName :: string
  rc_exitCountryCode :: string

definition rc_isMultiHop :: "RecentConnection \<Rightarrow> bool" where
  "rc_isMultiHop rc \<longleftrightarrow> rc_entryCityName rc \<noteq> [] \<and> rc_entryCountryCode rc \<noteq> []"

definition rc_equal :: "RecentConnection \<Rightarrow> RecentConnection \<Rightarrow> bool" where
  "rc_equal rc other \<longleftrightarrow>
     rc_entryCityName rc = rc_entryCityName other \<and> rc_entryCountryCode rc = rc_entryCountryCode other \<and>
     rc_exitCityName rc = rc_exitCityName other \<and> rc_exitCountryCode rc = rc_exitCountryCode other"

datatype AddType = Prepend | Append

datatype recents_signal = ResetBegun | ResetEnded | RecentsChanged

record RecentConnectionModel =
  m_list :: "RecentConnection list"
  rc_signals :: "recents_signal list"

record RecentConnections =
  m_singleHopModel :: RecentConnectionModel
  m_multiHopModel :: RecentConnectionModel

record array_codec = json_codec +
  jsonArrayToText :: "json list \<Rightarrow> string"

definition RECENT_CONNECTIONS_MAX_COUNT :: nat where
  "RECENT_CONNECTIONS_MAX_COUNT = 2"

subsection \<open>One list\<close>

fun rc_indexFrom :: "nat \<Rightarrow> RecentConnection list \<Rightarrow> RecentConnection \<Rightarrow> int" where
  "rc_indexFrom i [] rc = -1"
| "rc_indexFrom i (x # xs) rc = (if rc_equal x rc then int i else rc_indexFrom (Suc i) xs rc)"

fun trimList :: "'a list \<Rightarrow> 'a list" where
  "trimList xs = (if length xs > RECENT_CONNECTIONS_MAX_COUNT then trimList (butlast xs) else xs)"

declare trimList.simps [simp del]

definition rc_add :: "RecentConnection \<Rightarrow> AddType \<Rightarrow> RecentConnectionModel \<Rightarrow> bool \<times> RecentConnectionModel" where
  "rc_add rc addType m =
     (let index = rc_indexFrom 0 (m_list m) rc in
      if index = 0 then (False, m)
      else
        let xs = (if index > 0 then removeAt (nat index) (m_list m) else m_list m);
            xs = trimList xs;
            xs = (case addType of Prepend \<Rightarrow> rc # xs | Append \<Rightarrow> xs @ [rc])
        in (True, m\<lparr>m_list := xs, rc_signals := rc_signals m @ [ResetBegun, ResetEnded, RecentsChanged]\<rparr>))"

definition rc_clear :: "RecentConnectionModel \<Rightarrow> RecentConnectionModel" where
  "rc_clear m = m\<lparr>m_list := [], rc_signals := rc_signals m @ [ResetBegun, ResetEnded, RecentsChanged]\<rparr>"

definition rc_isEmpty :: "RecentConnectionModel \<Rightarrow> bool" where
  "rc_isEmpty m \<longleftrightarrow> length (m_list m) \<le> 1"

definition rc_rowCount :: "RecentConnectionModel \<Rightarrow> int" where
  "rc_rowCount m = (if length (m_list m) > 1 then int (length (m_list m)) - 1 else 0)"

datatype RecentConnectionRole =
    ExitCountryCodeRole | ExitCityNameRole | LocalizedExitCityNameRole | IsMultiHopRole
  | EntryCountryCodeRole | EntryCityNameRole | LocalizedEntryCityNameRole | OtherRecentRole

definition rc_data :: "(string \<Rightarrow> string) \<Rightarrow> RecentConnectionModel \<Rightarrow> int option \<Rightarrow> RecentConnectionRole \<Rightarrow> QVariant" where
  "rc_data localizedName m index role =
     (case index of None \<Rightarrow> Invalid
      | Some row \<Rightarrow>
          if row + 1 \<ge> int (length (m_list m)) then Invalid
          else
            let rc = m_list m ! nat (row + 1) in
            case role of
              ExitCountryCodeRole \<Rightarrow> VString (rc_exitCountryCode rc)
            | ExitCityNameRole \<Rightarrow> VString (rc_exitCityName rc)
            | LocalizedExitCityNameRole \<Rightarrow> VString (localizedName (rc_exitCityName rc))
            | IsMultiHopRole \<Rightarrow> VBool (rc_entryCountryCode rc \<noteq> [] \<and> rc_entryCityName rc \<noteq> [])
            | EntryCountryCodeRole \<Rightarrow> VString (rc_entryCountryCode rc)
            | EntryCityNameRole \<Rightarrow> VString (rc_entryCityName rc)
            | LocalizedEntryCityNameRole \<Rightarrow> VString (localizedName (rc_entryCityName rc))
            | OtherRecentRole \<Rightarrow> Invalid)"

definition rc_object :: "RecentConnection \<Rightarrow> json_object" where
  "rc_object rc =
     (let obj = jInsert ''exit_country_code'' (JString (rc_exitCountryCode rc)) [];
          obj = jInsert ''exit_city_name'' (JString (rc_exitCityName rc)) obj;
          obj = jInsert ''enter_country_code'' (JString (rc_entryCountryCode rc)) obj;
          obj = jInsert ''enter_city_name'' (JString (rc_entryCityName rc)) obj
      in obj)"

definition rc_serialize :: "RecentConnectionModel \<Rightarrow> json list \<Rightarrow> json list" where
  "rc_serialize m array = array @ map (\<lambda>rc. JObject (rc_object rc)) (m_list m)"

subsection \<open>Both lists and their storage\<close>

definition rc_array :: "RecentConnections \<Rightarrow> json list" where
  "rc_array r = rc_serialize (m_multiHopModel r) (rc_serialize (m_singleHopModel r) [])"

definition rc_writeSettings :: "array_codec \<Rightarrow> RecentConnections \<Rightarrow> SettingsState \<Rightarrow> SettingsState" where
  "rc_writeSettings C r st = Setting_set recentConnectionsSetting (VBytes (jsonArrayToText C (rc_array r))) st"

definition rc_addSingle :: "RecentConnection \<Rightarrow> AddType \<Rightarrow> RecentConnections \<Rightarrow> bool \<times> RecentConnections" where
  "rc_addSingle rc t r = (let (ok, m) = rc_add rc t (m_singleHopModel r) in (ok, r\<lparr>m_singleHopModel := m\<rparr>))"

definition rc_addMulti :: "RecentConnection \<Rightarrow> AddType \<Rightarrow> RecentConnections \<Rightarrow> bool \<times> RecentConnections" where
  "rc_addMulti rc t r = (let (ok, m) = rc_add rc t (m_multiHopModel r) in (ok, r\<lparr>m_multiHopModel := m\<rparr>))"

definition rc_fromObject :: "json_object \<Rightarrow> RecentConnection" where
  "rc_fromObject obj = \<lparr>rc_entryCityName = jText obj ''enter_city_name'', rc_entryCountryCode = jText obj ''enter_country_code'',
     rc_exitCityName = jText obj ''exit_city_name'', rc_exitCountryCode = jText obj ''exit_country_code''\<rparr>"

fun rc_readArray :: "json list \<Rightarrow> RecentConnections \<Rightarrow> RecentConnections" where
  "rc_readArray [] r = r"
| "rc_readArray (v # vs) r =
     (let rc = rc_fromObject (jToObject (Some v)) in
      rc_readArray vs (snd (if rc_isMultiHop rc then rc_addMulti rc Append r else rc_addSingle rc Append r)))"

definition rc_readSettings :: "array_codec \<Rightarrow> SettingsState \<Rightarrow> RecentConnections \<Rightarrow> RecentConnections" where
  "rc_readSettings C st r =
     (let json = jsonFromText (json_codec.truncate C) (vToByteArray (Setting_get recentConnectionsSetting st)) in
      if \<not> jIsArray json then r else rc_readArray (jToArray json) r)"

text \<open>\<open>QString::split\<close> with a separator of several characters.\<close>

fun splitOnFrom :: "string \<Rightarrow> string \<Rightarrow> string \<Rightarrow> string list" where
  "splitOnFrom sep cur [] = [rev cur]"
| "splitOnFrom sep cur (c # cs) =
     (if prefix sep (c # cs) then rev cur # splitOnFrom sep [] (drop (length sep - 1) cs)
      else splitOnFrom sep (c # cur) cs)"

definition splitOn :: "string \<Rightarrow> string \<Rightarrow> string list" where
  "splitOn sep s = splitOnFrom sep [] s"

definition rc_migrateEntry :: "string \<Rightarrow> RecentConnections \<Rightarrow> RecentConnections" where
  "rc_migrateEntry rc r =
     (let parts = splitOn '' -> '' rc;
          partA = splitOn '', '' (parts ! 0)
      in
      if length partA \<noteq> 2 then r
      else if length parts = 1 then
        snd (rc_addSingle \<lparr>rc_entryCityName = [], rc_entryCountryCode = [],
               rc_exitCityName = partA ! 0, rc_exitCountryCode = partA ! 1\<rparr> Append r)
      else
        let partB = splitOn '', '' (parts ! 1) in
        if length partB \<noteq> 2 then r
        else snd (rc_addMulti \<lparr>rc_entryCityName = partA ! 0, rc_entryCountryCode = partA ! 1,
               rc_exitCityName = partB ! 0, rc_exitCountryCode = partB ! 1\<rparr> Append r))"

type_synonym recents_state = "RecentConnections \<times> SettingsState"

definition rc_migrate :: "array_codec \<Rightarrow> recents_state \<Rightarrow> bool \<times> recents_state" where
  "rc_migrate C s =
     (let (r, st) = s in
      if \<not> Setting_isSet recentConnectionsDeprecated st then (False, s)
      else
        let rcList = vToStringList (Setting_get recentConnectionsDeprecated st);
            r = fold rc_migrateEntry rcList r;
            st = Setting_remove recentConnectionsDeprecated st
        in (True, r, rc_writeSettings C r st))"

definition rc_initialize :: "array_codec \<Rightarrow> recents_state \<Rightarrow> recents_state" where
  "rc_initialize C s =
     (let (r, st) = s;
          r = \<lparr>m_singleHopModel = rc_clear (m_singleHopModel r), m_multiHopModel = rc_clear (m_multiHopModel r)\<rparr>;
          (migrated, r, st) = rc_migrate C (r, st)
      in if migrated then (r, st) else (rc_readSettings C st r, st))"

definition rc_current :: "ServerData \<Rightarrow> RecentConnection" where
  "rc_current sd = \<lparr>rc_entryCityName = m_entryCityName sd, rc_entryCountryCode = m_entryCountryCode sd,
     rc_exitCityName = m_exitCityName sd, rc_exitCountryCode = m_exitCountryCode sd\<rparr>"

definition rc_serverChanged :: "array_codec \<Rightarrow> ServerData \<Rightarrow> recents_state \<Rightarrow> recents_state" where
  "rc_serverChanged C sd s =
     (let (r, st) = s;
          rc = rc_current sd;
          (ok, r) = (if rc_isMultiHop rc then rc_addMulti rc Prepend r else rc_addSingle rc Prepend r)
      in (r, if ok then rc_writeSettings C r st else st))"

definition newRecentConnections :: RecentConnections where
  "newRecentConnections = \<lparr>m_singleHopModel = \<lparr>m_list = [], rc_signals = []\<rparr>, m_multiHopModel = \<lparr>m_list = [], rc_signals = []\<rparr>\<rparr>"


subsection \<open>The effect on the lists\<close>

lemma rc_equal_iff [simp]: "rc_equal a b \<longleftrightarrow> a = b"
  by (cases a; cases b) (auto simp: rc_equal_def)

lemma rc_indexFrom_eq:
  "rc_indexFrom i xs rc = (if rc \<in> set xs then int (i + length (takeWhile (\<lambda>x. x \<noteq> rc) xs)) else -1)"
  by (induction xs arbitrary: i) auto

lemma removeAt_index: "rc \<in> set xs \<Longrightarrow> removeAt (length (takeWhile (\<lambda>x. x \<noteq> rc) xs)) xs = remove1 rc xs"
  by (induction xs) (auto simp: removeAt_def)

lemma trimList_eq: "trimList xs = take RECENT_CONNECTIONS_MAX_COUNT xs"
  by (induction xs rule: trimList.induct) (subst trimList.simps, simp add: butlast_conv_take)

definition add_list :: "RecentConnection \<Rightarrow> AddType \<Rightarrow> RecentConnection list \<Rightarrow> RecentConnection list" where
  "add_list rc t xs =
     (if xs \<noteq> [] \<and> hd xs = rc then xs
      else let ys = take RECENT_CONNECTIONS_MAX_COUNT (remove1 rc xs) in case t of Prepend \<Rightarrow> rc # ys | Append \<Rightarrow> ys @ [rc])"

lemma rc_add_list: "m_list (snd (rc_add rc t m)) = add_list rc t (m_list m)"
proof (cases "m_list m \<noteq> [] \<and> hd (m_list m) = rc")
  case True
  then show ?thesis by (cases "m_list m") (auto simp: rc_add_def add_list_def)
next
  case False
  then have "rc_indexFrom 0 (m_list m) rc \<noteq> 0"
    by (cases "m_list m") (auto simp: rc_indexFrom_eq)
  then show ?thesis
    using False by (auto simp: rc_add_def add_list_def Let_def trimList_eq rc_indexFrom_eq removeAt_index remove1_idem split: AddType.split)
qed

lemma rc_add_unchanged: "\<not> fst (rc_add rc t m) \<Longrightarrow> snd (rc_add rc t m) = m"
  by (auto simp: rc_add_def Let_def split: if_splits)

text \<open>The two lists, and adding to the one the connection belongs to.\<close>

definition rc_lists :: "RecentConnections \<Rightarrow> RecentConnection list \<times> RecentConnection list" where
  "rc_lists r = (m_list (m_singleHopModel r), m_list (m_multiHopModel r))"

definition add_lists ::
    "AddType \<Rightarrow> RecentConnection \<Rightarrow> RecentConnection list \<times> RecentConnection list \<Rightarrow> RecentConnection list \<times> RecentConnection list" where
  "add_lists t rc L = (if rc_isMultiHop rc then (fst L, add_list rc t (snd L)) else (add_list rc t (fst L), snd L))"

lemma rc_lists_add:
  "rc_lists (snd (rc_addSingle rc t r)) = (add_list rc t (fst (rc_lists r)), snd (rc_lists r))"
  "rc_lists (snd (rc_addMulti rc t r)) = (fst (rc_lists r), add_list rc t (snd (rc_lists r)))"
  by (auto simp: rc_lists_def rc_addSingle_def rc_addMulti_def rc_add_list [symmetric] split: prod.split)

lemma rc_readArray_lists:
  "rc_lists (rc_readArray vs r) = fold (\<lambda>v. add_lists Append (rc_fromObject (jToObject (Some v)))) vs (rc_lists r)"
  by (induction vs arbitrary: r) (simp_all add: Let_def rc_lists_add add_lists_def)

lemma rc_serverChanged_lists: "rc_lists (fst (rc_serverChanged C sd s)) = add_lists Prepend (rc_current sd) (rc_lists (fst s))"
  using rc_lists_add [of "rc_current sd" Prepend "fst s"]
  by (auto simp: rc_serverChanged_def add_lists_def Let_def split: prod.splits)

subsection \<open>Most recently used lists\<close>

definition mru :: "'a list \<Rightarrow> 'a list \<Rightarrow> 'a list" where
  "mru history xs = fold (\<lambda>x ys. x # removeAll x ys) history xs"

lemma mru_simps [simp]: "mru [] xs = xs" "mru (x # h) xs = mru h (x # removeAll x xs)"
  by (simp_all add: mru_def)

lemma distinct_mru: "distinct xs \<Longrightarrow> distinct (mru h xs)"
  by (induction h arbitrary: xs) (simp_all add: distinct_removeAll)

lemma take_remove1: "distinct xs \<Longrightarrow> take n (remove1 x (take (Suc n) xs)) = take n (remove1 x xs)"
proof (induction xs arbitrary: n)
  case (Cons y ys)
  then show ?case by (cases n) (auto simp: remove1_idem)
qed simp

definition recents_ok :: "RecentConnection list \<Rightarrow> bool" where
  "recents_ok xs \<longleftrightarrow> distinct xs \<and> length xs \<le> Suc RECENT_CONNECTIONS_MAX_COUNT"

lemma add_list_mru:
  assumes "distinct ys"
  shows "add_list rc Prepend (take (Suc RECENT_CONNECTIONS_MAX_COUNT) ys) =
     take (Suc RECENT_CONNECTIONS_MAX_COUNT) (rc # removeAll rc ys)"
proof (cases "ys \<noteq> [] \<and> hd ys = rc")
  case True
  then show ?thesis using assms by (cases ys) (auto simp: add_list_def)
next
  case False
  then have "\<not> (take (Suc RECENT_CONNECTIONS_MAX_COUNT) ys \<noteq> [] \<and> hd (take (Suc RECENT_CONNECTIONS_MAX_COUNT) ys) = rc)"
    by (cases ys) simp_all
  then have "add_list rc Prepend (take (Suc RECENT_CONNECTIONS_MAX_COUNT) ys) =
      rc # take RECENT_CONNECTIONS_MAX_COUNT (remove1 rc (take (Suc RECENT_CONNECTIONS_MAX_COUNT) ys))"
    by (simp only: add_list_def Let_def if_False AddType.case)
  then show ?thesis
    using assms by (simp only: take_remove1 distinct_remove1_removeAll take_Suc_Cons)
qed

lemma add_list_ok: "recents_ok xs \<Longrightarrow> recents_ok (add_list rc t xs)"
proof -
  assume ok: "recents_ok xs"
  then have "distinct (take n (remove1 rc xs))" "rc \<notin> set (take n (remove1 rc xs))" for n
    by (auto simp: recents_ok_def dest: in_set_takeD)
  with ok show ?thesis by (auto simp: recents_ok_def add_list_def Let_def split: AddType.split)
qed

lemma set_add_list: "set (add_list rc t xs) \<subseteq> insert rc (set xs)"
  by (auto simp: add_list_def Let_def dest: in_set_takeD set_remove1_subset [THEN subsetD] split: AddType.splits if_splits)

lemma add_list_append: "rc \<notin> set xs \<Longrightarrow> length xs \<le> RECENT_CONNECTIONS_MAX_COUNT \<Longrightarrow> add_list rc Append xs = xs @ [rc]"
  by (cases xs) (auto simp: add_list_def remove1_idem)

lemma fold_prepend_mru:
  "distinct ys \<Longrightarrow> fold (\<lambda>rc. add_list rc Prepend) h (take (Suc RECENT_CONNECTIONS_MAX_COUNT) ys) =
     take (Suc RECENT_CONNECTIONS_MAX_COUNT) (mru h ys)"
  by (induction h arbitrary: ys) (simp_all add: add_list_mru distinct_removeAll del: take_Suc_Cons)

lemma fold_add_lists:
  "fold (add_lists t) rcs L =
     (fold (\<lambda>rc. add_list rc t) (filter (\<lambda>rc. \<not> rc_isMultiHop rc) rcs) (fst L),
      fold (\<lambda>rc. add_list rc t) (filter rc_isMultiHop rcs) (snd L))"
  by (induction rcs arbitrary: L) (simp_all add: add_lists_def)

lemma fold_serverChanged_lists:
  "rc_lists (fst (fold (rc_serverChanged C) sds s)) = fold (add_lists Prepend) (map rc_current sds) (rc_lists (fst s))"
  by (induction sds arbitrary: s) (simp_all add: rc_serverChanged_lists)

lemma fold_add_list_ok: "recents_ok xs \<Longrightarrow> recents_ok (fold (\<lambda>rc. add_list rc t) rcs xs)"
  by (induction rcs arbitrary: xs) (simp_all add: add_list_ok)

subsection \<open>Invariant\<close>

definition rc_ok :: "RecentConnections \<Rightarrow> bool" where
  "rc_ok r \<longleftrightarrow> recents_ok (fst (rc_lists r)) \<and> recents_ok (snd (rc_lists r))"

definition rc_sorted_out :: "RecentConnections \<Rightarrow> bool" where
  "rc_sorted_out r \<longleftrightarrow> (\<forall>rc\<in>set (fst (rc_lists r)). \<not> rc_isMultiHop rc) \<and> (\<forall>rc\<in>set (snd (rc_lists r)). rc_isMultiHop rc)"

lemma add_lists_ok:
  assumes "rc_lists r' = add_lists t rc (rc_lists r)"
  shows "rc_ok r \<Longrightarrow> rc_ok r'" "rc_sorted_out r \<Longrightarrow> rc_sorted_out r'"
  using assms set_add_list [of rc t "fst (rc_lists r)"] set_add_list [of rc t "snd (rc_lists r)"]
  by (auto simp: rc_ok_def rc_sorted_out_def add_lists_def add_list_ok)

lemma rc_readArray_ok:
  "(rc_ok r \<longrightarrow> rc_ok (rc_readArray vs r)) \<and> (rc_sorted_out r \<longrightarrow> rc_sorted_out (rc_readArray vs r))"
proof (induction vs arbitrary: r)
  case (Cons v vs)
  let ?rc = "rc_fromObject (jToObject (Some v))"
  let ?r = "snd (if rc_isMultiHop ?rc then rc_addMulti ?rc Append r else rc_addSingle ?rc Append r)"
  have "rc_lists ?r = add_lists Append ?rc (rc_lists r)" by (simp add: rc_lists_add add_lists_def)
  note ok = add_lists_ok [OF this]
  show ?case unfolding rc_readArray.simps Let_def using Cons.IH ok by blast
qed simp

lemma rc_readSettings_ok:
  "rc_ok r \<Longrightarrow> rc_ok (rc_readSettings C st r)" "rc_sorted_out r \<Longrightarrow> rc_sorted_out (rc_readSettings C st r)"
  by (simp_all add: rc_readSettings_def rc_readArray_ok Let_def)

text \<open>Entries of the old setting: only those with two names before the arrow are multi hop.\<close>

definition migratable :: "string \<Rightarrow> bool" where
  "migratable e \<longleftrightarrow> (let parts = splitOn '' -> '' e in length parts = 1 \<or> [] \<notin> set (splitOn '', '' (parts ! 0)))"

text \<open>
  An old entry without the name of the entry city is filed under multi hop, although it does not
  count as multi hop: it changes its list at the next start.
\<close>

lemma blank_entry_filed_as_multi_hop:
  "rc_lists (rc_migrateEntry '', se -> Oslo, no'' newRecentConnections) =
     ([], [\<lparr>rc_entryCityName = [], rc_entryCountryCode = ''se'', rc_exitCityName = ''Oslo'', rc_exitCountryCode = ''no''\<rparr>])"
  "\<not> migratable '', se -> Oslo, no''" "migratable ''Oslo, no''" "migratable ''Malmo, se -> Oslo, no''"
  by code_simp+

lemma rc_migrateEntry_ok: "rc_ok r \<Longrightarrow> rc_ok (rc_migrateEntry e r)"
  by (simp add: rc_migrateEntry_def Let_def rc_ok_def rc_lists_add add_list_ok)

lemma rc_migrateEntry_sorted_out:
  assumes "migratable e" "rc_sorted_out r"
  shows "rc_sorted_out (rc_migrateEntry e r)"
proof -
  have ne: "length xs = 2 \<Longrightarrow> [] \<notin> set xs \<Longrightarrow> xs ! 0 \<noteq> [] \<and> xs ! 1 \<noteq> []" for xs :: "string list"
    by (metis nth_mem zero_less_numeral one_less_numeral_iff semiring_norm(76))
  then show ?thesis
    using assms unfolding rc_migrateEntry_def migratable_def Let_def
    by (auto simp: rc_sorted_out_def rc_lists_add rc_isMultiHop_def dest!: set_add_list [THEN subsetD] split: if_splits)
qed

lemma fold_migrate_ok:
  "rc_ok r \<Longrightarrow> rc_ok (fold rc_migrateEntry es r)"
  "\<forall>e\<in>set es. migratable e \<Longrightarrow> rc_sorted_out r \<Longrightarrow> rc_sorted_out (fold rc_migrateEntry es r)"
  by (induction es arbitrary: r) (auto simp: rc_migrateEntry_ok rc_migrateEntry_sorted_out)

lemma cleared_ok: "rc_ok \<lparr>m_singleHopModel = rc_clear a, m_multiHopModel = rc_clear b\<rparr>"
    "rc_sorted_out \<lparr>m_singleHopModel = rc_clear a, m_multiHopModel = rc_clear b\<rparr>"
  by (simp_all add: rc_ok_def rc_sorted_out_def rc_lists_def rc_clear_def recents_ok_def)

lemma rc_initialize_ok: "rc_ok (fst (rc_initialize C s))"
  by (auto simp: rc_initialize_def rc_migrate_def Let_def cleared_ok rc_readSettings_ok fold_migrate_ok split: prod.split)

subsection \<open>Storage\<close>

text \<open>What is used of the text form of one array: its objects are read back with their members.\<close>

definition array_reads_back :: "array_codec \<Rightarrow> RecentConnections \<Rightarrow> bool" where
  "array_reads_back C r \<longleftrightarrow>
     (case jsonFromText (json_codec.truncate C) (jsonArrayToText C (rc_array r)) of
        Some (JArray vs) \<Rightarrow>
          list_all2 (\<lambda>v rc. \<forall>k. jValue (jToObject (Some v)) k = jValue (rc_object rc) k) vs (fst (rc_lists r) @ snd (rc_lists r))
      | _ \<Rightarrow> False)"

lemma rc_fromObject_object: "\<forall>k. jValue ob k = jValue (rc_object rc) k \<Longrightarrow> rc_fromObject ob = rc"
  by (simp add: rc_fromObject_def rc_object_def jText_def)

lemma fold_append_all:
  "distinct (acc @ xs) \<Longrightarrow> length (acc @ xs) \<le> Suc RECENT_CONNECTIONS_MAX_COUNT \<Longrightarrow>
     fold (\<lambda>rc. add_list rc Append) xs acc = acc @ xs"
proof (induction xs arbitrary: acc)
  case (Cons x xs)
  then have "add_list x Append acc = acc @ [x]" by (intro add_list_append) auto
  then show ?case using Cons.IH [of "acc @ [x]"] Cons.prems by simp
qed simp

lemma read_objects:
  assumes "list_all2 (\<lambda>v rc. \<forall>k. jValue (jToObject (Some v)) k = jValue (rc_object rc) k) vs rcs"
  shows "fold (\<lambda>v. add_lists Append (rc_fromObject (jToObject (Some v)))) vs L = fold (add_lists Append) rcs L"
  using assms
proof (induction vs rcs arbitrary: L rule: list_all2_induct)
  case (Cons v vs rc rcs)
  have "rc_fromObject (jToObject (Some v)) = rc" using Cons.hyps(1) by (rule rc_fromObject_object)
  then show ?case using Cons.IH by simp
qed simp

lemma fold_rc_lists:
  assumes "rc_ok r" "rc_sorted_out r"
  shows "fold (add_lists Append) (fst (rc_lists r) @ snd (rc_lists r)) ([], []) = rc_lists r"
proof -
  let ?a = "fst (rc_lists r)" and ?b = "snd (rc_lists r)"
  have "filter (\<lambda>rc. \<not> rc_isMultiHop rc) (?a @ ?b) = ?a" "filter rc_isMultiHop (?a @ ?b) = ?b"
    using assms(2) by (auto simp: rc_sorted_out_def filter_id_conv filter_empty_conv)
  then show ?thesis
    using assms(1) fold_append_all [of "[]"] by (simp only: fold_add_lists fst_conv snd_conv) (simp add: rc_ok_def recents_ok_def)
qed

lemma rc_initialize_read:
  "\<not> Setting_isSet recentConnectionsDeprecated st \<Longrightarrow> snd (rc_initialize C (r, st)) = st"
  "\<not> Setting_isSet recentConnectionsDeprecated st \<Longrightarrow> rc_lists (fst (rc_initialize C (r, st))) =
     (let json = jsonFromText (json_codec.truncate C) (vToByteArray (Setting_get recentConnectionsSetting st)) in
      if \<not> jIsArray json then ([], [])
      else fold (\<lambda>v. add_lists Append (rc_fromObject (jToObject (Some v)))) (jToArray json) ([], []))"
  by (simp_all add: rc_initialize_def rc_migrate_def rc_readSettings_def rc_readArray_lists Let_def)
     (simp add: rc_lists_def rc_clear_def)

lemma rc_restored:
  assumes "rc_ok r" "rc_sorted_out r" "array_reads_back C r" "\<not> Setting_isSet recentConnectionsDeprecated st"
    and stored: "Setting_get recentConnectionsSetting st = VBytes (jsonArrayToText C (rc_array r))"
  shows "rc_lists (fst (rc_initialize C (r0, st))) = rc_lists r"
proof -
  obtain vs where vs: "jsonFromText (json_codec.truncate C) (jsonArrayToText C (rc_array r)) = Some (JArray vs)"
      "list_all2 (\<lambda>v rc. \<forall>k. jValue (jToObject (Some v)) k = jValue (rc_object rc) k) vs (fst (rc_lists r) @ snd (rc_lists r))"
    using assms(3) by (auto simp: array_reads_back_def split: option.splits json.splits)
  then show ?thesis
    using fold_rc_lists [OF assms(1,2)] read_objects [OF vs(2)] assms(4) by (simp add: rc_initialize_read stored)
qed

text \<open>A run: the lists are initialised from any settings and the location changes any number of times.\<close>

definition rc_init :: "array_codec \<Rightarrow> recents_state \<Rightarrow> bool" where
  "rc_init C s \<longleftrightarrow> (\<exists>r st. s = rc_initialize C (r, st) \<and>
     (Setting_isSet recentConnectionsDeprecated st \<longrightarrow>
        (\<forall>e\<in>set (vToStringList (Setting_get recentConnectionsDeprecated st)). migratable e)))"

definition rc_step :: "array_codec \<Rightarrow> recents_state \<Rightarrow> recents_state \<Rightarrow> bool" where
  "rc_step C s t \<longleftrightarrow> (\<exists>sd. t = rc_serverChanged C sd s)"

definition rc_inv :: "array_codec \<Rightarrow> recents_state \<Rightarrow> bool" where
  "rc_inv C s \<longleftrightarrow> rc_ok (fst s) \<and> rc_sorted_out (fst s) \<and> \<not> Setting_isSet recentConnectionsDeprecated (snd s) \<and>
     ((\<forall>r0. rc_lists (fst (rc_initialize C (r0, snd s))) = rc_lists (fst s)) \<or>
      Setting_get recentConnectionsSetting (snd s) = VBytes (jsonArrayToText C (rc_array (fst s))))"

lemma unset_after_remove: "\<not> Setting_isSet s (Setting_remove s st)"
  by (auto simp: Setting_remove_def Setting_isSet_def contains_iff store_remove_def)

lemma rc_init_inv: "rc_init C s \<Longrightarrow> rc_inv C s"
proof -
  assume "rc_init C s"
  then obtain r st where s: "s = rc_initialize C (r, st)"
    and mig: "Setting_isSet recentConnectionsDeprecated st \<Longrightarrow> \<forall>e\<in>set (vToStringList (Setting_get recentConnectionsDeprecated st)). migratable e"
    unfolding rc_init_def by blast
  show ?thesis
  proof (cases "Setting_isSet recentConnectionsDeprecated st")
    case True
    then show ?thesis
      using mig by (simp add: s rc_inv_def rc_initialize_def rc_migrate_def Let_def rc_writeSettings_def
          fold_migrate_ok cleared_ok unset_after_remove)
  next
    case False
    then have "rc_lists (fst (rc_initialize C (r0, st))) = rc_lists (fst (rc_initialize C (r, st)))" for r0
      by (simp add: rc_initialize_read)
    moreover have "rc_sorted_out (fst (rc_initialize C (r, st)))"
      using False by (simp add: rc_initialize_def rc_migrate_def rc_readSettings_ok cleared_ok Let_def)
    ultimately show ?thesis
      using False rc_initialize_ok [of C "(r, st)"] by (simp add: s rc_inv_def rc_initialize_read)
  qed
qed

lemma rc_serverChanged_cases:
  "rc_serverChanged C sd (r, st) = (r, st) \<or>
   (\<exists>r'. rc_serverChanged C sd (r, st) = (r', rc_writeSettings C r' st))"
proof -
  let ?rc = "rc_current sd"
  have keep: "\<not> fst (rc_addSingle ?rc Prepend r) \<Longrightarrow> snd (rc_addSingle ?rc Prepend r) = r"
    "\<not> fst (rc_addMulti ?rc Prepend r) \<Longrightarrow> snd (rc_addMulti ?rc Prepend r) = r"
    using rc_add_unchanged [of ?rc Prepend "m_singleHopModel r"] rc_add_unchanged [of ?rc Prepend "m_multiHopModel r"]
    by (auto simp: rc_addSingle_def rc_addMulti_def split: prod.splits)
  show ?thesis
    using keep unfolding rc_serverChanged_def Let_def by (auto split: prod.splits if_splits)
qed

lemma rc_step_inv: "rc_inv C s \<Longrightarrow> rc_step C s t \<Longrightarrow> rc_inv C t"
proof -
  assume inv: "rc_inv C s" and "rc_step C s t"
  then obtain sd where t: "t = rc_serverChanged C sd s" by (auto simp: rc_step_def)
  have ok: "rc_ok (fst t)" "rc_sorted_out (fst t)"
    using add_lists_ok [OF rc_serverChanged_lists] inv unfolding t by (auto simp: rc_inv_def)
  obtain r st where s: "s = (r, st)" by fastforce
  consider "t = s" | r' where "t = (r', rc_writeSettings C r' st)"
    using rc_serverChanged_cases [of C sd r st] t s by auto
  then show ?thesis
  proof cases
    case 1
    then show ?thesis using inv by simp
  next
    case 2
    then show ?thesis using ok inv s by (simp add: rc_inv_def rc_writeSettings_def)
  qed
qed

interpretation recents: invariant_system "rc_init C" "rc_step C" "rc_inv C" for C
  by unfold_locales (fact rc_init_inv, fact rc_step_inv)

subsection \<open>Properties\<close>

text \<open>
  C22. The lists of recent connections are most-recently-used lists.  From whatever the settings
  held, after any sequence of location changes, the single hop list is the list of all single hop
  locations, each where it was last used and the latest first, cut at one more than the number of
  locations shown; the multi hop list is the same for the multi hop locations; the model shows
  at most that number of rows.
\<close>

theorem recents_most_recent_first:
  "let start = rc_initialize C s; r = fst (fold (rc_serverChanged C) sds start); used = map rc_current sds in
   m_list (m_singleHopModel r) = take (Suc RECENT_CONNECTIONS_MAX_COUNT)
     (mru (filter (\<lambda>rc. \<not> rc_isMultiHop rc) used) (m_list (m_singleHopModel (fst start)))) \<and>
   m_list (m_multiHopModel r) = take (Suc RECENT_CONNECTIONS_MAX_COUNT)
     (mru (filter rc_isMultiHop used) (m_list (m_multiHopModel (fst start)))) \<and>
   rc_rowCount (m_singleHopModel r) \<le> int RECENT_CONNECTIONS_MAX_COUNT \<and> rc_rowCount (m_multiHopModel r) \<le> int RECENT_CONNECTIONS_MAX_COUNT"
proof -
  let ?start = "rc_initialize C s"
  let ?r = "fst (fold (rc_serverChanged C) sds ?start)"
  obtain a b where ab: "rc_lists (fst ?start) = (a, b)" by fastforce
  have ok: "recents_ok a" "recents_ok b" using rc_initialize_ok [of C s] ab by (auto simp: rc_ok_def)
  have run: "fold (\<lambda>rc. add_list rc Prepend) h xs = take (Suc RECENT_CONNECTIONS_MAX_COUNT) (mru h xs)" if "recents_ok xs" for h xs
    using fold_prepend_mru [of xs h] that by (simp add: recents_ok_def)
  have "rc_lists ?r = (take (Suc RECENT_CONNECTIONS_MAX_COUNT) (mru (filter (\<lambda>rc. \<not> rc_isMultiHop rc) (map rc_current sds)) a),
      take (Suc RECENT_CONNECTIONS_MAX_COUNT) (mru (filter rc_isMultiHop (map rc_current sds)) b))"
    by (simp only: fold_serverChanged_lists ab fold_add_lists fst_conv snd_conv run [OF ok(1)] run [OF ok(2)])
  then show ?thesis
    using ab by (auto simp: rc_lists_def rc_rowCount_def Let_def)
qed


text \<open>One location chosen on fresh settings.\<close>

definition exampleLocation :: ServerData where
  "exampleLocation = emptyServerData\<lparr>m_exitCityName := ''Malmo'', m_exitCountryCode := ''se''\<rparr>"

definition recentsCodec :: array_codec where
  "recentsCodec = \<lparr>jsonToText = (\<lambda>_. ''doc''),
     jsonFromText = (\<lambda>t. if t = ''array'' then Some (JArray [JObject (rc_object (rc_current exampleLocation))]) else None),
     jsonArrayToText = (\<lambda>_. ''array'')\<rparr>"


end
