(* ===== verification/Device_Model.thy ===== *)
theory Device_Model
  imports Server_Model Settings_Holder "HOL-Library.Multiset"
begin

text \<open>
  \<^verbatim>\<open>src/src/models/device.cpp\<close> and \<^verbatim>\<open>devicemodel.cpp\<close>: the devices of an account.  The list is
  sorted by date with the current device in front; a device that is being removed waits in a second
  list, also through a reload, and comes back when the removal fails.  The order of equal dates, which
  \<open>std::sort\<close> leaves open, is the one of insertion; no lemma depends on it.  Dates (\<open>QDateTime\<close>) are
  numbers, read by an argument; the public key of this device and the JSON text conversion are arguments.
\<close>

subsection \<open>State\<close>

record Device =
  dv_deviceName :: string
  dv_uniqueId :: string
  dv_createdAt :: int
  dv_publicKey :: string
  dv_ipv4Address :: string
  dv_ipv6Address :: string

datatype device_signal = DevicesResetBegun | DevicesResetEnded | DevicesChanged | DeviceRowRemoved nat

record DeviceModel =
  dm_rawJson :: string
  dm_devices :: "Device list"
  dm_removedDevices :: "Device list"
  dm_signals :: "device_signal list"

definition newDeviceModel :: DeviceModel where
  "newDeviceModel = \<lparr>dm_rawJson = [], dm_devices = [], dm_removedDevices = [], dm_signals = []\<rparr>"

definition dm_emit :: "device_signal \<Rightarrow> DeviceModel \<Rightarrow> DeviceModel" where
  "dm_emit sig m = m\<lparr>dm_signals := dm_signals m @ [sig]\<rparr>"

subsection \<open>Loading\<close>

definition device_fromJson :: "(string \<Rightarrow> int option) \<Rightarrow> json \<Rightarrow> Device option" where
  "device_fromJson isoDate json =
     (if \<not> jIsObject (Some json) then None
      else
        let obj = jToObject (Some json) in
        if \<not> jIsString (jValue obj ''name'') then None
        else if \<not> jIsString (jValue obj ''pubkey'') then None
        else if \<not> jIsString (jValue obj ''created_at'') then None
        else
          case isoDate (qtext (jToString (jValue obj ''created_at''))) of
            None \<Rightarrow> None
          | Some date \<Rightarrow>
              if \<not> jIsString (jValue obj ''ipv4_address'') then None
              else if \<not> jIsString (jValue obj ''ipv6_address'') then None
              else Some \<lparr>dv_deviceName = qtext (jToString (jValue obj ''name'')),
                dv_uniqueId = (if jIsString (jValue obj ''unique_id'') then qtext (jToString (jValue obj ''unique_id'')) else []),
                dv_createdAt = date, dv_publicKey = qtext (jToString (jValue obj ''pubkey'')),
                dv_ipv4Address = qtext (jToString (jValue obj ''ipv4_address'')),
                dv_ipv6Address = qtext (jToString (jValue obj ''ipv6_address''))\<rparr>)"

definition isCurrentDevice :: "string \<Rightarrow> Device \<Rightarrow> bool" where
  "isCurrentDevice key d \<longleftrightarrow> dv_publicKey d = key"

definition device_sortCallback :: "Device \<Rightarrow> Device \<Rightarrow> bool" where
  "device_sortCallback a b \<longleftrightarrow> dv_createdAt a > dv_createdAt b"

definition list_move :: "nat \<Rightarrow> 'a list \<Rightarrow> 'a list" where
  "list_move i xs = xs ! i # removeAt i xs"

definition moveCurrentDevice :: "string \<Rightarrow> Device list \<Rightarrow> Device list" where
  "moveCurrentDevice key devices =
     fold (\<lambda>index ds. if isCurrentDevice key (ds ! index) then list_move index ds else ds) [0..<length devices] devices"

fun load_devices ::
    "(string \<Rightarrow> int option) \<Rightarrow> string list \<Rightarrow> json list \<Rightarrow> Device list \<times> Device list \<Rightarrow> bool \<times> Device list \<times> Device list" where
  "load_devices isoDate removedKeys [] acc = (True, acc)"
| "load_devices isoDate removedKeys (v # vs) (devices, removed) =
     (case device_fromJson isoDate v of
        None \<Rightarrow> (False, devices, removed)
      | Some d \<Rightarrow>
          load_devices isoDate removedKeys vs
            (if dv_publicKey d \<in> set removedKeys then (devices, removed @ [d]) else (devices @ [d], removed)))"

definition devices_fromJsonInternal ::
    "json_codec \<Rightarrow> (string \<Rightarrow> int option) \<Rightarrow> string \<Rightarrow> string \<Rightarrow> DeviceModel \<Rightarrow> bool \<times> DeviceModel" where
  "devices_fromJsonInternal C isoDate key json m =
     (let m = dm_emit DevicesResetBegun m;
          removedPublicKeys = map dv_publicKey (dm_removedDevices m);
          m = m\<lparr>dm_rawJson := [], dm_devices := [], dm_removedDevices := []\<rparr>;
          doc = jsonFromText C json
      in
      if \<not> jIsObject doc then (False, m)
      else
        let obj = jToObject doc in
        if \<not> jContains obj ''devices'' then (False, m)
        else if \<not> jIsArray (jValue obj ''devices'') then (False, m)
        else
          let (ok, devices, removed) = load_devices isoDate removedPublicKeys (jToArray (jValue obj ''devices'')) ([], []);
              m = m\<lparr>dm_devices := devices, dm_removedDevices := removed\<rparr>
          in
          if \<not> ok then (False, m)
          else (True, dm_emit DevicesChanged (dm_emit DevicesResetEnded
                 (m\<lparr>dm_devices := moveCurrentDevice key (sort_by device_sortCallback (dm_devices m))\<rparr>))))"

definition devices_fromJson ::
    "json_codec \<Rightarrow> (string \<Rightarrow> int option) \<Rightarrow> string \<Rightarrow> string \<Rightarrow> DeviceModel \<Rightarrow> bool \<times> DeviceModel" where
  "devices_fromJson C isoDate key s m =
     (if s \<noteq> [] \<and> dm_rawJson m = s then (True, m)
      else let (ok, m) = devices_fromJsonInternal C isoDate key s m in if \<not> ok then (False, m) else (True, m\<lparr>dm_rawJson := s\<rparr>))"

definition devices_fromSettings ::
    "json_codec \<Rightarrow> (string \<Rightarrow> int option) \<Rightarrow> string \<Rightarrow> SettingsState \<Rightarrow> DeviceModel \<Rightarrow> bool \<times> DeviceModel" where
  "devices_fromSettings C isoDate key st m =
     (let json = vToByteArray (Setting_get devicesSetting st) in
      if json = [] then (False, m)
      else let (ok, m) = devices_fromJsonInternal C isoDate key json m in if \<not> ok then (False, m) else (True, m\<lparr>dm_rawJson := json\<rparr>))"

definition devices_writeSettings :: "DeviceModel \<Rightarrow> SettingsState \<Rightarrow> SettingsState" where
  "devices_writeSettings m st = Setting_set devicesSetting (VBytes (dm_rawJson m)) st"

subsection \<open>Removal and lookup\<close>

definition keyIndex :: "string \<Rightarrow> Device list \<Rightarrow> nat" where
  "keyIndex key ds = length (takeWhile (\<lambda>d. dv_publicKey d \<noteq> key) ds)"

definition device_removeRow :: "nat \<Rightarrow> DeviceModel \<Rightarrow> DeviceModel" where
  "device_removeRow row m = dm_emit (DeviceRowRemoved row) (m\<lparr>dm_devices := removeAt row (dm_devices m)\<rparr>)"

definition startDeviceRemovalFromPublicKey :: "string \<Rightarrow> DeviceModel \<Rightarrow> DeviceModel" where
  "startDeviceRemovalFromPublicKey publicKey m =
     (let i = keyIndex publicKey (dm_devices m) in
      if i = length (dm_devices m) then m
      else dm_emit DevicesChanged (device_removeRow i (m\<lparr>dm_removedDevices := dm_removedDevices m @ [dm_devices m ! i]\<rparr>)))"

definition stopDeviceRemovalFromPublicKey :: "string \<Rightarrow> string \<Rightarrow> DeviceModel \<Rightarrow> DeviceModel" where
  "stopDeviceRemovalFromPublicKey publicKey key m =
     (let i = keyIndex publicKey (dm_removedDevices m) in
      if i = length (dm_removedDevices m) then m
      else
        let m = dm_emit DevicesResetBegun m;
            devices = moveCurrentDevice key (sort_by device_sortCallback (dm_devices m @ [dm_removedDevices m ! i]))
        in dm_emit DevicesChanged (dm_emit DevicesResetEnded
             (m\<lparr>dm_devices := devices, dm_removedDevices := removeAt i (dm_removedDevices m)\<rparr>)))"

definition removeDeviceFromPublicKey :: "string \<Rightarrow> DeviceModel \<Rightarrow> DeviceModel" where
  "removeDeviceFromPublicKey publicKey m =
     (let i = keyIndex publicKey (dm_removedDevices m);
          m = (if i = length (dm_removedDevices m) then m else m\<lparr>dm_removedDevices := removeAt i (dm_removedDevices m)\<rparr>);
          j = keyIndex publicKey (dm_devices m)
      in if j = length (dm_devices m) then m else dm_emit DevicesChanged (device_removeRow j m))"

definition currentDevice :: "string \<Rightarrow> DeviceModel \<Rightarrow> Device option" where
  "currentDevice key m = List.find (isCurrentDevice key) (dm_devices m)"

definition hasCurrentDevice :: "string \<Rightarrow> DeviceModel \<Rightarrow> bool" where
  "hasCurrentDevice key m \<longleftrightarrow> currentDevice key m \<noteq> None"

definition deviceFromPublicKey :: "string \<Rightarrow> DeviceModel \<Rightarrow> Device option" where
  "deviceFromPublicKey publicKey m = List.find (\<lambda>d. dv_publicKey d = publicKey) (dm_devices m)"

definition deviceFromUniqueId :: "string \<Rightarrow> DeviceModel \<Rightarrow> Device option" where
  "deviceFromUniqueId uniqueId m =
     (if uniqueId = [] then None else List.find (\<lambda>d. dv_uniqueId d = uniqueId) (dm_devices m))"

subsection \<open>Order\<close>

text \<open>This device before the others, and the others by date, the newest first.\<close>

definition device_before :: "string \<Rightarrow> Device \<Rightarrow> Device \<Rightarrow> bool" where
  "device_before key a b \<longleftrightarrow> isCurrentDevice key a \<or> \<not> isCurrentDevice key b \<and> dv_createdAt a \<ge> dv_createdAt b"

lemma mset_insert_by [simp]: "mset (insert_by lt x xs) = add_mset x (mset xs)"
  by (induction xs) auto

lemma mset_sort_by [simp]: "mset (sort_by lt xs) = mset xs"
  by (simp add: sort_by_def) (induction xs, simp_all)

lemma set_insert_by [simp]: "set (insert_by lt x xs) = insert x (set xs)"
  by (induction xs) auto

lemma insert_by_sorted:
  "sorted_wrt (\<lambda>a b. dv_createdAt a \<ge> dv_createdAt b) xs \<Longrightarrow>
     sorted_wrt (\<lambda>a b. dv_createdAt a \<ge> dv_createdAt b) (insert_by device_sortCallback x xs)"
  by (induction xs) (force simp: device_sortCallback_def)+

lemma sort_by_sorted: "sorted_wrt (\<lambda>a b. dv_createdAt a \<ge> dv_createdAt b) (sort_by device_sortCallback xs)"
  by (simp add: sort_by_def) (induction xs, simp_all add: insert_by_sorted)

lemma move_prefix:
  "i \<le> length ds \<Longrightarrow>
     fold (\<lambda>index ds. if isCurrentDevice key (ds ! index) then list_move index ds else ds) [0..<i] ds =
       rev (filter (isCurrentDevice key) (take i ds)) @ filter (\<lambda>d. \<not> isCurrentDevice key d) (take i ds) @ drop i ds"
proof (induction i)
  case (Suc i)
  let ?a = "rev (filter (isCurrentDevice key) (take i ds)) @ filter (\<lambda>d. \<not> isCurrentDevice key d) (take i ds)"
  have len: "length ?a = i"
    using sum_length_filter_compl [of "isCurrentDevice key" "take i ds"] Suc.prems by (simp add: min_absorb2)
  have d: "drop i ds = ds ! i # drop (Suc i) ds" using Suc.prems by (simp add: Cons_nth_drop_Suc)
  have n: "(?a @ drop i ds) ! i = ds ! i" using len d by (simp only: nth_append) simp
  have m: "list_move i (?a @ drop i ds) = ds ! i # ?a @ drop (Suc i) ds"
    using len d n by (simp add: list_move_def removeAt_def)
  have t: "take (Suc i) ds = take i ds @ [ds ! i]" using Suc.prems by (simp add: take_Suc_conv_app_nth)
  have "fold (\<lambda>index ds. if isCurrentDevice key (ds ! index) then list_move index ds else ds) [0..<Suc i] ds =
      (if isCurrentDevice key (ds ! i) then list_move i (?a @ drop i ds) else ?a @ drop i ds)"
    using Suc n by simp
  then show ?case unfolding m t by (simp add: d)
qed simp

lemma moveCurrentDevice_eq:
  "moveCurrentDevice key ds = rev (filter (isCurrentDevice key) ds) @ filter (\<lambda>d. \<not> isCurrentDevice key d) ds"
  using move_prefix [of "length ds" ds key] by (simp add: moveCurrentDevice_def)

lemma mset_moveCurrentDevice [simp]: "mset (moveCurrentDevice key ds) = mset ds"
  by (simp add: moveCurrentDevice_eq)

lemma move_sorted_ordered: "sorted_wrt (device_before key) (moveCurrentDevice key (sort_by device_sortCallback ds))"
proof -
  let ?s = "sort_by device_sortCallback ds"
  have "sorted_wrt (device_before key) (filter (\<lambda>d. \<not> isCurrentDevice key d) ?s)"
    using sorted_wrt_filter [OF sort_by_sorted [of ds], of "\<lambda>d. \<not> isCurrentDevice key d"]
    by (rule sorted_wrt_mono_rel [rotated]) (auto simp: device_before_def)
  moreover have "sorted_wrt (device_before key) xs" if "\<forall>x\<in>set xs. isCurrentDevice key x" for xs
    using that by (induction xs) (auto simp: device_before_def)
  ultimately show ?thesis by (auto simp: moveCurrentDevice_eq sorted_wrt_append device_before_def)
qed

lemma removeAt_ordered:
  assumes "sorted_wrt R xs" shows "sorted_wrt R (removeAt i xs)"
proof -
  have "sorted_wrt R (take i xs @ drop i xs)" using assms by simp
  then have parts: "sorted_wrt R (take i xs)" "\<forall>x\<in>set (take i xs). \<forall>y\<in>set (drop i xs). R x y"
    unfolding sorted_wrt_append by blast+
  have "set (drop (Suc i) xs) \<subseteq> set (drop i xs)" by (rule set_drop_subset_set_drop) simp
  with parts sorted_wrt_drop [OF assms, of "Suc i"] show ?thesis
    unfolding removeAt_def sorted_wrt_append by blast
qed

lemma mset_removeAt: "i < length xs \<Longrightarrow> add_mset (xs ! i) (mset (removeAt i xs)) = mset xs"
  by (subst (3) id_take_nth_drop [of i xs]) (simp_all add: removeAt_def)

lemma keyIndex_bound: "keyIndex k ds \<noteq> length ds \<Longrightarrow> keyIndex k ds < length ds \<and> dv_publicKey (ds ! keyIndex k ds) = k"
  unfolding keyIndex_def using length_takeWhile_le [of "\<lambda>d. dv_publicKey d \<noteq> k" ds]
  by (metis (mono_tags, lifting) le_neq_implies_less nth_length_takeWhile)

lemma keyIndex_found: "k \<in> dv_publicKey ` set ds \<Longrightarrow> keyIndex k ds \<noteq> length ds"
  by (auto simp: keyIndex_def) (metis (mono_tags, lifting) takeWhile_eq_all_conv takeWhile_eq_take take_all_iff order_refl)

subsection \<open>Loading and removal\<close>

lemma load_devices_ok:
  "load_devices isoDate ks vs (a, b) = (True, devices, removed) \<Longrightarrow>
     \<exists>ds. map (device_fromJson isoDate) vs = map Some ds \<and> devices = a @ filter (\<lambda>d. dv_publicKey d \<notin> set ks) ds \<and>
       removed = b @ filter (\<lambda>d. dv_publicKey d \<in> set ks) ds"
proof (induction vs arbitrary: a b)
  case (Cons v vs)
  obtain d where d: "device_fromJson isoDate v = Some d" using Cons.prems by (auto split: option.splits)
  have "\<exists>ds. map (device_fromJson isoDate) vs = map Some ds \<and>
      devices = (if dv_publicKey d \<in> set ks then a else a @ [d]) @ filter (\<lambda>d. dv_publicKey d \<notin> set ks) ds \<and>
      removed = (if dv_publicKey d \<in> set ks then b @ [d] else b) @ filter (\<lambda>d. dv_publicKey d \<in> set ks) ds"
    using Cons.prems d by (intro Cons.IH) (auto split: if_splits)
  then obtain ds where "map (device_fromJson isoDate) vs = map Some ds"
      "devices = (if dv_publicKey d \<in> set ks then a else a @ [d]) @ filter (\<lambda>d. dv_publicKey d \<notin> set ks) ds"
      "removed = (if dv_publicKey d \<in> set ks then b @ [d] else b) @ filter (\<lambda>d. dv_publicKey d \<in> set ks) ds"
    by blast
  then show ?case using d by (intro exI [of _ "d # ds"]) auto
qed simp

lemma load_result:
  assumes "devices_fromJsonInternal C isoDate key json m = (True, m')"
  shows "sorted_wrt (device_before key) (dm_devices m')"
    "\<exists>ob ds. jsonFromText C json = Some (JObject ob) \<and> map (device_fromJson isoDate) (jToArray (jValue ob ''devices'')) = map Some ds \<and>
      mset (dm_devices m') = mset (filter (\<lambda>d. dv_publicKey d \<notin> dv_publicKey ` set (dm_removedDevices m)) ds) \<and>
      dm_removedDevices m' = filter (\<lambda>d. dv_publicKey d \<in> dv_publicKey ` set (dm_removedDevices m)) ds"
proof -
  let ?ks = "map dv_publicKey (dm_removedDevices m)"
  obtain ob where ob: "jsonFromText C json = Some (JObject ob)"
    using assms by (auto simp: devices_fromJsonInternal_def Let_def jIsObject_def split: if_splits option.splits json.splits)
  obtain devices removed where l: "load_devices isoDate ?ks (jToArray (jValue ob ''devices'')) ([], []) = (True, devices, removed)"
    and m': "dm_devices m' = moveCurrentDevice key (sort_by device_sortCallback devices)" "dm_removedDevices m' = removed"
    using assms ob by (auto simp: devices_fromJsonInternal_def Let_def dm_emit_def split: if_splits prod.splits)
  show "sorted_wrt (device_before key) (dm_devices m')" unfolding m' by (rule move_sorted_ordered)
  obtain ds where "map (device_fromJson isoDate) (jToArray (jValue ob ''devices'')) = map Some ds"
      "devices = filter (\<lambda>d. dv_publicKey d \<notin> set ?ks) ds" "removed = filter (\<lambda>d. dv_publicKey d \<in> set ?ks) ds"
    using load_devices_ok [OF l] by auto
  then show "\<exists>ob ds. jsonFromText C json = Some (JObject ob) \<and> map (device_fromJson isoDate) (jToArray (jValue ob ''devices'')) = map Some ds \<and>
      mset (dm_devices m') = mset (filter (\<lambda>d. dv_publicKey d \<notin> dv_publicKey ` set (dm_removedDevices m)) ds) \<and>
      dm_removedDevices m' = filter (\<lambda>d. dv_publicKey d \<in> dv_publicKey ` set (dm_removedDevices m)) ds"
    using ob by (intro exI [of _ ob] exI [of _ ds]) (simp add: m')
qed

text \<open>All devices of the model, those that are being removed included.\<close>

definition all_devices :: "DeviceModel \<Rightarrow> Device multiset" where
  "all_devices m = mset (dm_devices m) + mset (dm_removedDevices m)"

lemma start_conserves: "all_devices (startDeviceRemovalFromPublicKey k m) = all_devices m"
proof (cases "keyIndex k (dm_devices m) = length (dm_devices m)")
  case False
  then show ?thesis
    using mset_removeAt [of "keyIndex k (dm_devices m)" "dm_devices m"] keyIndex_bound [OF False]
    by (simp add: startDeviceRemovalFromPublicKey_def device_removeRow_def dm_emit_def all_devices_def Let_def)
qed (simp add: startDeviceRemovalFromPublicKey_def)

lemma stop_conserves: "all_devices (stopDeviceRemovalFromPublicKey k key m) = all_devices m"
proof (cases "keyIndex k (dm_removedDevices m) = length (dm_removedDevices m)")
  case False
  then show ?thesis
    using mset_removeAt [of "keyIndex k (dm_removedDevices m)" "dm_removedDevices m"] keyIndex_bound [OF False]
    by (simp add: stopDeviceRemovalFromPublicKey_def dm_emit_def all_devices_def Let_def)
qed (simp add: stopDeviceRemovalFromPublicKey_def)

lemma fromJson_result:
  assumes "devices_fromJson C isoDate key s m = (True, m')" "s = [] \<or> dm_rawJson m \<noteq> s"
  obtains ob ds where "jsonFromText C s = Some (JObject ob)"
    "map (device_fromJson isoDate) (jToArray (jValue ob ''devices'')) = map Some ds"
    "sorted_wrt (device_before key) (dm_devices m')"
    "mset (dm_devices m') = mset (filter (\<lambda>d. dv_publicKey d \<notin> dv_publicKey ` set (dm_removedDevices m)) ds)"
    "dm_removedDevices m' = filter (\<lambda>d. dv_publicKey d \<in> dv_publicKey ` set (dm_removedDevices m)) ds"
proof -
  obtain m1 where m1: "devices_fromJsonInternal C isoDate key s m = (True, m1)" "m' = m1\<lparr>dm_rawJson := s\<rparr>"
    using assms by (auto simp: devices_fromJson_def split: if_splits prod.splits)
  show ?thesis using that load_result [OF m1(1)] m1(2) by auto
qed

subsection \<open>Runs\<close>

text \<open>The operations of the model, in any order; the key of this device does not change.\<close>

inductive device_step :: "json_codec \<Rightarrow> (string \<Rightarrow> int option) \<Rightarrow> string \<Rightarrow> DeviceModel \<Rightarrow> DeviceModel \<Rightarrow> bool"
  for C isoDate key where
  ds_fromJson: "device_step C isoDate key m (snd (devices_fromJson C isoDate key s m))"
| ds_fromSettings: "device_step C isoDate key m (snd (devices_fromSettings C isoDate key st m))"
| ds_start: "device_step C isoDate key m (startDeviceRemovalFromPublicKey k m)"
| ds_stop: "device_step C isoDate key m (stopDeviceRemovalFromPublicKey k key m)"
| ds_remove: "device_step C isoDate key m (removeDeviceFromPublicKey k m)"

definition device_inv :: "string \<Rightarrow> DeviceModel \<Rightarrow> bool" where
  "device_inv key m \<longleftrightarrow> (dm_rawJson m \<noteq> [] \<longrightarrow> sorted_wrt (device_before key) (dm_devices m))"

lemma internal_failed_raw:
  "devices_fromJsonInternal C isoDate key json m = (False, m') \<Longrightarrow> dm_rawJson m' = []"
  by (auto simp: devices_fromJsonInternal_def Let_def dm_emit_def split: if_splits prod.splits)

lemma load_inv:
  assumes "devices_fromJsonInternal C isoDate key json m = (ok, m1)"
  shows "device_inv key (if ok then m1\<lparr>dm_rawJson := json\<rparr> else m1)"
  using assms load_result(1) [of C isoDate key json m m1] internal_failed_raw [of C isoDate key json m m1]
  by (cases ok) (auto simp: device_inv_def)

lemma device_step_inv:
  assumes "device_inv key m" "device_step C isoDate key m m'"
  shows "device_inv key m'"
  using assms(2)
proof cases
  case (ds_fromJson s)
  then show ?thesis using assms(1) load_inv [of C isoDate key s m]
    by (auto simp: devices_fromJson_def split: prod.splits if_splits)
next
  case (ds_fromSettings st)
  then show ?thesis using assms(1) load_inv [of C isoDate key "vToByteArray (Setting_get devicesSetting st)" m]
    by (auto simp: devices_fromSettings_def Let_def split: prod.splits if_splits)
next
  case (ds_start k)
  then show ?thesis using assms(1)
    by (auto simp: startDeviceRemovalFromPublicKey_def device_removeRow_def dm_emit_def Let_def device_inv_def removeAt_ordered)
next
  case (ds_stop k)
  then show ?thesis using assms(1)
    by (auto simp: stopDeviceRemovalFromPublicKey_def dm_emit_def Let_def device_inv_def move_sorted_ordered)
next
  case (ds_remove k)
  then show ?thesis using assms(1)
    by (auto simp: removeDeviceFromPublicKey_def device_removeRow_def dm_emit_def Let_def device_inv_def removeAt_ordered)
qed

interpretation devices: invariant_system "\<lambda>m. m = newDeviceModel" "device_step C isoDate key" "device_inv key" for C isoDate key
  by unfold_locales (simp add: device_inv_def newDeviceModel_def, rule device_step_inv)

lemma start_moves:
  assumes "k \<in> dv_publicKey ` set (dm_devices m)"
  shows "k \<in> dv_publicKey ` set (dm_removedDevices (startDeviceRemovalFromPublicKey k m))"
proof -
  have i: "keyIndex k (dm_devices m) \<noteq> length (dm_devices m)"
    using assms by (rule keyIndex_found)
  then show ?thesis using keyIndex_bound [OF i]
    by (auto simp: startDeviceRemovalFromPublicKey_def device_removeRow_def dm_emit_def Let_def)
qed

lemma start_keeps_raw [simp]: "dm_rawJson (startDeviceRemovalFromPublicKey k m) = dm_rawJson m"
  by (simp add: startDeviceRemovalFromPublicKey_def device_removeRow_def dm_emit_def Let_def)

lemma stop_restores:
  assumes "k \<in> dv_publicKey ` set (dm_removedDevices m)"
  shows "k \<in> dv_publicKey ` set (dm_devices (stopDeviceRemovalFromPublicKey k key m))"
    "sorted_wrt (device_before key) (dm_devices (stopDeviceRemovalFromPublicKey k key m))"
proof -
  have i: "keyIndex k (dm_removedDevices m) \<noteq> length (dm_removedDevices m)"
    using assms by (rule keyIndex_found)
  have "set (moveCurrentDevice key (sort_by device_sortCallback xs)) = set xs" for xs
    by (metis mset_moveCurrentDevice mset_sort_by set_mset_mset)
  with keyIndex_bound [OF i] show "k \<in> dv_publicKey ` set (dm_devices (stopDeviceRemovalFromPublicKey k key m))"
    using i by (simp add: stopDeviceRemovalFromPublicKey_def dm_emit_def Let_def)
  show "sorted_wrt (device_before key) (dm_devices (stopDeviceRemovalFromPublicKey k key m))"
    using i by (simp add: stopDeviceRemovalFromPublicKey_def dm_emit_def Let_def move_sorted_ordered)
qed


text \<open>Two devices, of which \<open>b\<close> is this one; \<open>a\<close> is being removed when a third one appears.\<close>

definition exampleDevice :: "string \<Rightarrow> string \<Rightarrow> json" where
  "exampleDevice k date = JObject [(''name'', JString k), (''pubkey'', JString k), (''created_at'', JString date),
     (''ipv4_address'', JString ''10.0.0.1''), (''ipv6_address'', JString ''fc00::1'')]"

definition devicesCodec :: json_codec where
  "devicesCodec = \<lparr>jsonToText = (\<lambda>_. []),
     jsonFromText = map_of [(''one'', JObject [(''devices'', JArray [exampleDevice ''a'' ''Tue'', exampleDevice ''b'' ''Mon''])]),
       (''two'', JObject [(''devices'', JArray [exampleDevice ''a'' ''Tue'', exampleDevice ''b'' ''Mon'', exampleDevice ''c'' ''Wed''])])]\<rparr>"

definition exampleDate :: "string \<Rightarrow> int option" where
  "exampleDate = map_of [(''Mon'', 1), (''Tue'', 2), (''Wed'', 3)]"

definition loadExample :: "string \<Rightarrow> DeviceModel \<Rightarrow> DeviceModel" where
  "loadExample s m = snd (devices_fromJson devicesCodec exampleDate ''b'' s m)"


text \<open>A load that fails announces the start of a reset and not its end, and leaves the list empty or half loaded.\<close>

lemma failed_device_load_leaves_reset_open:
  "devices_fromJsonInternal C isoDate key json m = (False, m') \<Longrightarrow> dm_signals m' = dm_signals m @ [DevicesResetBegun]"
  by (auto simp: devices_fromJsonInternal_def Let_def dm_emit_def split: if_splits prod.splits)

end
