(* ===== verification/Server_Latency.thy ===== *)
theory Server_Latency
  imports Server_Data "HOL-Library.AList" "HOL-Library.Signed_Division"
begin

text \<open>
  \<^verbatim>\<open>src/src/serverlatency.cpp\<close> and \<^verbatim>\<open>serverlatency.h\<close>: the measurement of the latency of every
  server with a bounded number of pings in flight, the cooldown of servers that failed, and the
  score of a city.  The object and the server list, whose cities carry latency and score, are
  passed together.  A timer is the interval it was started with, \<open>None\<close> when it is stopped; the hash
  tables are association lists with distinct keys; the pings are logged with the text of their
  destination.  The clock, the state of the controller, the network interfaces and which ping sender
  can be opened are arguments.
\<close>

subsection \<open>Distances\<close>

text \<open>Doubles are reals, and \<open>None\<close> is the value that is not a number.\<close>

record Location =
  l_countryCode :: string
  l_latitude :: "real option"
  l_longitude :: "real option"

definition greatCircle :: "real \<Rightarrow> real \<Rightarrow> real \<Rightarrow> real \<Rightarrow> real" where
  "greatCircle aLat aLong bLat bLong =
     (let aSin = sin (aLat * pi / 180); aCos = cos (aLat * pi / 180);
          bSin = sin (bLat * pi / 180); bCos = cos (bLat * pi / 180);
          diffCos = cos ((aLong - bLong) * pi / 180)
      in arccos (aSin * bSin + aCos * bCos * diffCos))"

definition location_distance :: "Location \<Rightarrow> ServerCity \<Rightarrow> real" where
  "location_distance l city =
     (case (l_latitude l, l_longitude l) of
        (Some lat, Some long) \<Rightarrow> greatCircle lat long (of_rat (city_latitude city)) (of_rat (city_longitude city))
      | _ \<Rightarrow> 0)"

definition city_distance :: "ServerCity \<Rightarrow> ServerCity \<Rightarrow> real" where
  "city_distance a b =
     greatCircle (of_rat (city_latitude a)) (of_rat (city_longitude a)) (of_rat (city_latitude b)) (of_rat (city_longitude b))"

subsection \<open>State\<close>

definition SERVER_LATENCY_MAX_PARALLEL :: nat where "SERVER_LATENCY_MAX_PARALLEL = 8"
definition SERVER_LATENCY_MAX_RETRIES :: nat where "SERVER_LATENCY_MAX_RETRIES = 2"
definition SCORE_SERVER_REDUNDANCY_THRESHOLD :: nat where "SCORE_SERVER_REDUNDANCY_THRESHOLD = 3"
definition SCORE_EXCELLENT_LATENCY_THRESHOLD :: int where "SCORE_EXCELLENT_LATENCY_THRESHOLD = 30"
definition SERVER_LATENCY_TIMEOUT :: int where "SERVER_LATENCY_TIMEOUT = 5000"
definition SERVER_LATENCY_INITIAL :: int where "SERVER_LATENCY_INITIAL = 1000"
definition SERVER_LATENCY_REFRESH :: int where "SERVER_LATENCY_REFRESH = 1800000"

text \<open>The enumeration \<open>ConnectionScores\<close>.\<close>

definition Unavailable :: int where "Unavailable = -1"
definition NoData :: int where "NoData = 0"
definition Poor :: int where "Poor = 1"
definition Moderate :: int where "Moderate = 2"
definition Good :: int where "Good = 3"
definition Excellent :: int where "Excellent = 4"

lemmas score_defs = Unavailable_def NoData_def Poor_def Moderate_def Good_def Excellent_def

record ServerPingRecord =
  rec_publicKey :: string
  rec_countryCode :: string
  rec_cityName :: string
  rec_timestamp :: int
  rec_sequence :: "16 word"
  rec_distance :: real
  rec_retries :: nat

datatype latency_sender = FactorySender | TcpSender

record ServerLatency =
  sl_sequence :: "16 word"
  sl_pingSender :: "latency_sender option"
  sl_pingSendQueue :: "ServerPingRecord list"
  sl_pingReplyList :: "ServerPingRecord list"
  sl_pingSendTotal :: nat
  sl_latency :: "(string \<times> int) list"
  sl_cooldown :: "(string \<times> int) list"
  sl_sumLatencyMsec :: int
  sl_lastUpdateTime :: "int option"
  sl_pingTimeout :: "int option"
  sl_refreshTimer :: "int option"
  sl_progressDelayTimer :: bool
  sl_cooldownTimer :: "int option"
  sl_wantRefresh :: bool
  sl_hasIPv4Connectivity :: bool
  sl_sent :: "(string \<times> 16 word) list"
  sl_progressChanged :: nat

definition newServerLatency :: ServerLatency where
  "newServerLatency = \<lparr>sl_sequence = 0, sl_pingSender = None, sl_pingSendQueue = [], sl_pingReplyList = [], sl_pingSendTotal = 0,
     sl_latency = [], sl_cooldown = [], sl_sumLatencyMsec = 0, sl_lastUpdateTime = None, sl_pingTimeout = None,
     sl_refreshTimer = None, sl_progressDelayTimer = False, sl_cooldownTimer = None, sl_wantRefresh = False,
     sl_hasIPv4Connectivity = True, sl_sent = [], sl_progressChanged = 0\<rparr>"

type_synonym latency_state = "ServerLatency \<times> ServerCountryModel"

definition hash_value :: "(string \<times> int) list \<Rightarrow> string \<Rightarrow> int" where
  "hash_value h k = (case map_of h k of None \<Rightarrow> 0 | Some v \<Rightarrow> v)"

definition getLatency :: "ServerLatency \<Rightarrow> string \<Rightarrow> int" where
  "getLatency s pubkey = hash_value (sl_latency s) pubkey"

definition sl_getCooldown :: "ServerLatency \<Rightarrow> string \<Rightarrow> int" where
  "sl_getCooldown s pubkey = hash_value (sl_cooldown s) pubkey"

definition emit_progress :: "ServerLatency \<Rightarrow> ServerLatency" where
  "emit_progress s = s\<lparr>sl_progressChanged := sl_progressChanged s + 1\<rparr>"

definition latency_initialize :: "bool \<Rightarrow> ServerLatency \<Rightarrow> ServerLatency" where
  "latency_initialize supported s = (if supported then s\<lparr>sl_refreshTimer := Some SERVER_LATENCY_INITIAL\<rparr> else s)"

subsection \<open>Scores\<close>

definition active_count :: "ServerLatency \<Rightarrow> int \<Rightarrow> string list \<Rightarrow> nat" where
  "active_count s nowSecs pubkeys = fold (\<lambda>pubkey n. if sl_getCooldown s pubkey \<le> nowSecs then n + 1 else n) pubkeys 0"

definition baseCityScore :: "ServerLatency \<Rightarrow> int \<Rightarrow> ServerCity \<Rightarrow> string \<Rightarrow> int" where
  "baseCityScore s nowSecs city originCountry =
     (let score = Poor;
          activeServerCount = active_count s nowSecs (city_servers city)
      in
      if activeServerCount = 0 then Unavailable
      else
        let score = (if activeServerCount \<ge> SCORE_SERVER_REDUNDANCY_THRESHOLD then score + 1 else score);
            score = (if originCountry \<noteq> [] \<and> toLower originCountry = toLower (city_country city) then score + 1 else score)
        in if score > Excellent then Excellent else score)"

definition multiHopScore ::
    "ServerLatency \<Rightarrow> ServerCountryModel \<Rightarrow> int \<Rightarrow> string \<Rightarrow> string \<Rightarrow> string \<Rightarrow> string \<Rightarrow> int" where
  "multiHopScore s scm nowSecs exitCountry exitCityName entryCountry entryCityName =
     (let exitCity = findCity scm exitCountry exitCityName in
      if city_name exitCity = [] then NoData
      else
        let score = baseCityScore s nowSecs exitCity entryCountry in
        if score \<le> Unavailable then score
        else
          let entryCity = findCity scm entryCountry entryCityName in
          if city_name entryCity = [] then NoData
          else
            let score = (if city_distance exitCity entryCity < pi / 4 then score + 1 else score) in
            if score > Excellent then Excellent else score)"

definition avgLatency :: "ServerLatency \<Rightarrow> int" where
  "avgLatency s =
     (if sl_latency s = [] then 0
      else (sl_sumLatencyMsec s + int (length (sl_latency s)) - 1) sdiv int (length (sl_latency s)))"

text \<open>The average latency of a city over the servers that answered, rounded up.\<close>

fun city_samples :: "ServerLatency \<Rightarrow> string list \<Rightarrow> int \<times> int \<Rightarrow> int \<times> int" where
  "city_samples s [] acc = acc"
| "city_samples s (pubkey # rest) (numLatencySamples, avgLatencyMsec) =
     (let rtt = getLatency s pubkey in
      city_samples s rest
        (if rtt > 0 then (numLatencySamples + 1, avgLatencyMsec + rtt) else (numLatencySamples, avgLatencyMsec)))"

definition city_average :: "ServerLatency \<Rightarrow> ServerCity \<Rightarrow> int" where
  "city_average s city =
     (let (n, total) = city_samples s (city_servers city) (0, 0) in
      if n > 0 then (total + (n - 1)) sdiv n else total)"

definition updatedScore :: "ServerLatency \<Rightarrow> int \<Rightarrow> ServerCity \<Rightarrow> string \<Rightarrow> int" where
  "updatedScore s nowSecs city userCountry =
     (let avgLatencyMsec = city_average s city;
          score = baseCityScore s nowSecs city userCountry
      in
      if score \<le> Unavailable \<or> avgLatencyMsec = 0 then score
      else
        let score = (if avgLatencyMsec < avgLatency s
              then (if avgLatencyMsec < SCORE_EXCELLENT_LATENCY_THRESHOLD then score + 2 else score + 1) else score)
        in if score > Excellent then Excellent else score)"

text \<open>Writing through the reference that \<open>findCity\<close> answers; for an unknown city it is a dummy.\<close>

definition update_city :: "string \<Rightarrow> string \<Rightarrow> (ServerCity \<Rightarrow> ServerCity) \<Rightarrow> ServerCountryModel \<Rightarrow> ServerCountryModel" where
  "update_city countryCode cityName f scm =
     (case m_cities scm (hashKey countryCode cityName) of
        None \<Rightarrow> scm
      | Some c \<Rightarrow> scm\<lparr>m_cities := (m_cities scm)(hashKey countryCode cityName \<mapsto> f c)\<rparr>)"

definition updateConnectionScore :: "int \<Rightarrow> string \<Rightarrow> string \<Rightarrow> latency_state \<Rightarrow> latency_state" where
  "updateConnectionScore nowSecs userCountry pubkey st =
     (let (s, scm) = st;
          server = model_server scm pubkey
      in (s, update_city (qtext (m_countryCode server)) (qtext (m_cityName server))
           (\<lambda>city. city\<lparr>city_latency := city_average s city,
                        city_connectionScore := updatedScore s nowSecs city userCountry\<rparr>) scm))"

definition setLatency :: "int \<Rightarrow> string \<Rightarrow> string \<Rightarrow> int \<Rightarrow> latency_state \<Rightarrow> latency_state" where
  "setLatency nowSecs userCountry pubkey msec st =
     (let (s, scm) = st;
          s = s\<lparr>sl_sumLatencyMsec := sl_sumLatencyMsec s - hash_value (sl_latency s) pubkey + msec,
                sl_latency := AList.update pubkey msec (sl_latency s)\<rparr>
      in updateConnectionScore nowSecs userCountry pubkey (s, scm))"

subsection \<open>Cooldowns\<close>

text \<open>The timer is started with a number of seconds, which it takes as milliseconds.\<close>

definition schedule_cooldown :: "int \<Rightarrow> ServerLatency \<Rightarrow> ServerLatency" where
  "schedule_cooldown timeout s =
     (let next = (case sl_cooldownTimer s of None \<Rightarrow> -1 | Some t \<Rightarrow> t) in
      if next \<le> 0 \<or> timeout < next then s\<lparr>sl_cooldownTimer := Some timeout\<rparr> else s)"

definition setCooldown :: "int \<Rightarrow> string \<Rightarrow> string \<Rightarrow> int \<Rightarrow> latency_state \<Rightarrow> latency_state" where
  "setCooldown nowSecs userCountry publicKey timeout st =
     (let (s, scm) = st;
          s = (if timeout \<le> 0 then s\<lparr>sl_cooldown := AList.delete publicKey (sl_cooldown s)\<rparr>
               else s\<lparr>sl_cooldown := AList.update publicKey (nowSecs + timeout) (sl_cooldown s)\<rparr>);
          (s, scm) = updateConnectionScore nowSecs userCountry publicKey (s, scm)
      in (schedule_cooldown timeout s, scm))"

text \<open>
  The loop over all cities, given as a list because the order of the hash table is open: the last name
  found, and the table with an entry for every server of the cities that match.
\<close>

fun cooldown_cities ::
    "string \<Rightarrow> string \<Rightarrow> int \<Rightarrow> ServerCity list \<Rightarrow> string \<times> (string \<times> int) list \<Rightarrow> string \<times> (string \<times> int) list" where
  "cooldown_cities countryCode cityCode expire [] acc = acc"
| "cooldown_cities countryCode cityCode expire (city # rest) (name, cd) =
     (if city_country city \<noteq> countryCode then cooldown_cities countryCode cityCode expire rest (name, cd)
      else if city_code city \<noteq> cityCode then cooldown_cities countryCode cityCode expire rest (name, cd)
      else cooldown_cities countryCode cityCode expire rest
             (city_name city, fold (\<lambda>pubkey. AList.update pubkey expire) (city_servers city) cd))"

definition setCityCooldown ::
    "int \<Rightarrow> ServerCity list \<Rightarrow> string \<Rightarrow> string \<Rightarrow> int \<Rightarrow> latency_state \<Rightarrow> latency_state" where
  "setCityCooldown nowSecs cities countryCode cityCode timeout st =
     (let (s, scm) = st;
          (cityName, cd) = cooldown_cities countryCode cityCode (nowSecs + timeout) cities ([], sl_cooldown s);
          s = s\<lparr>sl_cooldown := cd\<rparr>
      in
      if cityName = [] then (s, scm)
      else
        (schedule_cooldown timeout s,
         update_city countryCode cityName (\<lambda>city. city\<lparr>city_connectionScore := Unavailable\<rparr>) scm))"

fun clear_loop :: "int \<Rightarrow> string \<Rightarrow> string list \<Rightarrow> int \<Rightarrow> latency_state \<Rightarrow> int \<times> latency_state" where
  "clear_loop now userCountry [] next st = (next, st)"
| "clear_loop now userCountry (pubkey # rest) next (s, scm) =
     (let expiration = hash_value (sl_cooldown s) pubkey in
      if expiration > now then
        clear_loop now userCountry rest (if next = 0 \<or> expiration < next then expiration else next) (s, scm)
      else
        clear_loop now userCountry rest next
          (updateConnectionScore now userCountry pubkey (s\<lparr>sl_cooldown := AList.delete pubkey (sl_cooldown s)\<rparr>, scm)))"

definition clearCooldowns :: "int \<Rightarrow> string \<Rightarrow> latency_state \<Rightarrow> latency_state" where
  "clearCooldowns now userCountry st =
     (let (next, s, scm) = clear_loop now userCountry (map fst (sl_cooldown (fst st))) 0
            ((fst st)\<lparr>sl_cooldownTimer := None\<rparr>, snd st)
      in (if next > now then s\<lparr>sl_cooldownTimer := Some (next - now)\<rparr> else s, scm))"

subsection \<open>Measurement\<close>

definition latency_stop :: "ServerLatency \<Rightarrow> ServerLatency" where
  "latency_stop s =
     (let s = s\<lparr>sl_pingTimeout := None, sl_pingSendQueue := [], sl_pingReplyList := [], sl_pingSendTotal := 0,
                sl_pingSender := None\<rparr>;
          s = (emit_progress s)\<lparr>sl_progressDelayTimer := False\<rparr>
      in if sl_refreshTimer s = None then s\<lparr>sl_refreshTimer := Some SERVER_LATENCY_REFRESH\<rparr> else s)"

definition latency_clear :: "ServerLatency \<Rightarrow> ServerLatency" where
  "latency_clear s = emit_progress (s\<lparr>sl_latency := [], sl_sumLatencyMsec := 0\<rparr>)"

definition send_record :: "ServerCountryModel \<Rightarrow> ServerPingRecord \<Rightarrow> ServerLatency \<Rightarrow> ServerLatency" where
  "send_record scm r s =
     (let server = model_server scm (rec_publicKey r) in
      s\<lparr>sl_pingReplyList := sl_pingReplyList s @ [r], sl_sequence := sl_sequence s + 1,
        sl_sent := sl_sent s @
          [(qtext (if sl_hasIPv4Connectivity s then m_ipv4AddrIn server else m_ipv6AddrIn server), rec_sequence r)]\<rparr>)"

definition expired :: "int \<Rightarrow> ServerPingRecord \<Rightarrow> bool" where
  "expired now r \<longleftrightarrow> \<not> rec_timestamp r + SERVER_LATENCY_TIMEOUT > now"

definition retry_first :: "int \<Rightarrow> ServerCountryModel \<Rightarrow> ServerPingRecord \<Rightarrow> ServerLatency \<Rightarrow> ServerLatency" where
  "retry_first now scm r s =
     (let s = (if rec_retries r < SERVER_LATENCY_MAX_RETRIES
               then send_record scm (r\<lparr>rec_retries := rec_retries r + 1, rec_sequence := sl_sequence s, rec_timestamp := now\<rparr>) s
               else s)
      in s\<lparr>sl_pingReplyList := tl (sl_pingReplyList s)\<rparr>)"

function timeout_loop :: "int \<Rightarrow> ServerCountryModel \<Rightarrow> ServerLatency \<Rightarrow> ServerLatency" where
  "timeout_loop now scm s =
     (case sl_pingReplyList s of
        [] \<Rightarrow> s
      | r # _ \<Rightarrow> if \<not> expired now r then s else timeout_loop now scm (retry_first now scm r s))"
  by pat_completeness auto
termination
  by (relation "measure (\<lambda>(now, scm, s). length (filter (expired now) (sl_pingReplyList s)))")
     (auto simp: retry_first_def send_record_def expired_def SERVER_LATENCY_TIMEOUT_def Let_def)

function fill_loop :: "int \<Rightarrow> ServerCountryModel \<Rightarrow> ServerLatency \<Rightarrow> ServerLatency" where
  "fill_loop now scm s =
     (if length (sl_pingReplyList s) < SERVER_LATENCY_MAX_PARALLEL then
        (case sl_pingSendQueue s of
           [] \<Rightarrow> s
         | r # rest \<Rightarrow>
             fill_loop now scm (send_record scm (r\<lparr>rec_sequence := sl_sequence s, rec_timestamp := now, rec_retries := 0\<rparr>)
               (s\<lparr>sl_pingSendQueue := rest\<rparr>)))
      else s)"
  by pat_completeness auto
termination
  by (relation "measure (\<lambda>(now, scm, s). length (sl_pingSendQueue s))") (auto simp: send_record_def Let_def)

declare timeout_loop.simps [simp del] fill_loop.simps [simp del]

text \<open>The elapsed time is converted to 32 bits; a \<open>CheckedInt\<close> out of range fails an assertion.\<close>

definition pingDelay :: "int \<Rightarrow> int \<Rightarrow> fault + int" where
  "pingDelay now timestamp =
     (let v = SERVER_LATENCY_TIMEOUT - sint (word_of_int (now - timestamp) :: 32 word) in
      if v < 2^31 then Inr v else Inl Assertion_failed)"

definition maybeSendPings :: "int \<Rightarrow> ServerCountryModel \<Rightarrow> ServerLatency \<Rightarrow> fault + ServerLatency" where
  "maybeSendPings now scm s =
     (if sl_pingSender s = None then Inr s
      else
        let s = timeout_loop now scm s;
            s = fill_loop now scm s;
            s = s\<lparr>sl_lastUpdateTime := Some now, sl_progressDelayTimer := True\<rparr>
        in
        case sl_pingReplyList s of
          [] \<Rightarrow> Inr (latency_stop s)
        | r # _ \<Rightarrow> fbind (pingDelay now (rec_timestamp r)) (\<lambda>d. Inr (s\<lparr>sl_pingTimeout := Some d\<rparr>)))"

text \<open>
  The queue sorted by distance: the servers of a city are inserted one before the other at the first
  place whose distance is not smaller.
\<close>

definition insert_city :: "real \<Rightarrow> ServerCity \<Rightarrow> ServerPingRecord list \<Rightarrow> ServerPingRecord list" where
  "insert_city distance city queue =
     (let i = length (takeWhile (\<lambda>r. \<not> rec_distance r \<ge> distance) queue) in
      fold (\<lambda>pubkey q. take i q @
          [\<lparr>rec_publicKey = pubkey, rec_countryCode = city_country city, rec_cityName = city_name city, rec_timestamp = 0,
            rec_sequence = 0, rec_distance = distance, rec_retries = 0\<rparr>] @ drop i q)
        (city_servers city) queue)"

fun queue_cities :: "Location \<Rightarrow> ServerCountryModel \<Rightarrow> string \<Rightarrow> string list \<Rightarrow> ServerPingRecord list \<Rightarrow> fault + ServerPingRecord list" where
  "queue_cities l scm code [] queue = Inr queue"
| "queue_cities l scm code (cityName # rest) queue =
     (let city = findCity scm code cityName; distance = location_distance l city in
      fassert (city_name city \<noteq> []) (queue_cities l scm code rest (insert_city distance city queue)))"

fun queue_countries :: "Location \<Rightarrow> ServerCountryModel \<Rightarrow> ServerCountry list \<Rightarrow> ServerPingRecord list \<Rightarrow> fault + ServerPingRecord list" where
  "queue_countries l scm [] queue = Inr queue"
| "queue_countries l scm (country # rest) queue =
     fbind (queue_cities l scm (country_code country) (country_cities country) queue) (queue_countries l scm rest)"

record latency_env =
  le_now :: int
  le_supported :: bool
  le_controllerOff :: bool
  le_hasIPv4 :: bool
  le_factoryValid :: bool
  le_location :: Location

definition latency_start :: "latency_env \<Rightarrow> ServerCountryModel \<Rightarrow> ServerLatency \<Rightarrow> fault + ServerLatency" where
  "latency_start E scm s =
     (if \<not> le_supported E then Inr (latency_clear s)
      else if \<not> le_controllerOff E then Inr (s\<lparr>sl_wantRefresh := True\<rparr>)
      else if sl_pingSender s \<noteq> None then Inr s
      else
        let s = s\<lparr>sl_sequence := 0, sl_wantRefresh := False, sl_hasIPv4Connectivity := le_hasIPv4 E,
                  sl_pingSender := Some (if le_factoryValid E then FactorySender else TcpSender)\<rparr>
        in fbind (queue_countries (le_location E) scm (m_countries scm) (sl_pingSendQueue s)) (\<lambda>queue.
          let s = s\<lparr>sl_pingSendQueue := queue, sl_pingSendTotal := length queue, sl_progressDelayTimer := False\<rparr>;
              s = (emit_progress s)\<lparr>sl_refreshTimer := None\<rparr>
          in maybeSendPings (le_now E) scm s))"

text \<open>The slots of the two single shot timers, which are stopped when they run.\<close>

definition refreshTimeout :: "latency_env \<Rightarrow> ServerCountryModel \<Rightarrow> ServerLatency \<Rightarrow> fault + ServerLatency" where
  "refreshTimeout E scm s = latency_start E scm (s\<lparr>sl_refreshTimer := None\<rparr>)"

definition progressTimeout :: "ServerLatency \<Rightarrow> ServerLatency" where
  "progressTimeout s = emit_progress (s\<lparr>sl_progressDelayTimer := False\<rparr>)"

definition latency_refresh :: "latency_env \<Rightarrow> ServerCountryModel \<Rightarrow> ServerLatency \<Rightarrow> fault + ServerLatency" where
  "latency_refresh E scm s = (if sl_pingSender s \<noteq> None then Inr s else latency_start E scm (latency_clear s))"

definition latency_stateChanged :: "latency_env \<Rightarrow> ServerCountryModel \<Rightarrow> ServerLatency \<Rightarrow> fault + ServerLatency" where
  "latency_stateChanged E scm s =
     (if \<not> le_controllerOff E then Inr (latency_stop s)
      else if sl_wantRefresh s then latency_start E scm s else Inr s)"

definition latency_recvPing :: "latency_env \<Rightarrow> 16 word \<Rightarrow> latency_state \<Rightarrow> fault + latency_state" where
  "latency_recvPing E seq st =
     (let (s, scm) = st;
          i = length (takeWhile (\<lambda>r. rec_sequence r \<noteq> seq) (sl_pingReplyList s))
      in
      if i = length (sl_pingReplyList s) then Inr st
      else
        let r = sl_pingReplyList s ! i;
            latency = le_now E - rec_timestamp r;
            (s, scm) = (if latency \<le> 2^32 - 1
                        then setLatency (le_now E div 1000) (l_countryCode (le_location E)) (rec_publicKey r) latency (s, scm)
                        else (s, scm));
            s = s\<lparr>sl_pingReplyList := removeAt i (sl_pingReplyList s)\<rparr>
        in fbind (maybeSendPings (le_now E) scm s) (\<lambda>s. Inr (s, scm)))"

definition latency_progress :: "ServerLatency \<Rightarrow> rat" where
  "latency_progress s =
     (if sl_pingSender s = None \<or> sl_pingSendTotal s = 0 then 1
      else 1 - of_nat (length (sl_pingReplyList s) + length (sl_pingSendQueue s)) / of_nat (sl_pingSendTotal s))"

datatype latency_phase = Initial | Loading | Loaded

definition latency_phase_of :: "ServerLatency \<Rightarrow> latency_phase" where
  "latency_phase_of s =
     (if sl_pingSender s \<noteq> None then Loading else if sl_lastUpdateTime s \<noteq> None then Loaded else Initial)"

subsection \<open>The work that is left\<close>

text \<open>How many pings the records can still cost: three for a queued server, one per retry left.\<close>

definition reply_work :: "ServerPingRecord list \<Rightarrow> nat" where
  "reply_work rs = sum_list (map (\<lambda>r. 3 - rec_retries r) rs)"

definition latency_work :: "ServerLatency \<Rightarrow> nat" where
  "latency_work s = 3 * length (sl_pingSendQueue s) + reply_work (sl_pingReplyList s)"

lemma reply_work_simps [simp]: "reply_work [] = 0" "reply_work (r # rs) = 3 - rec_retries r + reply_work rs"
    "reply_work (xs @ ys) = reply_work xs + reply_work ys"
  by (simp_all add: reply_work_def)

lemma reply_work_le: "reply_work rs \<le> 3 * length rs"
  by (induction rs) auto

definition retries_ok :: "ServerPingRecord list \<Rightarrow> bool" where
  "retries_ok rs \<longleftrightarrow> (\<forall>r\<in>set rs. rec_retries r \<le> SERVER_LATENCY_MAX_RETRIES)"

text \<open>What the two loops leave alone.\<close>

definition same_rest :: "ServerLatency \<Rightarrow> ServerLatency \<Rightarrow> bool" where
  "same_rest s t \<longleftrightarrow> sl_pingSender t = sl_pingSender s \<and> sl_pingSendTotal t = sl_pingSendTotal s \<and> sl_latency t = sl_latency s \<and>
     sl_sumLatencyMsec t = sl_sumLatencyMsec s \<and> sl_cooldown t = sl_cooldown s \<and> sl_refreshTimer t = sl_refreshTimer s"

lemma same_rest_refl [simp]: "same_rest s s"
  by (simp add: same_rest_def)

lemma same_rest_trans: "same_rest s t \<Longrightarrow> same_rest t u \<Longrightarrow> same_rest s u"
  by (simp add: same_rest_def)

lemma send_record_simps [simp]:
  "sl_pingReplyList (send_record scm r s) = sl_pingReplyList s @ [r]"
  "sl_pingSendQueue (send_record scm r s) = sl_pingSendQueue s"
  "same_rest s (send_record scm r s)"
  by (simp_all add: send_record_def same_rest_def Let_def)

lemma retry_first_reply:
  "sl_pingReplyList s = r # rest \<Longrightarrow> \<exists>new. sl_pingReplyList (retry_first now scm r s) = rest @ new \<and> length new \<le> 1 \<and>
     (\<forall>n\<in>set new. rec_timestamp n = now \<and> rec_retries n = Suc (rec_retries r) \<and> rec_retries r < SERVER_LATENCY_MAX_RETRIES) \<and>
     (rec_retries r < SERVER_LATENCY_MAX_RETRIES \<longrightarrow> new \<noteq> [])"
  by (auto simp: retry_first_def Let_def)

lemma retry_first_rest: "sl_pingSendQueue (retry_first now scm r s) = sl_pingSendQueue s" "same_rest s (retry_first now scm r s)"
  using send_record_simps(3) [of s scm]
  by (simp_all add: retry_first_def Let_def same_rest_def)

lemma retry_first_work:
  assumes "sl_pingReplyList s = r # rest" "retries_ok (r # rest)"
  shows "reply_work (sl_pingReplyList (retry_first now scm r s)) < reply_work (r # rest)"
    "retries_ok (sl_pingReplyList (retry_first now scm r s))"
    "length (sl_pingReplyList (retry_first now scm r s)) \<le> length (r # rest)"
proof -
  obtain new where new: "sl_pingReplyList (retry_first now scm r s) = rest @ new" "length new \<le> 1"
      "\<forall>n\<in>set new. rec_timestamp n = now \<and> rec_retries n = Suc (rec_retries r) \<and> rec_retries r < SERVER_LATENCY_MAX_RETRIES"
    using retry_first_reply [OF assms(1)] by blast
  have r: "rec_retries r \<le> 2" using assms(2) by (simp add: retries_ok_def SERVER_LATENCY_MAX_RETRIES_def)
  show "length (sl_pingReplyList (retry_first now scm r s)) \<le> length (r # rest)" using new(1,2) by simp
  show "retries_ok (sl_pingReplyList (retry_first now scm r s))"
    using new(1,3) assms(2) by (auto simp: retries_ok_def)
  show "reply_work (sl_pingReplyList (retry_first now scm r s)) < reply_work (r # rest)"
  proof (cases new)
    case Nil
    then show ?thesis using new(1) r by simp
  next
    case (Cons n ns)
    then have "ns = []" "rec_retries n = Suc (rec_retries r)" "rec_retries r < 2"
      using new(2,3) by (auto simp: SERVER_LATENCY_MAX_RETRIES_def)
    then show ?thesis using new(1) Cons by simp
  qed
qed

lemma timeout_loop_rest: "sl_pingSendQueue (timeout_loop now scm s) = sl_pingSendQueue s \<and> same_rest s (timeout_loop now scm s)"
proof (induction now scm s rule: timeout_loop.induct)
  case (1 now scm s)
  show ?case
    using 1 retry_first_rest(1) by (subst (1 2) timeout_loop.simps) (auto intro: same_rest_trans [OF retry_first_rest(2)] split: list.split)
qed

lemma timeout_loop_work:
  "retries_ok (sl_pingReplyList s) \<Longrightarrow>
     retries_ok (sl_pingReplyList (timeout_loop now scm s)) \<and>
     length (sl_pingReplyList (timeout_loop now scm s)) \<le> length (sl_pingReplyList s) \<and>
     reply_work (sl_pingReplyList (timeout_loop now scm s)) \<le> reply_work (sl_pingReplyList s) \<and>
     (\<forall>r rest. sl_pingReplyList s = r # rest \<longrightarrow> expired now r \<longrightarrow>
        reply_work (sl_pingReplyList (timeout_loop now scm s)) < reply_work (sl_pingReplyList s))"
proof (induction now scm s rule: timeout_loop.induct)
  case (1 now scm s)
  show ?case
  proof (cases "sl_pingReplyList s")
    case Nil
    then show ?thesis by (subst (1 2 3 4) timeout_loop.simps) (simp add: retries_ok_def)
  next
    case (Cons r rest)
    show ?thesis
    proof (cases "expired now r")
      case False
      then have "timeout_loop now scm s = s" using Cons by (subst timeout_loop.simps) simp
      then show ?thesis using 1(2) Cons False by simp
    next
      case True
      then have eq: "timeout_loop now scm s = timeout_loop now scm (retry_first now scm r s)"
        using Cons by (subst timeout_loop.simps) simp
      note w = retry_first_work [OF Cons, of now scm]
      have "retries_ok (r # rest)" using 1(2) Cons by simp
      from 1(1) [OF Cons _ w(2) [OF this]] w(1,3) [OF this] True show ?thesis
        unfolding eq by (auto simp: Cons)
    qed
  qed
qed

text \<open>When everything was expired, what is left was sent just now.\<close>

lemma timeout_loop_fresh:
  "sl_pingReplyList s = old @ new \<Longrightarrow> \<forall>r\<in>set old. expired now r \<Longrightarrow> \<forall>r\<in>set new. rec_timestamp r = now \<Longrightarrow>
     \<forall>r\<in>set (sl_pingReplyList (timeout_loop now scm s)). rec_timestamp r = now"
proof (induction old arbitrary: s new)
  case Nil
  then have "timeout_loop now scm s = s"
    by (subst timeout_loop.simps) (auto simp: expired_def SERVER_LATENCY_TIMEOUT_def split: list.split)
  then show ?case using Nil by simp
next
  case (Cons r old)
  then have list: "sl_pingReplyList s = r # (old @ new)" by simp
  have eq: "timeout_loop now scm s = timeout_loop now scm (retry_first now scm r s)"
    using Cons.prems by (subst timeout_loop.simps) simp
  obtain n where n: "sl_pingReplyList (retry_first now scm r s) = (old @ new) @ n" "\<forall>x\<in>set n. rec_timestamp x = now"
    using retry_first_reply [OF list, of now scm] by auto
  show ?case
    unfolding eq by (rule Cons.IH [of _ "new @ n"]) (use n Cons.prems in auto)
qed

lemma fill_loop_effect:
  "retries_ok (sl_pingReplyList s) \<Longrightarrow> length (sl_pingReplyList s) \<le> SERVER_LATENCY_MAX_PARALLEL \<Longrightarrow>
     (let t = fill_loop now scm s in
      same_rest s t \<and> retries_ok (sl_pingReplyList t) \<and> length (sl_pingReplyList t) \<le> SERVER_LATENCY_MAX_PARALLEL \<and>
      length (sl_pingReplyList t) + length (sl_pingSendQueue t) = length (sl_pingReplyList s) + length (sl_pingSendQueue s) \<and>
      latency_work t = latency_work s \<and> (sl_pingReplyList t = [] \<longrightarrow> sl_pingSendQueue t = []) \<and>
      (\<exists>new. sl_pingReplyList t = sl_pingReplyList s @ new \<and> (\<forall>r\<in>set new. rec_timestamp r = now)))"
proof (induction now scm s rule: fill_loop.induct)
  case (1 now scm s)
  show ?case
  proof (cases "length (sl_pingReplyList s) < SERVER_LATENCY_MAX_PARALLEL \<and> sl_pingSendQueue s \<noteq> []")
    case False
    then have "fill_loop now scm s = s"
      by (subst fill_loop.simps) (auto split: list.split)
    then show ?thesis using 1(2,3) False by (auto simp: SERVER_LATENCY_MAX_PARALLEL_def)
  next
    case True
    then obtain r rest where q: "sl_pingSendQueue s = r # rest" by (cases "sl_pingSendQueue s") auto
    define r' where "r' = r\<lparr>rec_sequence := sl_sequence s, rec_timestamp := now, rec_retries := 0\<rparr>"
    define u where "u = send_record scm r' (s\<lparr>sl_pingSendQueue := rest\<rparr>)"
    have eq: "fill_loop now scm s = fill_loop now scm u"
      using True q by (subst fill_loop.simps) (simp add: u_def r'_def)
    have u: "sl_pingReplyList u = sl_pingReplyList s @ [r']" "sl_pingSendQueue u = rest" "same_rest s u"
        "rec_timestamp r' = now" "rec_retries r' = 0"
      using send_record_simps(3) [of "s\<lparr>sl_pingSendQueue := rest\<rparr>" scm r'] by (simp_all add: u_def r'_def same_rest_def)
    then have "retries_ok (sl_pingReplyList u)" "length (sl_pingReplyList u) \<le> SERVER_LATENCY_MAX_PARALLEL" "latency_work u = latency_work s"
      using 1(2) True q by (auto simp: retries_ok_def latency_work_def)
    then show ?thesis
      using 1(1) [OF _ q] True u q same_rest_trans [OF u(3)] unfolding eq Let_def u_def [symmetric] r'_def [symmetric]
      by auto
  qed
qed

subsection \<open>Invariant\<close>

definition hash_ok :: "(string \<times> int) list \<Rightarrow> bool" where
  "hash_ok h \<longleftrightarrow> distinct (map fst h)"

text \<open>What holds inside a call, before the list of pings in flight is topped up.\<close>

definition latency_mid :: "ServerLatency \<Rightarrow> bool" where
  "latency_mid s \<longleftrightarrow> length (sl_pingReplyList s) \<le> SERVER_LATENCY_MAX_PARALLEL \<and> retries_ok (sl_pingReplyList s) \<and>
     length (sl_pingReplyList s) + length (sl_pingSendQueue s) \<le> sl_pingSendTotal s \<and>
     hash_ok (sl_latency s) \<and> sl_sumLatencyMsec s = sum_list (map snd (sl_latency s))"

definition latency_inv :: "ServerLatency \<Rightarrow> bool" where
  "latency_inv s \<longleftrightarrow> latency_mid s \<and>
     (sl_pingSender s = None \<longrightarrow> sl_pingSendQueue s = [] \<and> sl_pingReplyList s = [] \<and> sl_pingTimeout s = None) \<and>
     (sl_pingSender s \<noteq> None \<longrightarrow> sl_pingReplyList s \<noteq> [] \<and> sl_pingTimeout s \<noteq> None)"

lemma latency_stop_inv: "hash_ok (sl_latency s) \<Longrightarrow> sl_sumLatencyMsec s = sum_list (map snd (sl_latency s)) \<Longrightarrow> latency_inv (latency_stop s)"
  by (simp add: latency_stop_def latency_inv_def latency_mid_def retries_ok_def emit_progress_def Let_def)

lemma latency_stop_simps [simp]: "sl_pingSender (latency_stop s) = None" "sl_refreshTimer (latency_stop s) \<noteq> None"
  by (simp_all add: latency_stop_def emit_progress_def Let_def)

text \<open>The state in which a poll looks at the list of pings in flight.\<close>

definition polled :: "int \<Rightarrow> ServerCountryModel \<Rightarrow> ServerLatency \<Rightarrow> ServerLatency" where
  "polled now scm s =
     (fill_loop now scm (timeout_loop now scm s))\<lparr>sl_lastUpdateTime := Some now, sl_progressDelayTimer := True\<rparr>"

lemma maybeSendPings_polled:
  "sl_pingSender s \<noteq> None \<Longrightarrow> maybeSendPings now scm s =
     (case sl_pingReplyList (polled now scm s) of
        [] \<Rightarrow> Inr (latency_stop (polled now scm s))
      | r # _ \<Rightarrow> fbind (pingDelay now (rec_timestamp r)) (\<lambda>d. Inr ((polled now scm s)\<lparr>sl_pingTimeout := Some d\<rparr>)))"
  by (auto simp: maybeSendPings_def polled_def Let_def split: list.split)

lemma polled_effect:
  assumes "latency_mid s"
  shows "same_rest s (polled now scm s)" "latency_mid (polled now scm s)"
    "sl_pingReplyList (polled now scm s) = [] \<Longrightarrow> sl_pingSendQueue (polled now scm s) = []"
    "latency_work (polled now scm s) \<le> latency_work s"
    "sl_pingReplyList s = r # rest \<Longrightarrow> expired now r \<Longrightarrow> latency_work (polled now scm s) < latency_work s"
    "\<forall>r\<in>set (sl_pingReplyList s). expired now r \<Longrightarrow> \<forall>r\<in>set (sl_pingReplyList (polled now scm s)). rec_timestamp r = now"
proof -
  let ?t = "timeout_loop now scm s" and ?p = "polled now scm s"
  have ok: "retries_ok (sl_pingReplyList s)" and len: "length (sl_pingReplyList s) \<le> SERVER_LATENCY_MAX_PARALLEL"
    using assms by (simp_all add: latency_mid_def)
  note w = timeout_loop_work [OF ok, of now scm]
  note rest = timeout_loop_rest [of now scm s]
  have "length (sl_pingReplyList ?t) \<le> SERVER_LATENCY_MAX_PARALLEL" using w len by simp
  with w have f: "same_rest ?t (fill_loop now scm ?t) \<and> retries_ok (sl_pingReplyList ?p) \<and>
      length (sl_pingReplyList ?p) \<le> SERVER_LATENCY_MAX_PARALLEL \<and>
      length (sl_pingReplyList ?p) + length (sl_pingSendQueue ?p) = length (sl_pingReplyList ?t) + length (sl_pingSendQueue ?t) \<and>
      latency_work ?p = latency_work ?t \<and> (sl_pingReplyList ?p = [] \<longrightarrow> sl_pingSendQueue ?p = []) \<and>
      (\<exists>new. sl_pingReplyList ?p = sl_pingReplyList ?t @ new \<and> (\<forall>r\<in>set new. rec_timestamp r = now))"
    using fill_loop_effect [of ?t now scm] by (simp add: polled_def latency_work_def Let_def)
  then have "same_rest s (fill_loop now scm ?t)" using rest same_rest_trans by blast
  then show same: "same_rest s ?p" by (simp add: polled_def same_rest_def)
  show "latency_mid ?p" using f w rest assms same by (auto simp: latency_mid_def same_rest_def)
  show "sl_pingReplyList ?p = [] \<Longrightarrow> sl_pingSendQueue ?p = []" using f by blast
  show "latency_work ?p \<le> latency_work s" using f w rest by (simp add: latency_work_def)
  show "sl_pingReplyList s = r # rest \<Longrightarrow> expired now r \<Longrightarrow> latency_work ?p < latency_work s"
    using f w rest by (simp add: latency_work_def)
  show "\<forall>r\<in>set (sl_pingReplyList s). expired now r \<Longrightarrow> \<forall>r\<in>set (sl_pingReplyList ?p). rec_timestamp r = now"
    using f timeout_loop_fresh [of s "sl_pingReplyList s" "[]" now scm] by auto
qed

lemma maybeSendPings_inv:
  assumes "latency_mid s" "sl_pingSender s = None \<longrightarrow> latency_inv s" "maybeSendPings now scm s = Inr s'"
  shows "latency_inv s'"
proof (cases "sl_pingSender s = None")
  case True
  then show ?thesis using assms by (simp add: maybeSendPings_def)
next
  case False
  note p = polled_effect [OF assms(1), where now = now and scm = scm]
  have "sl_pingSender (polled now scm s) \<noteq> None" using p(1) False by (simp add: same_rest_def)
  then show ?thesis
    using assms(3) p(2) latency_stop_inv [of "polled now scm s"] unfolding maybeSendPings_polled [OF False]
    by (auto simp: latency_inv_def latency_mid_def split: list.splits dest!: fbind_InrD)
qed

text \<open>Cooldowns and requests do not touch the measurement.\<close>

lemma latency_inv_frame [simp]:
  "latency_inv (s\<lparr>sl_cooldown := c\<rparr>) = latency_inv s" "latency_inv (s\<lparr>sl_cooldownTimer := t\<rparr>) = latency_inv s"
  "latency_inv (s\<lparr>sl_wantRefresh := w\<rparr>) = latency_inv s" "latency_inv (s\<lparr>sl_refreshTimer := t\<rparr>) = latency_inv s"
  by (simp_all add: latency_inv_def latency_mid_def)

lemma queue_insert_only: "latency_inv s \<Longrightarrow> sl_pingSender s = None \<Longrightarrow> sl_pingReplyList s = [] \<and> sl_pingSendQueue s = []"
  by (simp add: latency_inv_def)

lemma latency_clear_inv: "latency_inv s \<Longrightarrow> latency_inv (latency_clear s)"
  by (simp add: latency_clear_def emit_progress_def latency_inv_def latency_mid_def hash_ok_def)

lemma latency_start_inv:
  assumes inv: "latency_inv s" and start: "latency_start E scm s = Inr s'"
  shows "latency_inv s'"
proof -
  consider "\<not> le_supported E" | "le_supported E" "\<not> le_controllerOff E" | "le_supported E" "le_controllerOff E" "sl_pingSender s \<noteq> None"
    | "le_supported E" "le_controllerOff E" "sl_pingSender s = None"
    by blast
  then show ?thesis
  proof cases
    case 4
    let ?s = "s\<lparr>sl_sequence := 0, sl_wantRefresh := False, sl_hasIPv4Connectivity := le_hasIPv4 E,
                  sl_pingSender := Some (if le_factoryValid E then FactorySender else TcpSender)\<rparr>"
    obtain queue where m: "maybeSendPings (le_now E) scm
        ((emit_progress (?s\<lparr>sl_pingSendQueue := queue, sl_pingSendTotal := length queue, sl_progressDelayTimer := False\<rparr>))\<lparr>sl_refreshTimer := None\<rparr>) = Inr s'"
      using start 4 by (auto simp: latency_start_def Let_def dest!: fbind_InrD)
    show ?thesis
      by (rule maybeSendPings_inv [OF _ _ m])
         (use inv queue_insert_only [OF inv 4(3)] in \<open>simp_all add: latency_inv_def latency_mid_def emit_progress_def retries_ok_def\<close>)
  qed (use inv start in \<open>auto simp: latency_start_def latency_clear_inv\<close>)
qed

lemma sum_list_update:
  "hash_ok h \<Longrightarrow> sum_list (map snd (AList.update k v h)) = sum_list (map snd h) - hash_value h k + v"
  by (induction h) (auto simp: hash_ok_def hash_value_def)

lemma hash_ok_update: "hash_ok h \<Longrightarrow> hash_ok (AList.update k v h)"
  by (simp add: hash_ok_def distinct_update)

lemma fst_updateConnectionScore [simp]: "fst (updateConnectionScore now u k st) = fst st"
  by (simp add: updateConnectionScore_def Let_def split: prod.split)

lemma setLatency_fst:
  "fst (setLatency now u k v (s, scm)) = s\<lparr>sl_sumLatencyMsec := sl_sumLatencyMsec s - hash_value (sl_latency s) k + v,
     sl_latency := AList.update k v (sl_latency s)\<rparr>"
  by (simp add: setLatency_def)

lemma setLatency_mid: "latency_mid s \<Longrightarrow> latency_mid (fst (setLatency now u k v (s, scm)))"
  by (simp add: setLatency_fst latency_mid_def hash_ok_update sum_list_update)

lemma latency_recvPing_inv:
  assumes inv: "latency_inv s" and recv: "latency_recvPing E seq (s, scm) = Inr (s', scm')"
  shows "latency_inv s'"
proof -
  let ?i = "length (takeWhile (\<lambda>r. rec_sequence r \<noteq> seq) (sl_pingReplyList s))"
  show ?thesis
  proof (cases "?i = length (sl_pingReplyList s)")
    case True
    then show ?thesis using assms by (simp add: latency_recvPing_def Let_def)
  next
    case False
    let ?r = "sl_pingReplyList s ! ?i"
    define u where "u = fst (if le_now E - rec_timestamp ?r \<le> 2^32 - 1
        then setLatency (le_now E div 1000) (l_countryCode (le_location E)) (rec_publicKey ?r) (le_now E - rec_timestamp ?r) (s, scm)
        else (s, scm))"
    have u: "latency_mid u" "sl_pingReplyList u = sl_pingReplyList s" "sl_pingSender u = sl_pingSender s"
      using inv setLatency_mid [of s] by (simp_all add: u_def latency_inv_def setLatency_fst)
    have "sl_pingSender s \<noteq> None" using inv False by (auto simp: latency_inv_def)
    obtain scm2 where m: "maybeSendPings (le_now E) scm2 (u\<lparr>sl_pingReplyList := removeAt ?i (sl_pingReplyList u)\<rparr>) = Inr s'"
      using recv False unfolding latency_recvPing_def Let_def u_def by (auto split: prod.splits dest!: fbind_InrD)
    have "latency_mid (u\<lparr>sl_pingReplyList := removeAt ?i (sl_pingReplyList u)\<rparr>)"
      using u set_removeAt [of ?i "sl_pingReplyList s"] length_removeAt [of ?i "sl_pingReplyList s"] by (auto simp: latency_mid_def retries_ok_def)
    then show ?thesis
      using maybeSendPings_inv [OF _ _ m] u(3) \<open>sl_pingSender s \<noteq> None\<close> by simp
  qed
qed

text \<open>Every call and every slot, with any environment; the server list may be loaded anew at any time.\<close>

inductive latency_step :: "latency_state \<Rightarrow> latency_state \<Rightarrow> bool" where
  step_start: "latency_start E scm s = Inr s' \<Longrightarrow> latency_step (s, scm) (s', scm)"
| step_refresh: "latency_refresh E scm s = Inr s' \<Longrightarrow> latency_step (s, scm) (s', scm)"
| step_state: "latency_stateChanged E scm s = Inr s' \<Longrightarrow> latency_step (s, scm) (s', scm)"
| step_poll: "maybeSendPings now scm s = Inr s' \<Longrightarrow> latency_step (s, scm) (s', scm)"
| step_recv: "latency_recvPing E seq (s, scm) = Inr st \<Longrightarrow> latency_step (s, scm) st"
| step_cooldown: "latency_step (s, scm) (setCooldown now u k timeout (s, scm))"
| step_city_cooldown: "latency_step (s, scm) (setCityCooldown now cities country code timeout (s, scm))"
| step_clear: "latency_step (s, scm) (clearCooldowns now u (s, scm))"
| step_refresh_timer: "refreshTimeout E scm s = Inr s' \<Longrightarrow> latency_step (s, scm) (s', scm)"
| step_progress_timer: "latency_step (s, scm) (progressTimeout s, scm)"
| step_stop: "latency_step (s, scm) (latency_stop s, scm)"
| step_servers: "latency_step (s, scm) (s, scm')"

definition latency_init :: "latency_state \<Rightarrow> bool" where
  "latency_init st \<longleftrightarrow> (\<exists>supported. fst st = latency_initialize supported newServerLatency)"

lemma schedule_cooldown_inv: "latency_inv (schedule_cooldown timeout s) = latency_inv s"
  by (simp add: schedule_cooldown_def Let_def)

lemma clear_loop_inv: "clear_loop now u ks n (s, scm) = (n', s', scm') \<Longrightarrow> latency_inv s' = latency_inv s"
proof (induction ks arbitrary: n s scm)
  case (Cons k ks)
  obtain scm2 where "updateConnectionScore now u k (s\<lparr>sl_cooldown := AList.delete k (sl_cooldown s)\<rparr>, scm) =
      (s\<lparr>sl_cooldown := AList.delete k (sl_cooldown s)\<rparr>, scm2)"
    by (simp add: updateConnectionScore_def Let_def)
  then show ?case using Cons by (auto simp: Let_def split: if_splits)
qed simp

lemma latency_stop_keeps: "latency_inv s \<Longrightarrow> latency_inv (latency_stop s)"
  by (rule latency_stop_inv) (simp_all add: latency_inv_def latency_mid_def)

lemma latency_step_inv:
  assumes inv: "latency_inv (fst s)" and step: "latency_step s t"
  shows "latency_inv (fst t)"
  using step
proof cases
  case (step_recv E seq s scm)
  then show ?thesis using inv latency_recvPing_inv [of s E seq scm "fst t" "snd t"] by simp
next
  case (step_poll now scm s s')
  then show ?thesis using inv maybeSendPings_inv [of s now scm s'] by (simp add: latency_inv_def)
next
  case (step_state E scm s s')
  then show ?thesis
    using inv latency_stop_keeps [of s] latency_start_inv [of s E scm s'] by (auto simp: latency_stateChanged_def split: if_splits)
next
  case (step_start E scm s s')
  then show ?thesis using inv latency_start_inv [of s E scm s'] by simp
next
  case (step_refresh E scm s s')
  then show ?thesis
    using inv latency_start_inv [OF latency_clear_inv, of s E scm s'] by (auto simp: latency_refresh_def split: if_splits)
next
  case (step_refresh_timer E scm s s')
  then show ?thesis using inv latency_start_inv [of "s\<lparr>sl_refreshTimer := None\<rparr>" E scm s'] by (simp add: refreshTimeout_def)
next
  case (step_progress_timer s scm)
  then show ?thesis using inv by (simp add: progressTimeout_def emit_progress_def latency_inv_def latency_mid_def)
next
  case (step_clear s scm now u)
  obtain n s1 scm1 where c: "clear_loop now u (map fst (sl_cooldown s)) 0 (s\<lparr>sl_cooldownTimer := None\<rparr>, scm) = (n, s1, scm1)"
    by (metis prod_cases3)
  then show ?thesis using step_clear inv clear_loop_inv [OF c] by (simp add: clearCooldowns_def)
qed (use inv in \<open>auto simp: setCooldown_def setCityCooldown_def Let_def latency_stop_keeps
      updateConnectionScore_def schedule_cooldown_inv split: prod.splits\<close>)

lemma newServerLatency_inv: "latency_inv newServerLatency"
  by (simp add: newServerLatency_def latency_inv_def latency_mid_def retries_ok_def hash_ok_def)

interpretation latency: invariant_system latency_init latency_step "\<lambda>st. latency_inv (fst st)"
proof
  show "latency_init s \<Longrightarrow> latency_inv (fst s)" for s
    by (auto simp: latency_init_def latency_initialize_def newServerLatency_inv)
qed (fact latency_step_inv)

subsection \<open>Polling without answers\<close>

fun poll_run :: "ServerCountryModel \<Rightarrow> int list \<Rightarrow> ServerLatency \<Rightarrow> fault + ServerLatency" where
  "poll_run scm [] s = Inr s"
| "poll_run scm (t # ts) s = fbind (maybeSendPings t scm s) (poll_run scm ts)"

text \<open>Times at which the timer of the first ping in flight has run out again.\<close>

fun spaced :: "int \<Rightarrow> int list \<Rightarrow> bool" where
  "spaced t [] = True"
| "spaced t (t' # ts) = (t + SERVER_LATENCY_TIMEOUT \<le> t' \<and> spaced t' ts)"

lemma pingDelay_now: "pingDelay now now = Inr SERVER_LATENCY_TIMEOUT"
  by (simp add: pingDelay_def SERVER_LATENCY_TIMEOUT_def)

lemma poll_progress:
  assumes inv: "latency_inv s" and run: "sl_pingSender s \<noteq> None" and old: "\<forall>r\<in>set (sl_pingReplyList s). expired now r"
  shows "\<exists>s'. maybeSendPings now scm s = Inr s' \<and> latency_inv s' \<and>
    (sl_pingSender s' = None \<and> sl_refreshTimer s' \<noteq> None \<or>
     sl_pingSender s' \<noteq> None \<and> latency_work s' < latency_work s \<and> (\<forall>r\<in>set (sl_pingReplyList s'). rec_timestamp r = now))"
proof -
  have mid: "latency_mid s" using inv by (simp add: latency_inv_def)
  note p = polled_effect [OF mid, where now = now and scm = scm]
  obtain r rest where s: "sl_pingReplyList s = r # rest"
    using inv run by (cases "sl_pingReplyList s") (auto simp: latency_inv_def)
  have "\<exists>s'. maybeSendPings now scm s = Inr s' \<and>
    (sl_pingSender s' = None \<and> sl_refreshTimer s' \<noteq> None \<or>
     sl_pingSender s' \<noteq> None \<and> latency_work s' < latency_work s \<and> (\<forall>r\<in>set (sl_pingReplyList s'). rec_timestamp r = now))"
  proof (cases "sl_pingReplyList (polled now scm s)")
    case Nil
    then show ?thesis
      using maybeSendPings_polled [OF run, of now scm] latency_stop_simps [of "polled now scm s"] by fastforce
  next
    case (Cons q qs)
    moreover have "rec_timestamp q = now" using p(6) [OF old] Cons by simp
    ultimately have "maybeSendPings now scm s = Inr ((polled now scm s)\<lparr>sl_pingTimeout := Some SERVER_LATENCY_TIMEOUT\<rparr>)"
      using maybeSendPings_polled [OF run, of now scm] by (simp add: pingDelay_now)
    moreover have "expired now r" using old s by simp
    moreover have "sl_pingSender (polled now scm s) \<noteq> None" using p(1) run by (simp add: same_rest_def)
    ultimately show ?thesis
      using p(5) [OF s] p(6) [OF old] by (simp add: latency_work_def)
  qed
  then obtain s' where s': "maybeSendPings now scm s = Inr s'"
    and "sl_pingSender s' = None \<and> sl_refreshTimer s' \<noteq> None \<or>
     sl_pingSender s' \<noteq> None \<and> latency_work s' < latency_work s \<and> (\<forall>r\<in>set (sl_pingReplyList s'). rec_timestamp r = now)"
    by blast
  moreover have "latency_inv s'" by (rule maybeSendPings_inv [OF mid _ s']) (use run in blast)
  ultimately show ?thesis by blast
qed

lemma poll_run_stopped: "sl_pingSender s = None \<Longrightarrow> poll_run scm ts s = Inr s"
  by (induction ts) (simp_all add: maybeSendPings_def)

lemma poll_run_ends:
  "latency_inv s \<Longrightarrow> sl_pingSender s \<noteq> None \<Longrightarrow> \<forall>r\<in>set (sl_pingReplyList s). rec_timestamp r \<le> t \<Longrightarrow>
     spaced t ts \<Longrightarrow> latency_work s \<le> length ts \<Longrightarrow>
     \<exists>s'. poll_run scm ts s = Inr s' \<and> sl_pingSender s' = None \<and> sl_refreshTimer s' \<noteq> None"
proof (induction ts arbitrary: s t)
  case Nil
  then obtain r rest where "sl_pingReplyList s = r # rest" by (cases "sl_pingReplyList s") (auto simp: latency_inv_def)
  then show ?case using Nil by (auto simp: latency_work_def latency_inv_def latency_mid_def retries_ok_def SERVER_LATENCY_MAX_RETRIES_def)
next
  case (Cons t' ts)
  have "\<forall>r\<in>set (sl_pingReplyList s). expired t' r" using Cons.prems by (auto simp: expired_def)
  then obtain s' where s': "maybeSendPings t' scm s = Inr s'" "latency_inv s'"
    and cases: "sl_pingSender s' = None \<and> sl_refreshTimer s' \<noteq> None \<or>
      sl_pingSender s' \<noteq> None \<and> latency_work s' < latency_work s \<and> (\<forall>r\<in>set (sl_pingReplyList s'). rec_timestamp r = t')"
    using poll_progress [OF Cons.prems(1,2)] by blast
  show ?case
  proof (cases "sl_pingSender s' = None")
    case True
    then show ?thesis using cases s' by (auto simp: poll_run_stopped)
  next
    case False
    then show ?thesis using Cons.IH [of s' t'] s' cases Cons.prems by auto
  qed
qed

subsection \<open>Cooldowns and server lists\<close>

lemma hash_value_update: "hash_value (AList.update k v h) k' = (if k' = k then v else hash_value h k')"
  by (simp add: hash_value_def update_conv')

lemma hash_value_delete: "hash_value (AList.delete k h) k' = (if k' = k then 0 else hash_value h k')"
  by (simp add: hash_value_def delete_conv')

lemma fold_update_value:
  "hash_value (fold (\<lambda>k. AList.update k e) ks h) k' = (if k' \<in> set ks then e else hash_value h k')"
  by (induction ks arbitrary: h) (simp_all add: hash_value_update)

lemma cooldown_cities_value:
  "hash_value (snd (cooldown_cities country code e cities (name, cd))) k =
     (if \<exists>c\<in>set cities. city_country c = country \<and> city_code c = code \<and> k \<in> set (city_servers c) then e else hash_value cd k)"
  by (induction cities arbitrary: name cd) (auto simp: fold_update_value)

lemma sl_getCooldown_city:
  "sl_getCooldown (fst (setCityCooldown now cities country code timeout (s, scm))) k =
     (if \<exists>c\<in>set cities. city_country c = country \<and> city_code c = code \<and> k \<in> set (city_servers c) then now + timeout
      else sl_getCooldown s k)"
  using cooldown_cities_value [of country code "now + timeout" cities "[]" "sl_cooldown s" k]
  by (auto simp: setCityCooldown_def sl_getCooldown_def schedule_cooldown_def Let_def split: prod.splits)

lemma active_count_eq: "active_count s now ks = length (filter (\<lambda>k. sl_getCooldown s k \<le> now) ks)"
proof -
  have "fold (\<lambda>k n. if sl_getCooldown s k \<le> now then n + 1 else n) ks n = n + length (filter (\<lambda>k. sl_getCooldown s k \<le> now) ks)" for n
    by (induction ks arbitrary: n) simp_all
  then show ?thesis by (simp add: active_count_def)
qed

lemma baseCityScore_eq:
  "baseCityScore s now city origin =
     (let n = length (filter (\<lambda>k. sl_getCooldown s k \<le> now) (city_servers city)) in
      if n = 0 then -1
      else 1 + (if n \<ge> 3 then 1 else 0) + (if origin \<noteq> [] \<and> toLower origin = toLower (city_country city) then 1 else 0))"
  by (simp add: baseCityScore_def active_count_eq Let_def score_defs SCORE_SERVER_REDUNDANCY_THRESHOLD_def)

lemma baseCityScore_unavailable:
  "baseCityScore s now city origin = Unavailable \<longleftrightarrow> (\<forall>k\<in>set (city_servers city). sl_getCooldown s k > now)"
  "baseCityScore s now city origin \<noteq> Unavailable \<Longrightarrow> Poor \<le> baseCityScore s now city origin \<and> baseCityScore s now city origin \<le> Good"
proof -
  have none: "filter (\<lambda>k. sl_getCooldown s k \<le> now) (city_servers city) = [] \<longleftrightarrow> (\<forall>k\<in>set (city_servers city). sl_getCooldown s k > now)"
    by (auto simp: filter_empty_conv not_le)
  show "baseCityScore s now city origin = Unavailable \<longleftrightarrow> (\<forall>k\<in>set (city_servers city). sl_getCooldown s k > now)"
    unfolding none [symmetric] baseCityScore_eq Let_def score_defs by simp
  show "baseCityScore s now city origin \<noteq> Unavailable \<Longrightarrow> Poor \<le> baseCityScore s now city origin \<and> baseCityScore s now city origin \<le> Good"
    unfolding baseCityScore_eq Let_def score_defs by (simp split: if_split_asm)
qed

lemma scores_in_range:
  "updatedScore s now city origin \<in> {Unavailable, Poor, Moderate, Good, Excellent}"
  "multiHopScore s scm now a b c d \<in> {Unavailable, NoData, Poor, Moderate, Good, Excellent}"
proof -
  have base: "baseCityScore s now city origin \<in> {-1, 1, 2, 3}" for city origin
    using baseCityScore_unavailable(2) [of s now city origin] by (auto simp: score_defs)
  show "updatedScore s now city origin \<in> {Unavailable, Poor, Moderate, Good, Excellent}"
    using base [of city origin] by (auto simp: updatedScore_def Let_def score_defs)
  show "multiHopScore s scm now a b c d \<in> {Unavailable, NoData, Poor, Moderate, Good, Excellent}"
    using base [of "findCity scm a b" c] by (auto simp: multiHopScore_def Let_def score_defs)
qed

lemma update_city_servers:
  "(\<And>c. city_servers (f c) = city_servers c) \<Longrightarrow> city_servers (findCity (update_city a b f scm) x y) = city_servers (findCity scm x y)"
  "m_servers (update_city a b f scm) = m_servers scm"
  by (auto simp: update_city_def findCity_def split: option.split)

lemma setCityCooldown_scm:
  "m_servers (snd (setCityCooldown now cities country code timeout (s, scm))) = m_servers scm"
  "city_servers (findCity (snd (setCityCooldown now cities country code timeout (s, scm))) x y) = city_servers (findCity scm x y)"
  by (auto simp: setCityCooldown_def Let_def update_city_servers split: prod.splits)

lemma clear_loop_cooldown:
  "sl_getCooldown (fst (snd (clear_loop now u ks n (s, scm)))) k =
     (if k \<in> set ks \<and> sl_getCooldown s k \<le> now then 0 else sl_getCooldown s k)"
proof (induction ks arbitrary: n s scm)
  case (Cons k' ks)
  obtain scm2 where "updateConnectionScore now u k' (s\<lparr>sl_cooldown := AList.delete k' (sl_cooldown s)\<rparr>, scm) =
      (s\<lparr>sl_cooldown := AList.delete k' (sl_cooldown s)\<rparr>, scm2)"
    by (simp add: updateConnectionScore_def Let_def)
  moreover have "sl_getCooldown (s\<lparr>sl_cooldown := AList.delete k' (sl_cooldown s)\<rparr>) k = (if k = k' then 0 else sl_getCooldown s k)"
    by (simp add: sl_getCooldown_def hash_value_delete)
  ultimately show ?case
    using Cons by (auto simp: Let_def sl_getCooldown_def)
qed simp

lemma clearCooldowns_value:
  "sl_getCooldown (fst (clearCooldowns now u (s, scm))) k = (if sl_getCooldown s k \<le> now then 0 else sl_getCooldown s k)"
proof -
  let ?c = "clear_loop now u (map fst (sl_cooldown s)) 0 (s\<lparr>sl_cooldownTimer := None\<rparr>, scm)"
  have "sl_getCooldown (fst (clearCooldowns now u (s, scm))) k = sl_getCooldown (fst (snd ?c)) k"
    by (auto simp: clearCooldowns_def sl_getCooldown_def split: prod.split)
  moreover have "sl_getCooldown (s\<lparr>sl_cooldownTimer := None\<rparr>) k = sl_getCooldown s k" by (simp add: sl_getCooldown_def)
  moreover have "k \<notin> fst ` set (sl_cooldown s) \<Longrightarrow> sl_getCooldown s k = 0"
    by (simp add: sl_getCooldown_def hash_value_def map_of_eq_None_iff [THEN iffD2])
  ultimately show ?thesis
    using clear_loop_cooldown [of now u "map fst (sl_cooldown s)" 0 "s\<lparr>sl_cooldownTimer := None\<rparr>" scm k] by auto
qed

subsection \<open>Properties\<close>

text \<open>
  C28. A measurement is bounded in every reachable state: at most eight pings are in flight, none is
  repeated more than twice, the shown progress lies between zero and one, a measurement is running
  exactly while pings are in flight and the timer that polls them is armed, and the sum from
  which the average is taken is the sum of the recorded latencies.
\<close>

theorem latency_measurement_bounded:
  assumes "reachable latency_init latency_step (s, scm)"
  shows "length (sl_pingReplyList s) \<le> 8 \<and> (\<forall>r\<in>set (sl_pingReplyList s). rec_retries r \<le> 2) \<and>
    0 \<le> latency_progress s \<and> latency_progress s \<le> 1 \<and>
    (latency_phase_of s = Loading \<longleftrightarrow> sl_pingReplyList s \<noteq> []) \<and> (latency_phase_of s = Loading \<longleftrightarrow> sl_pingTimeout s \<noteq> None) \<and>
    sl_sumLatencyMsec s = sum_list (map snd (sl_latency s))"
proof -
  have inv: "latency_inv s" using latency.reachable_inv [OF assms] by simp
  then have "length (sl_pingReplyList s) + length (sl_pingSendQueue s) \<le> sl_pingSendTotal s"
    by (simp add: latency_inv_def latency_mid_def)
  then have "(of_nat (length (sl_pingReplyList s) + length (sl_pingSendQueue s)) :: rat) \<le> of_nat (sl_pingSendTotal s)"
    by (simp only: of_nat_le_iff)
  then have "0 \<le> latency_progress s" "latency_progress s \<le> 1"
    by (auto simp: latency_progress_def divide_le_eq)
  moreover have "latency_phase_of s = Loading \<longleftrightarrow> sl_pingSender s \<noteq> None"
    by (auto simp: latency_phase_of_def)
  ultimately show ?thesis
    using inv unfolding latency_inv_def latency_mid_def retries_ok_def SERVER_LATENCY_MAX_PARALLEL_def SERVER_LATENCY_MAX_RETRIES_def
    by (cases "sl_pingSender s") auto
qed

theorem latency_measurement_bounded_witness: "length (sl_pingReplyList (latency_stop newServerLatency)) \<le> 8"
proof -
  have "reachable latency_init latency_step (newServerLatency, emptyModel)"
    by (rule reach_init) (auto simp: latency_init_def latency_initialize_def intro: exI [of _ False])
  from reach_step [OF this step_stop] show ?thesis
    using latency_measurement_bounded by blast
qed

text \<open>
  C21. A measurement ends even if no server answers: in every reachable state with a
  measurement, polling at times that are a ping timeout apart, three times for every server of the
  measurement, runs without a fault, closes the ping sender and schedules the next measurement.
\<close>

theorem latency_measurement_ends:
  assumes "reachable latency_init latency_step (s, scm)" "latency_phase_of s = Loading"
    and "\<forall>r\<in>set (sl_pingReplyList s). rec_timestamp r \<le> t" "spaced t ts" "3 * sl_pingSendTotal s \<le> length ts"
  shows "\<exists>s'. poll_run scm' ts s = Inr s' \<and> latency_phase_of s' \<noteq> Loading \<and> sl_refreshTimer s' \<noteq> None"
proof -
  have inv: "latency_inv s" using latency.reachable_inv [OF assms(1)] by simp
  have run: "sl_pingSender s \<noteq> None" using assms(2) by (auto simp: latency_phase_of_def split: if_splits)
  have "length (sl_pingReplyList s) + length (sl_pingSendQueue s) \<le> sl_pingSendTotal s"
    using inv by (simp add: latency_inv_def latency_mid_def)
  then have "latency_work s \<le> length ts"
    using assms(5) reply_work_le [of "sl_pingReplyList s"] by (simp add: latency_work_def)
  then obtain s' where "poll_run scm' ts s = Inr s'" "sl_pingSender s' = None" "sl_refreshTimer s' \<noteq> None"
    using poll_run_ends [OF inv run assms(3,4)] by blast
  then show ?thesis by (auto simp: latency_phase_of_def)
qed

text \<open>
  C26. A city on cooldown is not used until the cooldown is over.  After \<open>setCityCooldown\<close> for a
  city of the list, no server of it is offered and its base score is unavailable at every time before
  the expiry; from the expiry on all its initialised servers are offered, in their
  order; and expired cooldowns are cleared without a change of any other.
\<close>

theorem city_cooldown_excludes:
  assumes city: "m_cities scm (hashKey country name) = Some city" "city_country city = country" "city_code city = code" "city \<in> set cities"
    and result: "setCityCooldown now cities country code timeout (s, scm) = (s', scm')"
  shows "(\<forall>t. t < now + timeout \<longrightarrow> getServerList scm' (sl_getCooldown s') t country name = [] \<and>
       baseCityScore s' t (findCity scm' country name) origin = Unavailable) \<and>
    (\<forall>t\<ge>now + timeout. getServerList scm' (sl_getCooldown s') t country name =
       map (model_server scm) (filter (\<lambda>k. server_initialized (model_server scm k)) (city_servers city))) \<and>
    (\<forall>t k. sl_getCooldown (fst (clearCooldowns t user (s', scm'))) k = (if sl_getCooldown s' k \<le> t then 0 else sl_getCooldown s' k))"
proof -
  have cd: "sl_getCooldown s' k = now + timeout" if "k \<in> set (city_servers city)" for k
    using sl_getCooldown_city [of now cities country code timeout s scm k] result city that by auto
  have servers: "city_servers (findCity scm' country name) = city_servers city"
    using setCityCooldown_scm(2) [of now cities country code timeout s scm country name] result city(1) by (simp add: findCity_def)
  have model: "model_server scm' = model_server scm"
    using setCityCooldown_scm(1) [of now cities country code timeout s scm] result by (simp add: model_server_def fun_eq_iff)
  have list: "getServerList scm' (sl_getCooldown s') t country name =
      map (model_server scm) (filter (\<lambda>k. server_initialized (model_server scm k) \<and> now + timeout \<le> t) (city_servers city))" for t
    using cd by (auto simp: getServerList_def server_list_loop_eq servers model intro!: arg_cong [where f = "map (model_server scm)"] filter_cong)
  have "getServerList scm' (sl_getCooldown s') t country name = []" if "t < now + timeout" for t
    using list [of t] that by (simp add: not_le [symmetric])
  moreover have "baseCityScore s' t (findCity scm' country name) origin = Unavailable" if "t < now + timeout" for t
    using baseCityScore_unavailable(1) [of s' t "findCity scm' country name" origin] cd servers that by simp
  ultimately show ?thesis
    using list clearCooldowns_value by simp
qed

text \<open>A list with one server, and its measurement.\<close>

definition latencyCity :: ServerCity where
  "latencyCity = emptyCity\<lparr>city_name := ''Malmo'', city_code := ''mma'', city_country := ''se'', city_servers := [''k1'']\<rparr>"

definition latencyModel :: ServerCountryModel where
  "latencyModel = emptyModel\<lparr>m_countries := [\<lparr>country_name = ''Sweden'', country_code = ''se'', country_cities = [''Malmo'']\<rparr>],
     m_cities := [hashKey ''se'' ''Malmo'' \<mapsto> latencyCity]\<rparr>"

definition latencyEnv :: latency_env where
  "latencyEnv = \<lparr>le_now = 1000, le_supported = True, le_controllerOff = True, le_hasIPv4 = True, le_factoryValid = True,
     le_location = \<lparr>l_countryCode = ''se'', l_latitude = None, l_longitude = None\<rparr>\<rparr>"

lemma latencyModel_queue:
  "\<exists>r. queue_countries (le_location latencyEnv) latencyModel (m_countries latencyModel) [] = Inr [r]"
  by (simp add: latencyModel_def latencyCity_def findCity_def insert_city_def emptyCity_def Let_def)

lemma polled_one:
  assumes "sl_pingReplyList s = []" "sl_pingSendQueue s = [r]"
  shows "map rec_timestamp (sl_pingReplyList (polled now scm s)) = [now]"
proof -
  have "timeout_loop now scm s = s" using assms by (subst timeout_loop.simps) simp
  moreover have "map rec_timestamp (sl_pingReplyList (fill_loop now scm s)) = [now]"
    using assms by (subst fill_loop.simps, subst fill_loop.simps) (simp add: SERVER_LATENCY_MAX_PARALLEL_def send_record_def Let_def)
  ultimately show ?thesis by (simp add: polled_def)
qed

lemma latencyModel_measured:
  "\<exists>s. latency_start latencyEnv latencyModel newServerLatency = Inr s \<and> latency_phase_of s = Loading \<and>
     sl_pingSendTotal s = 1 \<and> map rec_timestamp (sl_pingReplyList s) = [1000]"
proof -
  obtain r where q: "queue_countries (le_location latencyEnv) latencyModel (m_countries latencyModel) [] = Inr [r]"
    using latencyModel_queue by blast
  define s where "s = (emit_progress (newServerLatency\<lparr>sl_sequence := 0, sl_wantRefresh := False, sl_hasIPv4Connectivity := True,
      sl_pingSender := Some FactorySender, sl_pingSendQueue := [r], sl_pingSendTotal := 1, sl_progressDelayTimer := False\<rparr>))
      \<lparr>sl_refreshTimer := None\<rparr>"
  have start: "latency_start latencyEnv latencyModel newServerLatency = maybeSendPings 1000 latencyModel s"
    using q by (simp add: latency_start_def latencyEnv_def s_def newServerLatency_def Let_def)
  have s: "sl_pingReplyList s = []" "sl_pingSendQueue s = [r]" "sl_pingSender s \<noteq> None" "sl_pingSendTotal s = 1"
    by (simp_all add: s_def emit_progress_def newServerLatency_def)
  have mid: "latency_mid s" by (simp add: s_def emit_progress_def newServerLatency_def latency_mid_def retries_ok_def hash_ok_def)
  note p = polled_one [OF s(1,2), of 1000 latencyModel] polled_effect(1) [OF mid, of 1000 latencyModel]
  then show ?thesis
    unfolding start maybeSendPings_polled [OF s(3)] using s(3,4)
    by (auto simp: same_rest_def latency_phase_of_def pingDelay_now map_eq_Cons_conv)
qed

theorem latency_measurement_ends_witness:
  "\<exists>s s'. latency_start latencyEnv latencyModel newServerLatency = Inr s \<and>
     poll_run latencyModel [6000, 11000, 16000] s = Inr s' \<and> latency_phase_of s' \<noteq> Loading"
proof -
  obtain s where s: "latency_start latencyEnv latencyModel newServerLatency = Inr s" "latency_phase_of s = Loading"
      "sl_pingSendTotal s = 1" "map rec_timestamp (sl_pingReplyList s) = [1000]"
    using latencyModel_measured by (elim exE conjE)
  have "reachable latency_init latency_step (newServerLatency, latencyModel)"
    by (rule reach_init) (auto simp: latency_init_def latency_initialize_def intro: exI [of _ False])
  then have "reachable latency_init latency_step (s, latencyModel)"
    by (rule reach_step) (rule step_start [OF s(1)])
  moreover have "\<forall>r\<in>set (sl_pingReplyList s). rec_timestamp r \<le> 1000" using s(4) by auto
  ultimately show ?thesis
    using latency_measurement_ends [of s latencyModel 1000 "[6000, 11000, 16000]" latencyModel] s
    by (auto simp: SERVER_LATENCY_TIMEOUT_def)
qed

theorem city_cooldown_excludes_witness:
  "\<exists>s' scm'. setCityCooldown 100 [latencyCity] ''se'' ''mma'' 60 (newServerLatency, latencyModel) = (s', scm') \<and>
     getServerList scm' (sl_getCooldown s') 159 ''se'' ''Malmo'' = []"
proof -
  obtain s' scm' where r: "setCityCooldown 100 [latencyCity] ''se'' ''mma'' 60 (newServerLatency, latencyModel) = (s', scm')"
    by (metis surj_pair)
  have "m_cities latencyModel (hashKey ''se'' ''Malmo'') = Some latencyCity" "city_country latencyCity = ''se''"
      "city_code latencyCity = ''mma''" "latencyCity \<in> set [latencyCity]"
    by (simp_all add: latencyModel_def latencyCity_def)
  from city_cooldown_excludes [OF this r] have "getServerList scm' (sl_getCooldown s') 159 ''se'' ''Malmo'' = []" by simp
  with r show ?thesis by blast
qed

end
