(* ===== verification/Ping_Packets.thy ===== *)
theory Ping_Packets
  imports IP_Address
begin

text \<open>
  \<^verbatim>\<open>src/src/utils/pingsender/\<close> and \<^verbatim>\<open>src/src/platforms/linux/linuxpingsender.cpp\<close>: the packets
  of the ping senders.  The Internet checksum is shown to be the one's complement sum with
  end-around carries, an echo request is shown to be answered to the sequence number it was sent
  with, and the DNS sender is shown to count exactly the well-formed replies.  The host is little
  endian; what the sockets answer is an argument.
\<close>

unbundle bit_operations_syntax

subsection \<open>Byte order\<close>

text \<open>A 16 bit field in network order, and in the order of the host.\<close>

definition be16 :: "16 word \<Rightarrow> bytes" where
  "be16 w = [ucast (drop_bit 8 w), ucast w]"

definition le16 :: "16 word \<Rightarrow> bytes" where
  "le16 w = [ucast w, ucast (drop_bit 8 w)]"

definition word16 :: "8 word \<Rightarrow> 8 word \<Rightarrow> 16 word" where
  "word16 hi lo = push_bit 8 (ucast hi) OR ucast lo"

subsection \<open>The Internet checksum\<close>

definition nativeWord :: "8 word \<Rightarrow> 8 word \<Rightarrow> int" where
  "nativeWord a b = uint (word16 b a)"

definition int_add :: "int \<Rightarrow> int \<Rightarrow> fault + int" where
  "int_add a b = (if a + b < 2^31 then Inr (a + b) else Inl Integer_overflow)"

fun checksum_loop :: "int \<Rightarrow> bytes \<Rightarrow> fault + int" where
  "checksum_loop acc [] = Inr acc"
| "checksum_loop acc [w] = int_add acc (nativeWord w 0)"
| "checksum_loop acc (a # b # rest) = fbind (int_add acc (nativeWord a b)) (\<lambda>acc. checksum_loop acc rest)"

definition inetChecksum :: "bytes \<Rightarrow> fault + 16 word" where
  "inetChecksum data = fbind (checksum_loop 0 data) (\<lambda>sum.
     let sum = drop_bit 16 sum + (sum AND 0xffff);
         sum = sum + drop_bit 16 sum
     in Inr (word_of_int (NOT sum)))"

subsection \<open>ICMP on Linux\<close>

definition ICMP_ECHO :: "8 word" where "ICMP_ECHO = 8"
definition ICMP_ECHOREPLY :: "8 word" where "ICMP_ECHOREPLY = 0"
definition ICMP6_ECHO_REQUEST :: "8 word" where "ICMP6_ECHO_REQUEST = 128"
definition ICMP6_ECHO_REPLY :: "8 word" where "ICMP6_ECHO_REPLY = 129"

datatype notifier = NoNotifier | RawSocketReady | IcmpSocketReady | Icmp6SocketReady

record LinuxPingSender =
  m_notifier :: notifier
  m_socket :: int
  m_ident :: "16 word"

datatype errno = EPERM | EACCES | OtherErrno

text \<open>
  What the system answers: the descriptors of the datagram and of the raw socket, the error of the
  first call, the process identifier and whether \<open>bind\<close> succeeds.
\<close>

record socket_env =
  e_dgram :: int
  e_errno :: errno
  e_raw :: int
  e_pid :: int
  e_bind :: bool

definition createSocket :: "socket_env \<Rightarrow> LinuxPingSender \<Rightarrow> LinuxPingSender" where
  "createSocket E p =
     (if e_dgram E \<ge> 0 then p\<lparr>m_socket := e_dgram E, m_ident := 0\<rparr>
      else if e_errno E \<noteq> EPERM \<and> e_errno E \<noteq> EACCES then p\<lparr>m_socket := -1\<rparr>
      else if e_raw E < 0 then p\<lparr>m_socket := -1\<rparr>
      else p\<lparr>m_socket := e_raw E, m_ident := word_of_int (e_pid E AND 0xffff)\<rparr>)"

definition newLinuxPingSender :: "socket_env \<Rightarrow> QHostAddress \<Rightarrow> LinuxPingSender" where
  "newLinuxPingSender E source =
     (let p = createSocket E \<lparr>m_notifier = NoNotifier, m_socket = -1, m_ident = 0\<rparr> in
      if m_socket p < 0 then p
      else if \<not> e_bind E then p\<lparr>m_socket := -1\<rparr>
      else p\<lparr>m_notifier :=
        (if protocol source = IPv6Protocol then Icmp6SocketReady
         else if m_ident p \<noteq> 0 then RawSocketReady else IcmpSocketReady)\<rparr>)"

definition ping_isValid :: "LinuxPingSender \<Rightarrow> bool" where
  "ping_isValid p \<longleftrightarrow> m_socket p \<ge> 0"

text \<open>An echo header: type, code, checksum, identifier and sequence number.\<close>

definition echoHeader :: "8 word \<Rightarrow> bytes \<Rightarrow> 16 word \<Rightarrow> 16 word \<Rightarrow> bytes" where
  "echoHeader type checksum ident seq = [type, 0] @ checksum @ be16 ident @ be16 seq"

text \<open>The bytes handed to \<open>sendto\<close>.\<close>

definition linux_sendPing :: "LinuxPingSender \<Rightarrow> QHostAddress \<Rightarrow> 16 word \<Rightarrow> fault + bytes" where
  "linux_sendPing p dest seq =
     (if protocol dest = IPv6Protocol then Inr (echoHeader ICMP6_ECHO_REQUEST [0, 0] (m_ident p) seq)
      else fbind (inetChecksum (echoHeader ICMP_ECHO [0, 0] (m_ident p) seq)) (\<lambda>checksum.
        Inr (echoHeader ICMP_ECHO (le16 checksum) (m_ident p) seq)))"

text \<open>
  The readers: \<open>data\<close> is what \<open>recvfrom\<close> puts into the buffer of 2048 bytes, empty when it fails.
  The answer is the sequence number of the signal \<open>recvPing\<close>, if it is emitted.
\<close>

definition icmpSocketReady :: "bytes \<Rightarrow> 16 word option" where
  "icmpSocketReady data =
     (if length data \<ge> 8 \<and> data ! 0 = ICMP_ECHOREPLY then Some (word16 (data ! 6) (data ! 7)) else None)"

definition icmp6SocketReady :: "LinuxPingSender \<Rightarrow> bytes \<Rightarrow> 16 word option" where
  "icmp6SocketReady p data =
     (if length data \<ge> 8 \<and> data ! 0 = ICMP6_ECHO_REPLY \<and>
         (m_ident p = 0 \<or> word16 (data ! 4) (data ! 5) = m_ident p)
      then Some (word16 (data ! 6) (data ! 7)) else None)"

definition rawSocketReady :: "LinuxPingSender \<Rightarrow> bytes \<Rightarrow> fault + 16 word option" where
  "rawSocketReady p data =
     (if data = [] then Inr None
      else
        let iphdrlen = unat (data ! 0 AND 0x0f) * 4 in
        if length data < iphdrlen \<or> iphdrlen < 20 then Inr None
        else fbind (inetChecksum (drop iphdrlen data)) (\<lambda>checksum.
          if checksum \<noteq> 0 then Inr None
          else if length data \<ge> iphdrlen + 8 then
            let packet = drop iphdrlen data in
            Inr (if packet ! 0 = ICMP_ECHOREPLY \<and> word16 (packet ! 4) (packet ! 5) = m_ident p
                 then Some (word16 (packet ! 6) (packet ! 7)) else None)
          else Inr None))"

subsection \<open>DNS queries\<close>

definition DNS_FLAG_QR :: "16 word" where "DNS_FLAG_QR = 0x8000"
definition DNS_FLAG_OPCODE :: "16 word" where "DNS_FLAG_OPCODE = 0x7800"
definition DNS_FLAG_OPCODE_QUERY :: "16 word" where "DNS_FLAG_OPCODE_QUERY = 0"

definition dnsHeader :: "16 word \<Rightarrow> 16 word \<Rightarrow> 16 word \<Rightarrow> bytes" where
  "dnsHeader ident flags qdcount = be16 ident @ be16 flags @ be16 qdcount @ be16 0 @ be16 0 @ be16 0"

text \<open>The datagram for the port 53 of the destination, or \<open>None\<close> for the critical error.\<close>

definition dns_sendPing :: "bool \<Rightarrow> QHostAddress \<Rightarrow> 16 word \<Rightarrow> bytes option" where
  "dns_sendPing socketValid dest seq =
     (if dest = NullAddress \<or> \<not> socketValid then None
      else Some (dnsHeader seq DNS_FLAG_OPCODE_QUERY 1 @ [0x00, 0x00, 0x01, 0x00, 0x01]))"

text \<open>The pending datagrams, \<open>None\<close> for one that is not valid; the answer are the signals emitted.\<close>

fun dns_readData :: "bytes option list \<Rightarrow> 16 word list" where
  "dns_readData [] = []"
| "dns_readData (None # rest) = []"
| "dns_readData (Some payload # rest) =
     (if length payload < 12 then dns_readData rest
      else
        let flags = word16 (payload ! 2) (payload ! 3) in
        if flags AND DNS_FLAG_QR = 0 then dns_readData rest
        else if flags AND DNS_FLAG_OPCODE \<noteq> DNS_FLAG_OPCODE_QUERY then dns_readData rest
        else word16 (payload ! 0) (payload ! 1) # dns_readData rest)"


subsection \<open>Bytes and words\<close>

lemma word16_be16 [simp]: "word16 (ucast (drop_bit 8 w)) (ucast w) = w"
  by (rule bit_word_eqI) (auto simp: word16_def bit_simps)

lemma nativeWord_bounds: "0 \<le> nativeWord a b" "nativeWord a b \<le> 65535"
  using uint_lt2p [of "word16 b a"] by (simp_all add: nativeWord_def)

lemma nativeWord_le16: "nativeWord (ucast w) (ucast (drop_bit 8 w)) = uint (w :: 16 word)"
  by (simp add: nativeWord_def)

lemma nativeWord_0 [simp]: "nativeWord 0 0 = 0"
  by (simp add: nativeWord_def word16_def)

lemma length_echoHeader: "length c = 2 \<Longrightarrow> length (echoHeader t c i s) = 8"
  by (simp add: echoHeader_def be16_def)

subsection \<open>The checksum as a one's complement sum\<close>

fun packet_words :: "bytes \<Rightarrow> int list" where
  "packet_words [] = []"
| "packet_words [w] = [nativeWord w 0]"
| "packet_words (a # b # rest) = nativeWord a b # packet_words rest"

text \<open>RFC 1071: 16 bit addition whose carry is added back at the low end.\<close>

definition end_around_add :: "int \<Rightarrow> int \<Rightarrow> int" where
  "end_around_add a b = (if a + b > 0xffff then a + b - 0xffff else a + b)"

definition ones_complement_sum :: "bytes \<Rightarrow> int" where
  "ones_complement_sum data = foldl end_around_add 0 (packet_words data)"

definition reduce16 :: "int \<Rightarrow> int" where
  "reduce16 s = (if s = 0 then 0 else (s - 1) mod 65535 + 1)"

lemma packet_words_bounds: "w \<in> set (packet_words data) \<Longrightarrow> 0 \<le> w \<and> w \<le> 65535"
  by (induction data rule: packet_words.induct) (auto simp: nativeWord_bounds)

lemma packet_words_append: "even (length xs) \<Longrightarrow> packet_words (xs @ ys) = packet_words xs @ packet_words ys"
  by (induction xs rule: packet_words.induct) simp_all

lemma length_packet_words: "2 * length (packet_words data) \<le> length data + 1"
  by (induction data rule: packet_words.induct) simp_all

lemma sum_words_bounds:
  "(\<And>w. w \<in> set ws \<Longrightarrow> 0 \<le> w \<and> w \<le> (65535::int)) \<Longrightarrow> 0 \<le> sum_list ws \<and> sum_list ws \<le> 65535 * int (length ws)"
  by (induction ws) (force simp: distrib_left)+

lemma checksum_loop_sum:
  "0 \<le> acc \<Longrightarrow> acc + sum_list (packet_words data) < 2^31 \<Longrightarrow>
     checksum_loop acc data = Inr (acc + sum_list (packet_words data))"
proof (induction data arbitrary: acc rule: packet_words.induct)
  case (3 a b rest)
  have "0 \<le> sum_list (packet_words rest)" using sum_words_bounds packet_words_bounds by blast
  then have "acc + nativeWord a b < 2^31" using 3(3) by simp
  then show ?case
    using 3 nativeWord_bounds [of a b] by (simp add: int_add_def add.assoc)
qed (simp_all add: int_add_def)

lemma mod_above: "65535 \<le> x \<Longrightarrow> x < 131070 \<Longrightarrow> x mod 65535 = x - (65535::int)"
  using mod_pos_geq [of 65535 x] mod_pos_pos_trivial [of "x - 65535" 65535] by linarith

lemma reduce16_add: "0 \<le> s \<Longrightarrow> 0 \<le> w \<Longrightarrow> w \<le> 65535 \<Longrightarrow> end_around_add (reduce16 s) w = reduce16 (s + w)"
proof -
  assume a: "0 \<le> s" "0 \<le> w" "w \<le> 65535"
  show ?thesis
  proof (cases "s = 0")
    case True
    then show ?thesis using a by (auto simp: reduce16_def end_around_add_def)
  next
    case False
    define q r where "q = (s - 1) div 65535" and "r = (s - 1) mod 65535"
    have s: "s - 1 = 65535 * q + r" "0 \<le> r" "r < 65535" by (simp_all add: q_def r_def)
    have e: "s + w - 1 = (r + w) + q * 65535" using s(1) by simp
    have m: "(s + w - 1) mod 65535 = (r + w) mod 65535" unfolding e by simp
    have "(r + w) mod 65535 = (if r + w < 65535 then r + w else r + w - 65535)"
    proof (cases "r + w < 65535")
      case True then show ?thesis using s a by simp
    next
      case False
      then show ?thesis using s a mod_above [of "r + w"] by simp
    qed
    then have "reduce16 (s + w) = (if r + w < 65535 then r + w + 1 else r + w - 65534)" "reduce16 s = r + 1"
      using False a m r_def by (simp_all add: reduce16_def)
    then show ?thesis
      by (simp add: end_around_add_def)
  qed
qed

lemma foldl_end_around:
  "0 \<le> s \<Longrightarrow> (\<And>w. w \<in> set ws \<Longrightarrow> 0 \<le> w \<and> w \<le> 65535) \<Longrightarrow>
     foldl end_around_add (reduce16 s) ws = reduce16 (s + sum_list ws)"
proof (induction ws arbitrary: s)
  case (Cons w ws)
  then show ?case by (simp add: reduce16_add add.assoc)
qed simp

lemma ones_complement_sum_reduce: "ones_complement_sum data = reduce16 (sum_list (packet_words data))"
  using foldl_end_around [of 0 "packet_words data"] packet_words_bounds [of _ data]
  by (simp add: ones_complement_sum_def reduce16_def)

lemma fold_carries:
  fixes s :: int
  assumes "0 \<le> s" "s < 2^31"
  shows "(let s = drop_bit 16 s + (s AND 0xffff); s = s + drop_bit 16 s in word_of_int (NOT s)) =
    (word_of_int (65535 - reduce16 s) :: 16 word)"
proof -
  define h l where "h = s div 65536" and "l = s mod 65536"
  have s: "s = 65536 * h + l" "0 \<le> l" "l < 65536" "0 \<le> h" "h < 32768"
    using assms by (auto simp: h_def l_def)
  have mask: "s AND 0xffff = l" using take_bit_eq_mask [of 16 s] by (simp add: l_def take_bit_eq_mod mask_eq_exp_minus_1)
  have hi: "drop_bit 16 s = h" by (simp add: h_def drop_bit_eq_div)
  have neg: "word_of_int (NOT x) = (word_of_int (65535 - x) :: 16 word)" for x
    by (simp add: not_eq_complement word_of_int_eq_iff take_bit_eq_mod mod_eq_dvd_iff)
  have red: "reduce16 s = (if h + l = 0 then 0 else (h + l - 1) mod 65535 + 1)"
  proof -
    have "(s - 1) mod 65535 = (h + l - 1) mod 65535"
    proof -
      have "s - 1 = (h + l - 1) + h * 65535" using s(1) by simp
      then show ?thesis by (metis mod_mult_self1)
    qed
    then show ?thesis using s by (auto simp: reduce16_def)
  qed
  show ?thesis
  proof (cases "h + l < 65536")
    case True
    then have "drop_bit 16 (h + l) = 0" "reduce16 s = h + l"
      using s red by (auto simp: drop_bit_eq_div)
    then show ?thesis by (simp add: Let_def hi mask neg)
  next
    case False
    then have "drop_bit 16 (h + l) = 1" using s by (simp add: drop_bit_eq_div)
    moreover have "reduce16 s = h + l - 65535"
    proof -
      have "(h + l - 1) mod 65535 = h + l - 1 - 65535" using False s by (intro mod_above) auto
      then show ?thesis using red False s by auto
    qed
    ultimately show ?thesis
      by (simp add: Let_def hi mask neg word_of_int_eq_iff take_bit_eq_mod mod_eq_dvd_iff)
  qed
qed

lemma words_no_overflow: "length data \<le> 65535 \<Longrightarrow> sum_list (packet_words data) < 2^31 \<and> 0 \<le> sum_list (packet_words data)"
  using sum_words_bounds [of "packet_words data"] packet_words_bounds [of _ data] length_packet_words [of data] by force

lemma inetChecksum_eq:
  "length data \<le> 65535 \<Longrightarrow> inetChecksum data = Inr (word_of_int (65535 - reduce16 (sum_list (packet_words data))))"
  using words_no_overflow [of data] checksum_loop_sum [of 0 data] fold_carries [of "sum_list (packet_words data)"]
  by (simp add: inetChecksum_def Let_def)

lemma reduce16_bounds: "0 \<le> s \<Longrightarrow> 0 \<le> reduce16 s \<and> reduce16 s \<le> 65535"
  using pos_mod_bound [of 65535 "s - 1"] by (auto simp: reduce16_def)

lemma checksum_patched:
  assumes "even (length pre)" "length (pre @ [0, 0] @ post) \<le> 65535" "inetChecksum (pre @ [0, 0] @ post) = Inr c"
  shows "inetChecksum (pre @ le16 c @ post) = Inr 0"
proof -
  let ?s = "sum_list (packet_words (pre @ [0, 0] @ post))"
  have b: "0 \<le> ?s" "0 \<le> reduce16 ?s" "reduce16 ?s \<le> 65535"
    using words_no_overflow [OF assms(2)] reduce16_bounds by auto
  have c: "uint c = 65535 - reduce16 ?s"
  proof -
    have "c = word_of_int (65535 - reduce16 ?s)" using assms(3) unfolding inetChecksum_eq [OF assms(2)] by (simp only: sum.inject)
    then show ?thesis using b by (simp only: uint_word_of_int) simp
  qed
  have "sum_list (packet_words (pre @ le16 c @ post)) = ?s + uint c"
    using assms(1) by (simp add: packet_words_append le16_def nativeWord_le16)
  moreover have "reduce16 (?s + uint c) = 65535"
    using reduce16_add [OF b(1), of "uint c"] b c by (auto simp: end_around_add_def)
  ultimately show ?thesis
    using inetChecksum_eq [of "pre @ le16 c @ post"] assms(2) by (simp add: le16_def)
qed

subsection \<open>Requests and answers\<close>

definition ipHeaderLength :: "bytes \<Rightarrow> nat" where
  "ipHeaderLength data = unat (data ! 0 AND 0x0f) * 4"

text \<open>A message of the given type that echoes identifier and sequence number of a request.\<close>

definition echoes :: "8 word \<Rightarrow> 16 word \<Rightarrow> 16 word \<Rightarrow> bytes \<Rightarrow> bool" where
  "echoes type ident seq m \<longleftrightarrow> length m \<ge> 8 \<and> m ! 0 = type \<and> word16 (m ! 4) (m ! 5) = ident \<and> word16 (m ! 6) (m ! 7) = seq"

lemma echoes_header: "length c = 2 \<Longrightarrow> echoes t i s (echoHeader t c i s)"
  by (cases c; cases "tl c") (auto simp: echoes_def echoHeader_def be16_def)

lemma rawSocketReady_iff:
  assumes "length data \<le> 2048"
  shows "rawSocketReady p data = Inr (Some s) \<longleftrightarrow>
    20 \<le> ipHeaderLength data \<and> ipHeaderLength data \<le> length data \<and>
    inetChecksum (drop (ipHeaderLength data) data) = Inr 0 \<and>
    echoes ICMP_ECHOREPLY (m_ident p) s (drop (ipHeaderLength data) data)"
proof (cases "data = [] \<or> length data < ipHeaderLength data \<or> ipHeaderLength data < 20")
  case True
  then show ?thesis by (auto simp: rawSocketReady_def ipHeaderLength_def [symmetric] Let_def)
next
  case False
  obtain c where c: "inetChecksum (drop (ipHeaderLength data) data) = Inr c"
    using inetChecksum_eq [of "drop (ipHeaderLength data) data"] assms by auto
  have "rawSocketReady p data = (if c \<noteq> 0 then Inr None
      else if length data \<ge> ipHeaderLength data + 8 then
        Inr (if drop (ipHeaderLength data) data ! 0 = ICMP_ECHOREPLY \<and>
            word16 (drop (ipHeaderLength data) data ! 4) (drop (ipHeaderLength data) data ! 5) = m_ident p
          then Some (word16 (drop (ipHeaderLength data) data ! 6) (drop (ipHeaderLength data) data ! 7)) else None)
      else Inr None)"
    using False c by (simp only: rawSocketReady_def ipHeaderLength_def [symmetric] Let_def if_False fbind_simps) simp
  then show ?thesis
    using False c by (auto simp: echoes_def)
qed

lemma icmp6SocketReady_iff:
  "icmp6SocketReady p data = Some s \<longleftrightarrow>
    (\<exists>ident. echoes ICMP6_ECHO_REPLY ident s data \<and> (m_ident p = 0 \<or> ident = m_ident p))"
  by (auto simp: icmp6SocketReady_def echoes_def)

lemma linux_sendPing_v4:
  assumes "protocol dest \<noteq> IPv6Protocol"
  shows "\<exists>request. linux_sendPing p dest seq = Inr request \<and> inetChecksum request = Inr 0 \<and>
    echoes ICMP_ECHO (m_ident p) seq request"
proof -
  let ?h = "\<lambda>c. echoHeader ICMP_ECHO c (m_ident p) seq"
  have split: "?h c = [ICMP_ECHO, 0] @ c @ be16 (m_ident p) @ be16 seq" for c by (simp add: echoHeader_def)
  obtain c where c: "inetChecksum (?h [0, 0]) = Inr c"
    using inetChecksum_eq [of "?h [0, 0]"] by (simp add: length_echoHeader)
  moreover have "inetChecksum (?h (le16 c)) = Inr 0"
    using checksum_patched [of "[ICMP_ECHO, 0]" "be16 (m_ident p) @ be16 seq" c] c
    unfolding split by (simp add: be16_def)
  ultimately show ?thesis
    using assms by (simp add: linux_sendPing_def echoes_header le16_def)
qed

text \<open>
  A raw socket whose process identifier is a multiple of 65536 is read as a datagram socket; what
  arrives there starts with an IP header and is never taken for an answer.
\<close>

lemma raw_socket_without_identifier:
  assumes "e_dgram E < 0" "e_errno E = EPERM" "e_raw E \<ge> 0" "e_bind E" "e_pid E AND 0xffff = 0" "protocol source \<noteq> IPv6Protocol"
  shows "m_notifier (newLinuxPingSender E source) = IcmpSocketReady" "ping_isValid (newLinuxPingSender E source)"
    "data ! 0 = 0x45 \<Longrightarrow> icmpSocketReady data = None"
  using assms by (auto simp: newLinuxPingSender_def createSocket_def ping_isValid_def icmpSocketReady_def ICMP_ECHOREPLY_def Let_def)

definition dns_reply :: "bytes \<Rightarrow> bool" where
  "dns_reply m \<longleftrightarrow> length m \<ge> 12 \<and> word16 (m ! 2) (m ! 3) AND DNS_FLAG_QR \<noteq> 0 \<and>
     word16 (m ! 2) (m ! 3) AND DNS_FLAG_OPCODE = DNS_FLAG_OPCODE_QUERY"

lemma dns_readData_eq:
  "dns_readData ds = map (\<lambda>m. word16 (m ! 0) (m ! 1)) (filter dns_reply (map the (takeWhile (\<lambda>d. d \<noteq> None) ds)))"
  by (induction ds rule: dns_readData.induct) (auto simp: dns_reply_def Let_def not_less)

lemma dns_readData_header:
  "dns_readData [Some (dnsHeader i f n @ rest)] =
     (if f AND DNS_FLAG_QR \<noteq> 0 \<and> f AND DNS_FLAG_OPCODE = DNS_FLAG_OPCODE_QUERY then [i] else [])"
  by (simp add: dns_readData_eq dns_reply_def dnsHeader_def be16_def)

subsection \<open>Properties\<close>

text \<open>
  C23. The Internet checksum.  For every packet an IP datagram can hold, adding the words into a
  32 bit accumulator and folding the carries in at the end does not overflow and gives the
  complement of the one's complement sum, in which every carry is added back at once; and storing the
  result in the zeroed checksum field makes the whole packet check to zero.
\<close>

theorem inetChecksum_ones_complement:
  assumes "length data \<le> 65535"
  shows "\<exists>c. inetChecksum data = Inr c \<and> uint c = 0xffff - ones_complement_sum data \<and>
    (\<forall>pre post. data = pre @ [0, 0] @ post \<longrightarrow> even (length pre) \<longrightarrow> inetChecksum (pre @ le16 c @ post) = Inr 0)"
proof -
  let ?c = "word_of_int (65535 - reduce16 (sum_list (packet_words data))) :: 16 word"
  have "uint ?c = 0xffff - ones_complement_sum data"
    using reduce16_bounds [of "sum_list (packet_words data)"] words_no_overflow [OF assms]
    unfolding ones_complement_sum_reduce by (simp only: uint_word_of_int) simp
  then show ?thesis
    using inetChecksum_eq [OF assms] checksum_patched assms by (intro exI [of _ ?c]) auto
qed

theorem inetChecksum_ones_complement_witness:
  "\<exists>c. inetChecksum [8, 0, 0, 0, 0x12, 0x34, 0, 1] = Inr c \<and> uint c = 0xffff - 13594"
  using inetChecksum_ones_complement [of "[8, 0, 0, 0, 0x12, 0x34, 0, 1]"]
  by (auto simp: ones_complement_sum_def end_around_add_def nativeWord_def word16_def)



text \<open>
  The DNS sender counts exactly the replies.  The datagrams before the first unreadable one are
  filtered by length, by the reply bit and by the operation code, and each that passes is reported
  with the identifier it carries; a reply to the query of a sequence number, whatever it adds behind
  the header and whatever its other flags are, is reported as that number, and the query itself,
  reflected, is not.
\<close>

theorem dns_replies_counted:
  "dns_readData ds = map (\<lambda>m. word16 (m ! 0) (m ! 1)) (filter dns_reply (map the (takeWhile (\<lambda>d. d \<noteq> None) ds))) \<and>
   (\<exists>query. dns_sendPing True (IPv4Address a) seq = Some query \<and> dns_readData [Some query] = [] \<and>
     dns_readData [Some (dnsHeader seq (flags AND 0x07ff OR DNS_FLAG_QR) count @ rest)] = [seq])"
proof -
  have "bit ((flags AND 0x07ff OR DNS_FLAG_QR) AND DNS_FLAG_QR) 15"
    by (simp add: DNS_FLAG_QR_def bit_simps)
  then have "(flags AND 0x07ff OR DNS_FLAG_QR) AND DNS_FLAG_QR \<noteq> 0"
    by (metis bit_0_eq bot_apply bot_bool_def)
  moreover have "(flags AND 0x07ff OR DNS_FLAG_QR) AND DNS_FLAG_OPCODE = 0"
    unfolding DNS_FLAG_QR_def DNS_FLAG_OPCODE_def by (simp add: word_bw_assocs and.assoc bit.conj_disj_distrib2)
  ultimately have "dns_readData [Some (dnsHeader seq (flags AND 0x07ff OR DNS_FLAG_QR) count @ rest)] = [seq]"
    unfolding dns_readData_header DNS_FLAG_OPCODE_QUERY_def by (simp only: if_True simp_thms)
  moreover have "dns_readData [Some (dnsHeader seq DNS_FLAG_OPCODE_QUERY 1 @ [0x00, 0x00, 0x01, 0x00, 0x01])] = []"
    unfolding dns_readData_header by (simp add: DNS_FLAG_OPCODE_QUERY_def)
  ultimately show ?thesis
    unfolding dns_sendPing_def using dns_readData_eq by simp
qed

end
