(* ===== verification/Crypto_Settings.thy ===== *)
theory Crypto_Settings
  imports Settings_Holder
begin

text \<open>
  \<^verbatim>\<open>src/src/cryptosettings.cpp\<close>, \<^verbatim>\<open>src/src/utils/chacha20poly1305.cpp\<close> and the two key providers
  \<^verbatim>\<open>src/src/platforms/linux/xdgcryptosettings.cpp\<close> and
  \<^verbatim>\<open>src/src/platforms/dummy/dummycryptosettings.h\<close>: the file of the settings, plain or
  encrypted.  Byte arrays are strings.  The vendored cipher, the conversion of settings to and from JSON,
  the secret portal of the desktop, the key derivation and random bytes are arguments.  What the
  file format relies on from a key provider is the locale \<open>key_provider\<close>.
\<close>

subsection \<open>Files\<close>

datatype Version = NoEncryption | EncryptionChachaPolyV1 | EncryptionChachaPolyV2

fun versionByte :: "Version \<Rightarrow> char" where
  "versionByte NoEncryption = CHR 0x00"
| "versionByte EncryptionChachaPolyV1 = CHR 0x01"
| "versionByte EncryptionChachaPolyV2 = CHR 0x02"

definition byteVersion :: "char \<Rightarrow> Version option" where
  "byteVersion c =
     (if c = CHR 0x00 then Some NoEncryption
      else if c = CHR 0x01 then Some EncryptionChachaPolyV1
      else if c = CHR 0x02 then Some EncryptionChachaPolyV2 else None)"

definition NONCE_SIZE :: nat where "NONCE_SIZE = 12"
definition MAC_SIZE :: nat where "MAC_SIZE = 16"
definition ENCRYPTED_V2_HEADER_SIZE :: nat where "ENCRYPTED_V2_HEADER_SIZE = 4"
definition CRYPTO_SETTINGS_KEY_SIZE :: nat where "CRYPTO_SETTINGS_KEY_SIZE = 32"

lemmas size_defs = NONCE_SIZE_def MAC_SIZE_def ENCRYPTED_V2_HEADER_SIZE_def CRYPTO_SETTINGS_KEY_SIZE_def

text \<open>A file opened for writing: what is written, and how much still fits.\<close>

record QIODevice =
  d_content :: string
  d_space :: nat

definition dev_write :: "string \<Rightarrow> QIODevice \<Rightarrow> nat \<times> QIODevice" where
  "dev_write bs d =
     (let n = min (length bs) (d_space d) in (n, d\<lparr>d_content := d_content d @ take n bs, d_space := d_space d - n\<rparr>))"

text \<open>Parts written one after the other until one does not fit.\<close>

fun dev_write_all :: "string list \<Rightarrow> QIODevice \<Rightarrow> bool \<times> QIODevice" where
  "dev_write_all [] d = (True, d)"
| "dev_write_all (bs # rest) d =
     (let (n, d) = dev_write bs d in if n \<noteq> length bs then (False, d) else dev_write_all rest d)"

text \<open>\<open>memcpy\<close> of an unsigned integer on a little endian host.\<close>

fun le_bytes :: "nat \<Rightarrow> nat \<Rightarrow> string" where
  "le_bytes 0 n = []"
| "le_bytes (Suc k) n = char_of (n mod 256) # le_bytes k (n div 256)"

fun le_value :: "string \<Rightarrow> nat" where
  "le_value [] = 0"
| "le_value (c # cs) = of_char c + 256 * le_value cs"

subsection \<open>The cipher and the settings map\<close>

record hacl_aead =
  aead_encrypt :: "string \<Rightarrow> string \<Rightarrow> string \<Rightarrow> string \<Rightarrow> string \<times> string"
  aead_decrypt :: "string \<Rightarrow> string \<Rightarrow> string \<Rightarrow> string \<Rightarrow> string \<Rightarrow> string option"

definition chacha_encrypt :: "hacl_aead \<Rightarrow> string \<Rightarrow> string \<Rightarrow> string \<Rightarrow> string \<Rightarrow> fault + string \<times> string" where
  "chacha_encrypt A key nonce aad plaintext =
     fassert (length key = 32) (fassert (length nonce = 12) (Inr (aead_encrypt A key nonce aad plaintext)))"

definition chacha_decrypt :: "hacl_aead \<Rightarrow> string \<Rightarrow> string \<Rightarrow> string \<Rightarrow> string \<Rightarrow> string \<Rightarrow> fault + string option" where
  "chacha_decrypt A key nonce aad ciphertext mac =
     fassert (length key = 32) (fassert (length nonce = 12) (fassert (length mac = 16)
       (Inr (aead_decrypt A key nonce aad ciphertext mac))))"

record variant_codec = json_codec +
  fromVariant :: "QVariant \<Rightarrow> json"
  toVariant :: "json \<Rightarrow> QVariant"

type_synonym settings_map = "(string \<times> QVariant) list"

definition settingsObject :: "variant_codec \<Rightarrow> settings_map \<Rightarrow> json_object" where
  "settingsObject C m = fold (\<lambda>(k, v). jInsert k (fromVariant C v)) m []"

definition settingsText :: "variant_codec \<Rightarrow> settings_map \<Rightarrow> string" where
  "settingsText C m = jsonToText (json_codec.truncate C) (settingsObject C m)"

definition insertMembers :: "variant_codec \<Rightarrow> json_object \<Rightarrow> (string \<rightharpoonup> QVariant) \<Rightarrow> (string \<rightharpoonup> QVariant)" where
  "insertMembers C obj m = (\<lambda>k. case jValue obj k of None \<Rightarrow> m k | Some v \<Rightarrow> Some (toVariant C v))"

definition readContent :: "variant_codec \<Rightarrow> string \<Rightarrow> (string \<rightharpoonup> QVariant) \<Rightarrow> (string \<rightharpoonup> QVariant) option" where
  "readContent C content m =
     (let json = jsonFromText (json_codec.truncate C) content in
      if \<not> jIsObject json then None else Some (insertMembers C (jToObject json) m))"

subsection \<open>Reading and writing\<close>

record 'k key_ops =
  resetKey :: "'k \<Rightarrow> 'k"
  getKey :: "Version \<Rightarrow> string \<Rightarrow> 'k \<Rightarrow> string \<times> 'k"
  getMetaData :: "'k \<Rightarrow> string"
  getPreferredVersion :: "'k \<Rightarrow> Version"

record 'k CryptoSettings =
  cs_keys :: 'k
  m_lastNonce :: "64 word"

text \<open>The length of the metadata as the reader computes it: \<open>char\<close> is signed and the shift is to the right.\<close>

definition schar :: "char \<Rightarrow> int" where
  "schar c = (let n = int (of_char c) in if n \<ge> 128 then n - 256 else n)"

definition metaLength :: "char \<Rightarrow> char \<Rightarrow> nat" where
  "metaLength h2 h3 = nat ((schar h2 + drop_bit 8 (schar h3)) mod 65536)"

text \<open>Header, metadata and the rest of the file, or nothing when the file is too short.\<close>

definition readHeader :: "Version \<Rightarrow> string \<Rightarrow> (string \<times> string \<times> string) option" where
  "readHeader fileVersion file =
     (let header = [versionByte fileVersion] in
      case fileVersion of
        EncryptionChachaPolyV2 \<Rightarrow>
          (let header = header @ take (ENCRYPTED_V2_HEADER_SIZE - 1) file;
               file = drop (ENCRYPTED_V2_HEADER_SIZE - 1) file
           in
           if length header \<noteq> ENCRYPTED_V2_HEADER_SIZE then None
           else
             let n = metaLength (header ! 2) (header ! 3);
                 header = header @ take n file;
                 file = drop n file
             in
             if length header \<noteq> n + ENCRYPTED_V2_HEADER_SIZE then None
             else Some (header, drop ENCRYPTED_V2_HEADER_SIZE header, file))
      | EncryptionChachaPolyV1 \<Rightarrow> Some (header, [], file)
      | NoEncryption \<Rightarrow> None)"

definition readEncryptedChachaPolyFile ::
    "hacl_aead \<Rightarrow> variant_codec \<Rightarrow> 'k key_ops \<Rightarrow> Version \<Rightarrow> string \<Rightarrow> 'k CryptoSettings \<Rightarrow> (string \<rightharpoonup> QVariant) \<Rightarrow>
     fault + (string \<rightharpoonup> QVariant) option \<times> 'k CryptoSettings" where
  "readEncryptedChachaPolyFile A C K fileVersion file s m =
     (case readHeader fileVersion file of
        None \<Rightarrow> Inr (None, s)
      | Some (header, metadata, file) \<Rightarrow>
          let nonce = take NONCE_SIZE file; file = drop NONCE_SIZE file in
          if length nonce \<noteq> NONCE_SIZE then Inr (None, s)
          else
            let mac = take MAC_SIZE file; ciphertext = drop MAC_SIZE file in
            if length mac \<noteq> MAC_SIZE then Inr (None, s)
            else if length ciphertext = 0 then Inr (None, s)
            else
              let (key, k) = getKey K fileVersion metadata (cs_keys s); s = s\<lparr>cs_keys := k\<rparr> in
              if key = [] then Inr (None, s)
              else if length key \<noteq> CRYPTO_SETTINGS_KEY_SIZE then Inr (None, s)
              else fbind (chacha_decrypt A key nonce header ciphertext mac) (\<lambda>content.
                case content of
                  None \<Rightarrow> Inr (None, s)
                | Some content \<Rightarrow>
                    (case readContent C content m of
                       None \<Rightarrow> Inr (None, s)
                     | Some m \<Rightarrow> Inr (Some m, s\<lparr>m_lastNonce := of_nat (le_value (take 8 nonce))\<rparr>))))"

text \<open>\<open>readFile\<close>: the object is \<open>None\<close> when there is no implementation; the answer \<open>None\<close> is \<open>false\<close>.\<close>

definition readFile ::
    "hacl_aead \<Rightarrow> variant_codec \<Rightarrow> 'k key_ops \<Rightarrow> string \<Rightarrow> 'k CryptoSettings option \<Rightarrow> (string \<rightharpoonup> QVariant) \<Rightarrow>
     fault + (string \<rightharpoonup> QVariant) option \<times> 'k CryptoSettings option" where
  "readFile A C K file inst m =
     (case file of
        [] \<Rightarrow> Inr (None, inst)
      | version # file \<Rightarrow>
          if byteVersion version = Some NoEncryption then Inr (readContent C file m, inst)
          else
            (case (inst, byteVersion version) of
               (Some s, Some fileVersion) \<Rightarrow>
                 fbind (readEncryptedChachaPolyFile A C K fileVersion file s m) (\<lambda>(r, s). Inr (r, Some s))
             | _ \<Rightarrow> Inr (None, inst)))"

definition writeJsonFile :: "variant_codec \<Rightarrow> settings_map \<Rightarrow> QIODevice \<Rightarrow> bool \<times> QIODevice" where
  "writeJsonFile C m d = dev_write_all [[versionByte NoEncryption], settingsText C m] d"

definition nextNonce :: "'k key_ops \<Rightarrow> 'k CryptoSettings \<Rightarrow> 'k CryptoSettings" where
  "nextNonce K s =
     (let s = s\<lparr>m_lastNonce := m_lastNonce s + 1\<rparr> in
      if m_lastNonce s = - 1 then s\<lparr>cs_keys := resetKey K (cs_keys s), m_lastNonce := 0\<rparr> else s)"

definition nonceBytes :: "64 word \<Rightarrow> string" where
  "nonceBytes w = le_bytes 8 (unat w) @ replicate (NONCE_SIZE - 8) (CHR 0x00)"

definition fileHeader :: "Version \<Rightarrow> string \<Rightarrow> string option" where
  "fileHeader fileVersion metadata =
     (case fileVersion of
        EncryptionChachaPolyV1 \<Rightarrow> Some [versionByte fileVersion]
      | EncryptionChachaPolyV2 \<Rightarrow>
          if length metadata > 65535 then None
          else Some ([versionByte fileVersion, CHR 0x00, char_of (length metadata mod 256), char_of (length metadata div 256 mod 256)] @ metadata)
      | NoEncryption \<Rightarrow> None)"

definition writeEncryptedChachaPolyFile ::
    "hacl_aead \<Rightarrow> variant_codec \<Rightarrow> 'k key_ops \<Rightarrow> settings_map \<Rightarrow> 'k CryptoSettings \<Rightarrow> QIODevice \<Rightarrow>
     fault + bool \<times> 'k CryptoSettings \<times> QIODevice" where
  "writeEncryptedChachaPolyFile A C K m s d =
     (let content = settingsText C m;
          s = nextNonce K s;
          nonce = nonceBytes (m_lastNonce s);
          fileVersion = getPreferredVersion K (cs_keys s);
          (key, k) = getKey K fileVersion [] (cs_keys s);
          s = s\<lparr>cs_keys := k\<rparr>
      in
      if key = [] then Inr (False, s, d)
      else if length key \<noteq> CRYPTO_SETTINGS_KEY_SIZE then Inr (False, s, d)
      else
        case fileHeader fileVersion (getMetaData K (cs_keys s)) of
          None \<Rightarrow> Inr (False, s, d)
        | Some header \<Rightarrow>
            fbind (chacha_encrypt A key nonce header content) (\<lambda>(ciphertext, mac).
              let (ok, d) = dev_write_all [header, nonce, mac, ciphertext] d in Inr (ok, s, d)))"

definition writeFile ::
    "hacl_aead \<Rightarrow> variant_codec \<Rightarrow> 'k key_ops \<Rightarrow> settings_map \<Rightarrow> 'k CryptoSettings option \<Rightarrow> QIODevice \<Rightarrow>
     fault + bool \<times> 'k CryptoSettings option \<times> QIODevice" where
  "writeFile A C K m inst d =
     (case inst of
        None \<Rightarrow> (let (ok, d) = writeJsonFile C m d in Inr (ok, None, d))
      | Some s \<Rightarrow>
          (case getPreferredVersion K (cs_keys s) of
             NoEncryption \<Rightarrow> (let (ok, d) = writeJsonFile C m d in Inr (ok, inst, d))
           | _ \<Rightarrow> fbind (writeEncryptedChachaPolyFile A C K m s d) (\<lambda>(ok, s, d). Inr (ok, Some s, d))))"

subsection \<open>The key providers\<close>

record DummyKeys =
  m_fakeKeyValue :: char
  dummy_metadata :: string
  m_keyVersion :: Version

definition dummyKeys :: "DummyKeys key_ops" where
  "dummyKeys = \<lparr>
     resetKey = (\<lambda>k. k\<lparr>m_fakeKeyValue := char_of ((of_char (m_fakeKeyValue k) + 1) mod 256 :: nat)\<rparr>),
     getKey = (\<lambda>version metadata k. (replicate CRYPTO_SETTINGS_KEY_SIZE (m_fakeKeyValue k), k)),
     getMetaData = dummy_metadata,
     getPreferredVersion = m_keyVersion\<rparr>"

text \<open>
  The secret portal answers a secret for a token, empty when the call or the pipe fails; \<open>xdg_salt\<close> is the salt
  that a call generates when it needs one, \<open>hkdf\<close> the derivation of the key.
\<close>

record xdg_env = json_codec +
  xdg_secret :: "string option \<Rightarrow> string"
  xdg_salt :: string
  hkdf :: "string \<Rightarrow> string \<Rightarrow> string"

record XdgKeys =
  m_token :: string
  m_salt :: string
  m_secret :: string
  xdg_version :: Version

definition xdg_resetKey :: "XdgKeys \<Rightarrow> XdgKeys" where
  "xdg_resetKey k = k\<lparr>m_token := [], m_salt := [], m_secret := []\<rparr>"

definition xdg_getKey :: "xdg_env \<Rightarrow> Version \<Rightarrow> string \<Rightarrow> XdgKeys \<Rightarrow> string \<times> XdgKeys" where
  "xdg_getKey E version metadata k =
     (if version \<noteq> EncryptionChachaPolyV2 then ([], k)
      else if m_secret k = [] then
        (let obj = jToObject (jsonFromText (json_codec.truncate E) metadata);
             token = (if jContains obj ''token'' then Some (qtext (jToString (jValue obj ''token'')))
                      else if m_token k \<noteq> [] then Some (m_token k) else None);
             k = k\<lparr>m_secret := xdg_secret E token\<rparr>
         in
         if m_secret k = [] then ([], k)
         else
           let k = (if jContains obj ''salt'' then k\<lparr>m_salt := qtext (jToString (jValue obj ''salt''))\<rparr>
                    else if m_salt k = [] then k\<lparr>m_salt := xdg_salt E\<rparr> else k);
               k = (case token of None \<Rightarrow> k | Some t \<Rightarrow> k\<lparr>m_token := t\<rparr>)
           in (hkdf E (m_salt k) (m_secret k), k))
      else (hkdf E (m_salt k) (m_secret k), k))"

definition xdg_metaObject :: "XdgKeys \<Rightarrow> json_object" where
  "xdg_metaObject k =
     (let obj = (if m_salt k \<noteq> [] then jInsert ''salt'' (JString (m_salt k)) [] else []) in
      if m_token k \<noteq> [] then jInsert ''token'' (JString (m_token k)) obj else obj)"

definition xdg_getMetaData :: "xdg_env \<Rightarrow> XdgKeys \<Rightarrow> string" where
  "xdg_getMetaData E k = jsonToText (json_codec.truncate E) (xdg_metaObject k)"

text \<open>The answer of the portal; the copy of the token in the settings is not used by this class.\<close>

definition xdg_handleResponse :: "nat \<Rightarrow> string option \<Rightarrow> XdgKeys \<Rightarrow> XdgKeys" where
  "xdg_handleResponse code token k =
     (if code \<noteq> 0 then k else case token of None \<Rightarrow> k | Some t \<Rightarrow> k\<lparr>m_token := t\<rparr>)"

definition newXdgKeys :: "bool \<Rightarrow> XdgKeys" where
  "newXdgKeys portal = \<lparr>m_token = [], m_salt = [], m_secret = [],
     xdg_version = (if portal then EncryptionChachaPolyV2 else NoEncryption)\<rparr>"

definition xdgKeys :: "xdg_env \<Rightarrow> XdgKeys key_ops" where
  "xdgKeys E = \<lparr>resetKey = xdg_resetKey, getKey = xdg_getKey E, getMetaData = xdg_getMetaData E,
     getPreferredVersion = xdg_version\<rparr>"

subsection \<open>Bytes\<close>

lemma length_le_bytes [simp]: "length (le_bytes k n) = k"
  by (induction k arbitrary: n) simp_all

lemma le_value_le_bytes: "le_value (le_bytes k n) = n mod 256 ^ k"
proof (induction k arbitrary: n)
  case (Suc k)
  have "le_value (le_bytes (Suc k) n) = n mod 256 + 256 * (n div 256 mod 256 ^ k)" using Suc by simp
  also have "\<dots> = n mod 256 ^ Suc k" by (simp add: mod_mult2_eq)
  finally show ?case .
qed simp

lemma length_nonceBytes [simp]: "length (nonceBytes w) = NONCE_SIZE"
  by (simp add: nonceBytes_def NONCE_SIZE_def)

lemma nonce_read_back: "of_nat (le_value (take 8 (nonceBytes w))) = w"
proof -
  have "unat w < 256 ^ 8" using unsigned_less [of w] by simp
  then show ?thesis by (simp add: nonceBytes_def le_value_le_bytes)
qed

lemma schar_char_of: "(n :: nat) < 256 \<Longrightarrow> schar (char_of n) = (if n \<ge> 128 then int n - 256 else int n)"
  by (simp add: schar_def)

lemma drop_schar: "(n :: nat) < 256 \<Longrightarrow> drop_bit 8 (schar (char_of n)) = (if n \<ge> 128 then -1 else 0)"
proof -
  assume n: "n < 256"
  have "(int n - 256) div 256 = -1" if "n \<ge> 128" using n that by simp
  then show ?thesis using n by (simp add: schar_char_of drop_bit_eq_div)
qed

lemma mod_below: "- 65536 \<le> x \<Longrightarrow> x < 0 \<Longrightarrow> x mod 65536 = x + (65536 :: int)"
  using mod_add_self2 [of x 65536] mod_pos_pos_trivial [of "x + 65536" 65536] by simp

text \<open>
  The reader takes the length of the metadata from its two bytes correctly exactly when it is below 128: the
  high byte is shifted out instead of up, and the low byte is signed.
\<close>

lemma metaLength_correct_iff:
  assumes "n \<le> 65535"
  shows "metaLength (char_of (n mod 256)) (char_of (n div 256 mod 256)) = n \<longleftrightarrow> n < 128"
proof -
  define lo hi where "lo = n mod 256" and "hi = n div 256"
  have n: "n = 256 * hi + lo" "lo < 256" "hi < 256" using assms by (auto simp: lo_def hi_def)
  have m: "metaLength (char_of lo) (char_of hi) =
      nat (((if lo \<ge> 128 then int lo - 256 else int lo) + (if hi \<ge> 128 then -1 else 0)) mod 65536)"
    by (simp only: metaLength_def schar_char_of [OF n(2)] drop_schar [OF n(3)])
  have "n div 256 mod 256 = hi" using n(3) by (simp add: hi_def)
  moreover have "metaLength (char_of lo) (char_of hi) = n \<longleftrightarrow> n < 128"
  proof (cases "lo \<ge> 128 \<or> hi \<ge> 128 \<and> lo = 0")
    case True
    then have "((if lo \<ge> 128 then int lo - 256 else int lo) + (if hi \<ge> 128 then -1 else 0)) mod 65536 =
        (if lo \<ge> 128 then int lo - 256 else int lo) + (if hi \<ge> 128 then -1 else 0) + 65536"
      using n by (intro mod_below) auto
    moreover have "65279 \<noteq> 256 * hi" by presburger
    ultimately show ?thesis using True n m by (auto simp: nat_add_distrib split: if_splits)
  next
    case False
    then have "((if lo \<ge> 128 then int lo - 256 else int lo) + (if hi \<ge> 128 then -1 else 0)) mod 65536 =
        int lo + (if hi \<ge> 128 then -1 else 0)"
      using n by (intro trans [OF mod_pos_pos_trivial]) auto
    then show ?thesis using False n m by (auto split: if_splits)
  qed
  ultimately show ?thesis by (simp add: lo_def)
qed

subsection \<open>What is written is read\<close>

lemma dev_write_all_fits:
  "dev_write_all parts d = (True, d') \<Longrightarrow> d_content d' = d_content d @ concat parts"
  by (induction parts arbitrary: d) (auto simp: dev_write_def Let_def min_def split: if_splits)

lemma readHeader_written:
  assumes "fileHeader v meta = Some header" "v = EncryptionChachaPolyV2 \<longrightarrow> length meta < 128"
  shows "header = versionByte v # tl header \<and>
    readHeader v (tl header @ rest) = Some (header, if v = EncryptionChachaPolyV2 then meta else [], rest)"
proof (cases v)
  case EncryptionChachaPolyV2
  have len: "length meta < 128" using assms(2) EncryptionChachaPolyV2 by simp
  then have "metaLength (char_of (length meta mod 256)) (char_of (length meta div 256 mod 256)) = length meta"
    by (subst metaLength_correct_iff) simp_all
  then show ?thesis
    using assms(1) len EncryptionChachaPolyV2
    by (auto simp: fileHeader_def readHeader_def ENCRYPTED_V2_HEADER_SIZE_def Let_def)
qed (use assms(1) in \<open>auto simp: fileHeader_def readHeader_def\<close>)

definition aead_ok :: "hacl_aead \<Rightarrow> bool" where
  "aead_ok A \<longleftrightarrow> (\<forall>key nonce aad p. let (c, t) = aead_encrypt A key nonce aad p in
     length c = length p \<and> length t = MAC_SIZE \<and> aead_decrypt A key nonce aad c t = Some p)"

lemma byteVersion_versionByte [simp]: "byteVersion (versionByte v) = Some v"
  by (cases v) (simp_all add: byteVersion_def)

lemma jValue_settingsObject:
  "distinct (map fst m) \<Longrightarrow> jValue (settingsObject C m) k = map_option (fromVariant C) (map_of m k)"
proof -
  have "distinct (map fst m) \<Longrightarrow> \<forall>x\<in>fst ` set m. jValue ob x = None \<Longrightarrow>
      jValue (fold (\<lambda>(k, v). jInsert k (fromVariant C v)) m ob) k =
        (case map_of m k of None \<Rightarrow> jValue ob k | Some v \<Rightarrow> Some (fromVariant C v))" for ob
  proof (induction m arbitrary: ob)
    case (Cons e m)
    obtain a v where e: "e = (a, v)" by fastforce
    have "\<forall>x\<in>fst ` set m. jValue (jInsert a (fromVariant C v) ob) x = None"
      using Cons.prems e by (auto simp: rev_image_eqI)
    then have ih: "jValue (fold (\<lambda>(k, v). jInsert k (fromVariant C v)) m (jInsert a (fromVariant C v) ob)) k =
        (case map_of m k of None \<Rightarrow> jValue (jInsert a (fromVariant C v) ob) k | Some v \<Rightarrow> Some (fromVariant C v))"
      using Cons.IH Cons.prems(1) e by simp
    have "map_of m a = None" using Cons.prems(1) e by (simp add: map_of_eq_None_iff)
    then show ?case using ih e by (simp split: option.split)
  qed simp
  then show "distinct (map fst m) \<Longrightarrow> ?thesis" by (auto simp: settingsObject_def split: option.split)
qed

locale key_provider =
  fixes K :: "'k key_ops" and restarts :: "'k \<Rightarrow> 'k \<Rightarrow> bool"
  assumes key_again: "getKey K v [] k = (key, k') \<Longrightarrow> key \<noteq> [] \<Longrightarrow> restarts k' k0 \<Longrightarrow>
    fst (getKey K v (if v = EncryptionChachaPolyV2 then getMetaData K k' else []) k0) = key"
begin

lemma write_result:
  assumes "writeEncryptedChachaPolyFile A C K m s d = Inr (True, s', d')" "d_content d = []" "aead_ok A"
  shows "\<exists>v key header c t. getKey K v [] (cs_keys (nextNonce K s)) = (key, cs_keys s') \<and> length key = CRYPTO_SETTINGS_KEY_SIZE \<and>
    fileHeader v (getMetaData K (cs_keys s')) = Some header \<and> v \<noteq> NoEncryption \<and>
    aead_encrypt A key (nonceBytes (m_lastNonce s')) header (settingsText C m) = (c, t) \<and>
    d_content d' = header @ nonceBytes (m_lastNonce s') @ t @ c"
proof -
  let ?n = "nextNonce K s"
  define v where "v = getPreferredVersion K (cs_keys ?n)"
  obtain key k where key: "getKey K v [] (cs_keys ?n) = (key, k)" by fastforce
  have l: "length key = CRYPTO_SETTINGS_KEY_SIZE"
    using assms(1) key by (auto simp: writeEncryptedChachaPolyFile_def Let_def v_def split: if_splits)
  then have ne: "key \<noteq> []" by (auto simp: CRYPTO_SETTINGS_KEY_SIZE_def)
  have w: "(case fileHeader v (getMetaData K k) of
          None \<Rightarrow> Inr (False, ?n\<lparr>cs_keys := k\<rparr>, d)
        | Some header \<Rightarrow>
            fbind (chacha_encrypt A key (nonceBytes (m_lastNonce ?n)) header (settingsText C m)) (\<lambda>(ciphertext, mac).
              let (ok, d) = dev_write_all [header, nonceBytes (m_lastNonce ?n), mac, ciphertext] d in Inr (ok, ?n\<lparr>cs_keys := k\<rparr>, d))) =
      (Inr (True, s', d') :: fault + _)"
    using assms(1) key l ne by (simp add: writeEncryptedChachaPolyFile_def Let_def v_def [symmetric])
  then obtain header where h: "fileHeader v (getMetaData K k) = Some header" by (auto split: option.splits)
  obtain c t where ct: "aead_encrypt A key (nonceBytes (m_lastNonce ?n)) header (settingsText C m) = (c, t)" by fastforce
  have "chacha_encrypt A key (nonceBytes (m_lastNonce ?n)) header (settingsText C m) = Inr (c, t)"
    using l ct by (simp add: chacha_encrypt_def size_defs)
  with w h have "dev_write_all [header, nonceBytes (m_lastNonce ?n), t, c] d = (True, d') \<and> s' = ?n\<lparr>cs_keys := k\<rparr>"
    by (auto simp: Let_def split: prod.splits)
  moreover from this have "d_content d' = header @ nonceBytes (m_lastNonce ?n) @ t @ c"
    using dev_write_all_fits [of "[header, nonceBytes (m_lastNonce ?n), t, c]" d d'] assms(2) by simp
  moreover have "v \<noteq> NoEncryption" using h by (auto simp: fileHeader_def)
  ultimately show ?thesis
    using key l h ct by (intro exI [of _ v] exI [of _ key] exI [of _ header] exI [of _ c] exI [of _ t]) simp
qed

lemma written_file_reads_back:
  assumes written: "writeEncryptedChachaPolyFile A C K m s d = Inr (True, s', d')" "d_content d = []"
    and cipher: "aead_ok A"
    and json: "settingsText C m \<noteq> []" "reads_back (json_codec.truncate C) (settingsObject C m)"
    and short: "length (getMetaData K (cs_keys s')) < 128"
    and restart: "restarts (cs_keys s') k0"
  shows "\<exists>k1. readFile A C K (d_content d') (Some \<lparr>cs_keys = k0, m_lastNonce = n0\<rparr>) m0 =
    Inr (Some (insertMembers C (settingsObject C m) m0), Some \<lparr>cs_keys = k1, m_lastNonce = m_lastNonce s'\<rparr>)"
proof -
  obtain v key header c t where k: "getKey K v [] (cs_keys (nextNonce K s)) = (key, cs_keys s')" "length key = CRYPTO_SETTINGS_KEY_SIZE"
    and h: "fileHeader v (getMetaData K (cs_keys s')) = Some header" "v \<noteq> NoEncryption"
    and ct: "aead_encrypt A key (nonceBytes (m_lastNonce s')) header (settingsText C m) = (c, t)"
    and disk: "d_content d' = header @ nonceBytes (m_lastNonce s') @ t @ c"
    using write_result [OF written cipher] by blast
  let ?nonce = "nonceBytes (m_lastNonce s')" and ?meta = "if v = EncryptionChachaPolyV2 then getMetaData K (cs_keys s') else []"
  have ne: "key \<noteq> []" using k(2) by (auto simp: CRYPTO_SETTINGS_KEY_SIZE_def)
  note hd = readHeader_written [OF h(1), of "?nonce @ t @ c"]
  have a: "length c = length (settingsText C m)" "length t = MAC_SIZE" "aead_decrypt A key ?nonce header c t = Some (settingsText C m)"
    using cipher [unfolded aead_ok_def, rule_format, of key ?nonce header "settingsText C m"] by (simp_all add: ct)
  obtain k1 where k1: "getKey K v ?meta k0 = (key, k1)"
    using key_again [OF k(1) ne restart] by (cases "getKey K v ?meta k0") simp
  have content: "readContent C (settingsText C m) m0 = Some (insertMembers C (settingsObject C m) m0)"
    using reads_backD [OF json(2)] by (auto simp: readContent_def settingsText_def insertMembers_def fun_eq_iff)
  have "readEncryptedChachaPolyFile A C K v (tl header @ ?nonce @ t @ c) \<lparr>cs_keys = k0, m_lastNonce = n0\<rparr> m0 =
      Inr (Some (insertMembers C (settingsObject C m) m0), \<lparr>cs_keys = k1, m_lastNonce = m_lastNonce s'\<rparr>)"
    using hd short a k(2) ne k1 content json(1) nonce_read_back [of "m_lastNonce s'"]
    by (simp add: readEncryptedChachaPolyFile_def chacha_decrypt_def size_defs Let_def)
  moreover have "d_content d' = versionByte v # (tl header @ ?nonce @ t @ c)"
    using disk hd short by (metis append_Cons)
  ultimately show ?thesis using h(2) by (auto simp: readFile_def)
qed

end

subsection \<open>The two providers satisfy the contract\<close>

interpretation dummy: key_provider dummyKeys "\<lambda>k k0. k0 = k"
  by unfold_locales (auto simp: dummyKeys_def)

text \<open>
  A later process of the desktop client: nothing is remembered, the metadata of the file is read back, and the
  portal answers the same secret for the token that the file names.
\<close>

definition xdg_restarts :: "xdg_env \<Rightarrow> XdgKeys \<Rightarrow> XdgKeys \<Rightarrow> bool" where
  "xdg_restarts E k k0 \<longleftrightarrow> m_secret k0 = [] \<and> m_token k0 = [] \<and> m_salt k \<noteq> [] \<and>
     reads_back (json_codec.truncate E) (xdg_metaObject k) \<and>
     xdg_secret E (if m_token k \<noteq> [] then Some (m_token k) else None) = m_secret k"

lemma xdg_metaObject_values:
  "jValue (xdg_metaObject k) ''salt'' = (if m_salt k \<noteq> [] then Some (JString (m_salt k)) else None)"
  "jValue (xdg_metaObject k) ''token'' = (if m_token k \<noteq> [] then Some (JString (m_token k)) else None)"
  by (simp_all add: xdg_metaObject_def)

lemma xdg_getKey_result:
  "xdg_getKey E v meta k = (key, k') \<Longrightarrow> key \<noteq> [] \<Longrightarrow>
     v = EncryptionChachaPolyV2 \<and> key = hkdf E (m_salt k') (m_secret k') \<and> m_secret k' \<noteq> []"
  by (auto simp: xdg_getKey_def Let_def split: if_splits option.splits)

interpretation xdg: key_provider "xdgKeys E" "xdg_restarts E" for E
proof
  fix v k key k' k0
  assume "getKey (xdgKeys E) v [] k = (key, k')" "key \<noteq> []" and r: "xdg_restarts E k' k0"
  then have k: "v = EncryptionChachaPolyV2" "key = hkdf E (m_salt k') (m_secret k')" "m_secret k' \<noteq> []"
    using xdg_getKey_result [of E v "[]" k key k'] by (simp_all add: xdgKeys_def)
  obtain ob where ob: "jsonFromText (json_codec.truncate E) (xdg_getMetaData E k') = Some (JObject ob)"
      "\<forall>x. jValue ob x = jValue (xdg_metaObject k') x"
    using r reads_backD unfolding xdg_restarts_def xdg_getMetaData_def by blast
  have "fst (xdg_getKey E EncryptionChachaPolyV2 (xdg_getMetaData E k') k0) = hkdf E (m_salt k') (m_secret k')"
    using r ob k(3) by (cases "m_token k' = []") (simp_all add: xdg_getKey_def xdg_restarts_def xdg_metaObject_values Let_def)
  then show "fst (getKey (xdgKeys E) v (if v = EncryptionChachaPolyV2 then getMetaData (xdgKeys E) k' else []) k0) = key"
    by (simp add: k xdgKeys_def)
qed

subsection \<open>Nonces\<close>

lemma nextNonce_cases:
  "m_lastNonce s \<noteq> - 1 \<Longrightarrow> m_lastNonce (nextNonce K s) \<noteq> - 1 \<and>
     (if m_lastNonce s = - 2 then m_lastNonce (nextNonce K s) = 0 \<and> cs_keys (nextNonce K s) = resetKey K (cs_keys s)
      else unat (m_lastNonce (nextNonce K s)) = unat (m_lastNonce s) + 1 \<and> cs_keys (nextNonce K s) = cs_keys s)"
proof -
  assume s: "m_lastNonce s \<noteq> - 1"
  have "m_lastNonce s + 1 = - 1 \<longleftrightarrow> m_lastNonce s = - 1 - 1" by (simp only: eq_diff_eq)
  then have wrap: "m_lastNonce s + 1 = - 1 \<longleftrightarrow> m_lastNonce s = - 2" by simp
  have "unat (m_lastNonce s + 1) = unat (m_lastNonce s) + 1"
    using s by (simp add: unatSuc add.commute eq_neg_iff_add_eq_0)
  then show ?thesis using wrap by (simp add: nextNonce_def Let_def)
qed

lemma writeEncrypted_nonce:
  "writeEncryptedChachaPolyFile A C K m s d = Inr (ok, s', d') \<Longrightarrow> m_lastNonce s' = m_lastNonce (nextNonce K s)"
  by (auto simp: writeEncryptedChachaPolyFile_def Let_def split: if_splits option.splits prod.splits dest!: fbind_InrD)

text \<open>
  The nonces of successive writes, each with the number of key resets before it; a reset happens
  when the counter would reach its maximum.
\<close>

fun write_log ::
    "hacl_aead \<Rightarrow> variant_codec \<Rightarrow> 'k key_ops \<Rightarrow> (settings_map \<times> QIODevice) list \<Rightarrow> 'k CryptoSettings \<Rightarrow> nat \<Rightarrow> fault + (nat \<times> nat) list" where
  "write_log A C K [] s epoch = Inr []"
| "write_log A C K ((m, d) # rest) s epoch =
     fbind (writeEncryptedChachaPolyFile A C K m s d) (\<lambda>(ok, s', d').
       let epoch' = (if m_lastNonce s = - 2 then Suc epoch else epoch) in
       fbind (write_log A C K rest s' epoch') (\<lambda>l. Inr ((epoch', unat (m_lastNonce s')) # l)))"

definition nonce_before :: "nat \<times> nat \<Rightarrow> nat \<times> nat \<Rightarrow> bool" where
  "nonce_before a b \<longleftrightarrow> fst a < fst b \<or> fst a = fst b \<and> snd a < snd b"

lemma nonce_before_trans: "nonce_before a b \<Longrightarrow> nonce_before b c \<Longrightarrow> nonce_before a c"
  by (auto simp: nonce_before_def)

lemma write_log_ordered:
  "write_log A C K reqs s e = Inr l \<Longrightarrow> m_lastNonce s \<noteq> - 1 \<Longrightarrow>
     sorted_wrt nonce_before l \<and> (\<forall>x\<in>set l. nonce_before (e, unat (m_lastNonce s)) x)"
proof (induction reqs arbitrary: s e l)
  case (Cons req reqs)
  obtain m d where req: "req = (m, d)" by fastforce
  obtain ok s' d' where w: "writeEncryptedChachaPolyFile A C K m s d = Inr (ok, s', d')"
    using Cons.prems(1) req by (auto dest!: fbind_InrD)
  define e' where "e' = (if m_lastNonce s = - 2 then Suc e else e)"
  obtain l' where l': "write_log A C K reqs s' e' = Inr l'" "l = (e', unat (m_lastNonce s')) # l'"
    using Cons.prems(1) req w by (auto simp: e'_def Let_def dest!: fbind_InrD)
  note n = nextNonce_cases [OF Cons.prems(2), of K] writeEncrypted_nonce [OF w]
  have step: "nonce_before (e, unat (m_lastNonce s)) (e', unat (m_lastNonce s'))"
    using n by (simp add: nonce_before_def e'_def split: if_splits)
  have ih: "sorted_wrt nonce_before l'" "\<forall>x\<in>set l'. nonce_before (e', unat (m_lastNonce s')) x"
    using Cons.IH [OF l'(1)] n by auto
  then show ?case using step l'(2) nonce_before_trans by auto
qed simp

text \<open>A read that fails leaves the counter alone, so that the next write starts over under the same key.\<close>

lemma failed_read_keeps_nonce:
  "readEncryptedChachaPolyFile A C K v file s m = Inr (None, s') \<Longrightarrow> m_lastNonce s' = m_lastNonce s"
  by (auto simp: readEncryptedChachaPolyFile_def Let_def split: option.splits prod.splits if_splits dest!: fbind_InrD)

subsection \<open>Properties\<close>

text \<open>
  C24. Encrypted settings survive a restart of the desktop client.  A file that \<open>writeFile\<close> wrote completely
  with the key of the secret portal, and whose metadata is shorter than 128 bytes, is read by a later
  process that remembers nothing: every setting comes back as its JSON form, and the nonce counter
  continues from the nonce of the file.
\<close>

theorem xdg_settings_survive_restart:
  assumes "writeFile A C (xdgKeys E) m (Some s) d = Inr (True, Some s', d')" "xdg_version (cs_keys s) \<noteq> NoEncryption" "d_content d = []"
    and "aead_ok A" "distinct (map fst m)" "settingsText C m \<noteq> []" "reads_back (json_codec.truncate C) (settingsObject C m)"
    and "length (xdg_getMetaData E (cs_keys s')) < 128" "xdg_restarts E (cs_keys s') k0"
  shows "\<exists>k1. readFile A C (xdgKeys E) (d_content d') (Some \<lparr>cs_keys = k0, m_lastNonce = 0\<rparr>) Map.empty =
    Inr (Some (\<lambda>x. map_option (\<lambda>v. toVariant C (fromVariant C v)) (map_of m x)), Some \<lparr>cs_keys = k1, m_lastNonce = m_lastNonce s'\<rparr>)"
proof -
  have "writeEncryptedChachaPolyFile A C (xdgKeys E) m s d = Inr (True, s', d')"
    using assms(1,2) by (auto simp: writeFile_def xdgKeys_def split: Version.splits prod.splits dest!: fbind_InrD)
  moreover have "length (getMetaData (xdgKeys E) (cs_keys s')) < 128" using assms(8) by (simp add: xdgKeys_def)
  ultimately obtain k1 where "readFile A C (xdgKeys E) (d_content d') (Some \<lparr>cs_keys = k0, m_lastNonce = 0\<rparr>) Map.empty =
      Inr (Some (insertMembers C (settingsObject C m) Map.empty), Some \<lparr>cs_keys = k1, m_lastNonce = m_lastNonce s'\<rparr>)"
    using xdg.written_file_reads_back assms(3-7,9) by blast
  moreover have "insertMembers C (settingsObject C m) Map.empty = (\<lambda>x. map_option (\<lambda>v. toVariant C (fromVariant C v)) (map_of m x))"
    by (auto simp: insertMembers_def jValue_settingsObject [OF assms(5)] fun_eq_iff split: option.split)
  ultimately show ?thesis by auto
qed

text \<open>A provider, a cipher and a conversion that satisfy the hypotheses, with no settings stored.\<close>

definition plainCipher :: hacl_aead where
  "plainCipher = \<lparr>aead_encrypt = (\<lambda>key nonce aad p. (p, replicate 16 (CHR ''t''))), aead_decrypt = (\<lambda>key nonce aad c t. Some c)\<rparr>"

definition fileCodec :: variant_codec where
  "fileCodec = \<lparr>jsonToText = (\<lambda>_. ''{}''), jsonFromText = (\<lambda>_. Some (JObject [])), fromVariant = (\<lambda>_. JNull), toVariant = (\<lambda>_. Invalid)\<rparr>"

definition portalEnv :: xdg_env where
  "portalEnv = \<lparr>jsonToText = (\<lambda>_. ''m''), jsonFromText = (\<lambda>t. if t = ''m'' then Some (JObject [(''salt'', JString ''s'')]) else None),
     xdg_secret = (\<lambda>_. ''secret''), xdg_salt = ''s'', hkdf = (\<lambda>_ _. replicate 32 (CHR ''k''))\<rparr>"

lemma example_written:
  "\<exists>s' d'. writeFile plainCipher fileCodec (xdgKeys portalEnv) [] (Some \<lparr>cs_keys = newXdgKeys True, m_lastNonce = 0\<rparr>)
       \<lparr>d_content = [], d_space = 1000\<rparr> = Inr (True, Some s', d') \<and>
     cs_keys s' = \<lparr>m_token = [], m_salt = ''s'', m_secret = ''secret'', xdg_version = EncryptionChachaPolyV2\<rparr>"
  by (simp add: writeFile_def writeEncryptedChachaPolyFile_def newXdgKeys_def xdgKeys_def xdg_getKey_def portalEnv_def
      json_codec.truncate_def nextNonce_def fileHeader_def xdg_getMetaData_def chacha_encrypt_def size_defs plainCipher_def
      settingsText_def fileCodec_def dev_write_def Let_def nonceBytes_def jToObject_def)

theorem xdg_settings_survive_restart_witness:
  "\<exists>s' d' k1. writeFile plainCipher fileCodec (xdgKeys portalEnv) [] (Some \<lparr>cs_keys = newXdgKeys True, m_lastNonce = 0\<rparr>)
       \<lparr>d_content = [], d_space = 1000\<rparr> = Inr (True, Some s', d') \<and>
     readFile plainCipher fileCodec (xdgKeys portalEnv) (d_content d') (Some \<lparr>cs_keys = newXdgKeys True, m_lastNonce = 0\<rparr>) Map.empty =
       Inr (Some Map.empty, Some \<lparr>cs_keys = k1, m_lastNonce = m_lastNonce s'\<rparr>)"
proof -
  obtain s' d' where w: "writeFile plainCipher fileCodec (xdgKeys portalEnv) [] (Some \<lparr>cs_keys = newXdgKeys True, m_lastNonce = 0\<rparr>)
       \<lparr>d_content = [], d_space = 1000\<rparr> = Inr (True, Some s', d')"
    and k: "cs_keys s' = \<lparr>m_token = [], m_salt = ''s'', m_secret = ''secret'', xdg_version = EncryptionChachaPolyV2\<rparr>"
    using example_written by (elim exE conjE)
  have "xdg_restarts portalEnv (cs_keys s') (newXdgKeys True)"
    by (simp add: k xdg_restarts_def newXdgKeys_def portalEnv_def reads_back_def json_codec.truncate_def xdg_metaObject_def jValue_def jInsert_def)
  moreover have "length (xdg_getMetaData portalEnv (cs_keys s')) < 128"
    by (simp add: xdg_getMetaData_def portalEnv_def json_codec.truncate_def)
  moreover have "aead_ok plainCipher" by (simp add: aead_ok_def plainCipher_def MAC_SIZE_def)
  moreover have "reads_back (json_codec.truncate fileCodec) (settingsObject fileCodec [])" "settingsText fileCodec [] \<noteq> []"
    by (simp_all add: reads_back_def fileCodec_def settingsObject_def settingsText_def json_codec.truncate_def)
  ultimately show ?thesis
    using xdg_settings_survive_restart [OF w] w by (simp add: newXdgKeys_def)
qed


definition dummySettings :: "DummyKeys CryptoSettings" where
  "dummySettings = \<lparr>cs_keys = \<lparr>m_fakeKeyValue = CHR ''A'', dummy_metadata = [], m_keyVersion = EncryptionChachaPolyV1\<rparr>, m_lastNonce = 7\<rparr>"

lemma example_log:
  "write_log plainCipher fileCodec dummyKeys [([], \<lparr>d_content = [], d_space = 1000\<rparr>), ([], \<lparr>d_content = [], d_space = 0\<rparr>)] dummySettings 0 =
     Inr [(0, 8), (0, 9)]"
  by (simp add: dummySettings_def writeEncryptedChachaPolyFile_def dummyKeys_def nextNonce_def fileHeader_def chacha_encrypt_def
      size_defs plainCipher_def settingsText_def fileCodec_def dev_write_def nonceBytes_def json_codec.truncate_def Let_def)


end
