(* ===== verification/Spec2Isabelle.thy ===== *)
theory Spec2Isabelle
  imports DNS_Helper Connection_Health Local_Socket Recent_Connections Device_Model Server_Latency Ping_Packets Crypto_Settings
begin

text \<open>
  The VPN client of \<^verbatim>\<open>src/\<close> (Mozilla VPN turned into a client for imported WireGuard profiles):
  from the text of a profile to packets the daemon routes, with what decides about servers,
  addresses, settings and the health of the connection.  File names below are relative to
  \<^verbatim>\<open>src/src/\<close>.

  \<^bold>\<open>The program.\<close>  An unprivileged client keeps profiles (\<^verbatim>\<open>models/wireguardprofilemodel.cpp\<close>) and a
  server list in settings (\<^verbatim>\<open>settings/\<close>).  A user action becomes a task
  (\<^verbatim>\<open>tasks/controlleraction\<close>) in the queue of \<^verbatim>\<open>utils/taskscheduler.cpp\<close>; running it drives the state
  machine of \<^verbatim>\<open>controller.cpp\<close>, which computes an \<open>InterfaceConfig\<close> and hands it to a platform
  controller.  The local socket controller (\<^verbatim>\<open>localsocketcontroller.cpp\<close>) writes it as one line of
  JSON to the privileged daemon (\<^verbatim>\<open>daemon/daemonlocalserverconnection.cpp\<close>, \<^verbatim>\<open>daemon/daemon.cpp\<close>),
  which configures peers, routes and DNS through \<open>WireguardUtils\<close>, \<open>DnsUtils\<close> and \<open>IPUtils\<close>, and
  announces handshakes back over the same socket.  While connected, \<^verbatim>\<open>connectionhealth.cpp\<close>
  judges the pings that \<^verbatim>\<open>pinghelper.cpp\<close> sends through a \<^verbatim>\<open>utils/pingsender\<close>.

  \<^bold>\<open>The theories\<close>, in the order of their dependencies.
  \<^item> \<open>WG_Prelude\<close>: the generic part.  Strings of Qt as character lists and the \<open>QString\<close>, \<open>QList\<close> and
    JSON operations the code uses; the faults of the program (failed assertion, overflow of \<open>int\<close>,
    null pointer, invalidated iterator) as the left summand of results; the collections of
    simplification rules; runs of a step relation and the locale \<open>invariant_system\<close>.
  \<^item> \<open>IP_Address\<close> (\<^verbatim>\<open>utils/ipaddress.cpp\<close>, \<^verbatim>\<open>utils/rfc\<close>): addresses of both families as 32-bit words and sixteen bytes;
    prefixes, containment, order, subnets and the exclusion of blocks from blocks, by which the
    allowed IPs are computed.  Exclusion is exact on the set of addresses; containment decides the
    inclusion of blocks.  The bit arithmetic is proved once, in the locale \<open>addr_family\<close>, for
    both families (interpretations \<open>v4\<close> and \<open>v6\<close>).
  \<^item> \<open>Interface_Config\<close> (\<^verbatim>\<open>utils/interfaceconfig.cpp\<close>): the configuration record, \<open>toJson\<close>, \<open>toWgConf\<close>.
  \<^item> \<open>WireGuard_Config\<close> (\<^verbatim>\<open>utils/wireguardconfig.cpp\<close>): the parser of a profile, line by line.  What
    is accepted is well formed, the first bad line is the reported one, and a
    configuration printed by \<open>toWgConf\<close> parses back.
  \<^item> \<open>Settings\<close>, \<open>Settings_Holder\<close> (\<^verbatim>\<open>settings/\<close>, \<^verbatim>\<open>settingsholder.h\<close>, \<^verbatim>\<open>settingslist.h\<close>): store, settings,
    groups and their signals; the typed settings used here.  The locale
    \<open>value_store\<close> is what clients rely on (interpretation \<open>setting\<close>).
  \<^item> \<open>Crypto_Settings\<close> (\<^verbatim>\<open>cryptosettings.cpp\<close>, \<^verbatim>\<open>utils/chacha20poly1305.cpp\<close>, the key providers of Linux and
    of the tests): the plain and the encrypted file of the settings.  The locale \<open>key_provider\<close> is what the
    format relies on (interpretations \<open>dummy\<close> and \<open>xdg\<close>); files with short metadata are read back, the
    length of longer metadata is misread, and no nonce repeats under a key.
  \<^item> \<open>Server_Model\<close>, \<open>Server_Data\<close> (\<^verbatim>\<open>utils/models/server*.cpp\<close>, \<^verbatim>\<open>models/serverdata.cpp\<close>): the decoding of the server list, weighted
    choice of a server, choice of a port, the chosen location and its persistence.
  \<^item> \<open>Recent_Connections\<close> (\<^verbatim>\<open>models/recentconnections.cpp\<close>): the two lists of recent locations, shown
    to be most-recently-used lists cut at their bound, and their storage (interpretation \<open>recents\<close>).
  \<^item> \<open>Device_Model\<close> (\<^verbatim>\<open>models/device.cpp\<close>, \<^verbatim>\<open>models/devicemodel.cpp\<close>): the devices of the account, this one in
    front, and devices under removal, which a reload keeps hidden and a failed removal brings back
    (interpretation \<open>devices\<close>).
  \<^item> \<open>Server_Latency\<close> (\<^verbatim>\<open>serverlatency.cpp\<close>): the measurement of all servers with at most eight pings in
    flight, which ends even if nobody answers, cooldowns, which keep the servers of a city out of
    every server list until they expire, and the scores of cities (interpretation \<open>latency\<close>).
  \<^item> \<open>DNS_Helper\<close> (\<^verbatim>\<open>dnshelper.cpp\<close>, \<^verbatim>\<open>controller_p.cpp\<close>): which resolver is used under which flags,
    the migration of the old setting, and the ranges routed for the browser extension.
  \<^item> \<open>VPN_Controller\<close> (\<^verbatim>\<open>controller.cpp\<close>): every slot and call that changes the state, single and
    multi hop, retries, silent switches, disconnection, as functions on the record \<open>Controller\<close>; the step
    relation \<open>ctl_step\<close> is a call or an event in any order.  Timers are flags of the state, requests to
    the platform are the list \<open>m_actions\<close>.  Its invariant holds in every reachable state
    (interpretation \<open>ctl\<close>), and an unanswered handshake ends after the fixed number of retries.
  \<^item> \<open>Daemon_Config\<close>, \<open>Daemon\<close>, \<open>Daemon_Mock\<close> (\<^verbatim>\<open>daemon/daemon.cpp\<close>, \<^verbatim>\<open>daemon/mock\<close>): reading a configuration,
    activation, switching, deactivation, polling, over a record of backend operations.  The locale
    \<open>peer_backend\<close> states what the daemon relies on, \<open>reliable_backend\<close> extends it; the utilities of
    the mock daemon satisfy both (interpretation \<open>mock\<close>), and connections and peers stay in step in
    every reachable state (\<open>mock_system\<close>).
  \<^item> \<open>Profile_Model\<close> (\<^verbatim>\<open>models/wireguardprofilemodel.cpp\<close>): import, rename, removal and selection of
    profiles and their storage; the active profile always parses (interpretation \<open>profiles\<close>).
  \<^item> \<open>Task_Scheduler\<close> (\<^verbatim>\<open>utils/task.h\<close>, \<^verbatim>\<open>utils/taskscheduler.cpp\<close>, \<^verbatim>\<open>utils/taskgroup.cpp\<close>): the queue
    refines a fair queue of identifiers; a task that is not deletable is never lost; a group
    completes once (interpretations \<open>sched\<close> and \<open>client_sched\<close>).
  \<^item> \<open>Controller_Action\<close> (\<^verbatim>\<open>tasks/controlleraction/taskcontrolleraction.cpp\<close> and the entry points of
    \<^verbatim>\<open>mozillavpn.cpp\<close> that create such tasks): when an action completes, and that a deactivation has the
    last word over the actions queued before it.
  \<^item> \<open>Ping_Window\<close> (\<^verbatim>\<open>pinghelper.cpp\<close>): the ring of 32 pings refines the log of all pings; latency and
    loss are statistics of the last 32.
  \<^item> \<open>Ping_Packets\<close> (\<^verbatim>\<open>utils/pingsender/\<close>, \<^verbatim>\<open>platforms/linux/linuxpingsender.cpp\<close>): the Internet checksum
    as a one's complement sum, echo requests and the answers counted for them, DNS queries as pings.
  \<^item> \<open>Connection_Health\<close> (\<^verbatim>\<open>connectionhealth.cpp\<close>): the classification as a function of the log, the
    averaged DNS baseline and its range, and that one mode of measuring runs at a time
    (interpretation \<open>health\<close>).
  \<^item> \<open>Local_Socket\<close>: the client and the daemon ends of the socket.  The locale \<open>line_reader\<close> shows once
    that the cutting of a stream into chunks does not matter; \<open>client_reader\<close> and \<open>server_reader\<close>
    are its two instances.  Reconnection delays, commands and signals are complete.
  \<^item> This theory: a selected profile leads to a connection through all of the above.

  \<^bold>\<open>Parameters.\<close>  Code outside the repository is an argument: \<open>qt_net\<close> is the reading and printing of
  addresses and Base64 by Qt, with \<open>qt_net_ok\<close> the documented facts used; \<open>json_codec\<close> is the
  conversion between JSON values and text, with \<open>line_ok\<close> and its relatives (what is written without
  line feeds is read back) as hypotheses for the documents concerned only; translations, fresh
  identifiers, the clock, dates and random numbers are arguments of the operations that ask for
  them.  The vendored cipher is an argument with \<open>aead_ok\<close> (decryption undoes encryption), the secret
  portal, the key derivation and the conversion of settings to JSON are arguments as well.  Qt signals emitted by an object are a list in its state, delayed calls and timers are flags
  or queues, so that a step relation may deliver them in any order.

  \<^bold>\<open>Bounds and termination.\<close>  All recursion is total and no definition has fuel: the loops that
  are not structural (exclusion of a block, lines of the socket, time-outs of pings, trimming of
  lists) have a measure.  The daemon's \<open>activate\<close> calls itself at most once, which is unrolled; that
  the inner call does not nest is proved with its outcome.  \<open>int\<close> of C++ is \<open>int\<close> with the
  conversion at 32 bits written out where the value comes from outside (ports, indices, JSON numbers), unsigned quantities that wrap are words
  (addresses, sequence numbers of 16 bits, checksums).  Doubles (latencies, distances) are rationals
  or reals.

  \<^bold>\<open>Build.\<close>  The desktop client on Linux: branches for iOS, Android, WebAssembly, Windows and macOS are
  left out, and so are logging and telemetry (Glean) calls, which do not change the state.  The host is
  little endian.

  \<^bold>\<open>Not modelled.\<close>  Authentication, subscriptions, captive portal detection, server fetching and
  the rest of the life cycle in \<^verbatim>\<open>mozillavpn.cpp\<close>: sequences of network requests whose outcome is decided by
  remote services; only the calls that queue controller actions are modelled.  The QML user
  interface, navigation, addons, translations, the inspector and the command line: glue over Qt
  without state of their own that matters to a connection.  The platform code under
  \<^verbatim>\<open>platforms/\<close> (netlink, firewall, D-Bus, Windows services, network extensions): calls of operating
  system interfaces; its contract appears as the locales of \<open>Daemon_Mock\<close>.  Vendored code
  (HACL*, \<^verbatim>\<open>mfbt\<close>, \<^verbatim>\<open>qtglean\<close>, the submodules).  In the modelled files: the standard deviation of the latency
  (a square root over doubles), the mobile suspension of health checks, the packet filter of the raw
  ping socket and the TCP ping sender, and the settings of \<^verbatim>\<open>settingslist.h\<close>
  that no modelled component uses.
\<close>

subsection \<open>Composition\<close>

text \<open>What is used of Qt and of the text form for one profile.\<close>

definition sendable :: "qt_net \<Rightarrow> json_codec \<Rightarrow> InterfaceConfig \<Rightarrow> bool" where
  "sendable Q C config \<longleftrightarrow> (\<forall>ip\<in>set (m_allowedIPAddressRanges config). addr_reads_back Q (m_address ip)) \<and>
     line_ok C (activateMessage Q config) \<and>
     (\<forall>ob\<in>set (signalMessages (Connected (qtext (m_serverPublicKey config)))). line_ok C ob)"

lemma parsed_config_travels:
  assumes "qt_net_ok Q" "wg_parse Q content = Inr config" "sendable Q C config"
  shows "- (2^31) \<le> m_serverPort config" "m_serverPort config < 2^31"
    "\<forall>ip\<in>set (m_allowedIPAddressRanges config). wf_ip ip \<and> addr_reads_back Q (m_address ip)"
    "m_hopType config = SingleHop"
proof -
  have inv: "parse_inv Q config" "parse_required config = Inr config" using wg_parse_inv [OF assms(2)] by auto
  show "m_hopType config = SingleHop" using inv(1) by (simp add: parse_inv_def)
  have "1 \<le> m_serverPort config" "m_serverPort config \<le> 65535"
    using inv by (auto simp: parse_inv_def parse_required_def split: if_splits)
  then show "- (2^31) \<le> m_serverPort config" "m_serverPort config < 2^31" by simp_all
  show "\<forall>ip\<in>set (m_allowedIPAddressRanges config). wf_ip ip \<and> addr_reads_back Q (m_address ip)"
    using inv(1) IPAddress_fromString_canonical [OF assms(1)] assms(3)
    by (auto simp: parse_inv_def sendable_def canonical_def)
qed


text \<open>The example profile, and a text form for its two messages.\<close>

definition roundCodec :: json_codec where
  "roundCodec = \<lparr>jsonToText = (\<lambda>ob. if jValue ob ''type'' = Some (JString ''activate'') then ''A'' else ''C''),
     jsonFromText = (\<lambda>t. if t = ''A'' then Some (JObject (activateMessage exampleNet exampleConfig))
       else Some (JObject (hd (signalMessages (Connected ''def='')))))\<rparr>"

lemma example_sendable: "sendable exampleNet roundCodec exampleConfig"
proof -
  have "\<forall>ip\<in>set (m_allowedIPAddressRanges exampleConfig). addr_reads_back exampleNet (m_address ip)" by code_simp
  moreover have "line_ok roundCodec (activateMessage exampleNet exampleConfig)"
    by (simp add: line_ok_def reads_back_def roundCodec_def newline_def bytesTrimmed_def isByteSpace_def activateMessage_def)
  moreover have "line_ok roundCodec (jInsert ''pubkey'' (JString ''def='') (jInsert ''type'' (JString ''connected'') []))"
    by (simp add: line_ok_def reads_back_def roundCodec_def newline_def bytesTrimmed_def isByteSpace_def)
  moreover have "qtext (m_serverPublicKey exampleConfig) = ''def=''" by (simp add: exampleConfig_def)
  ultimately show ?thesis by (simp add: sendable_def)
qed


end
